theory Spec2Isabelle
  imports Main "HOL-Library.Word"
begin

unbundle bit_operations_syntax

section \<open>Basic types\<close>

text \<open>
  The generated classes of \<^verbatim>\<open>ommx.v1\<close> are embedded by value: a message is a record of
  the members of its \<^verbatim>\<open>Impl_\<close> struct together with the unknown-field set of its
  \<^verbatim>\<open>_internal_metadata_\<close>; a pointer member is an \<open>option\<close> (\<open>None\<close> is \<^verbatim>\<open>nullptr\<close>).
  Every message owns its submessages, so a pointer is never shared and the pointee is
  stored in place. Arenas only decide where a message is allocated and who frees it;
  they do not change any value and are left out.
\<close>

type_synonym byte = "8 word"
type_synonym uint32 = "32 word"
type_synonym uint64 = "64 word"

text \<open>
  A C++ \<^verbatim>\<open>double\<close> is kept as its 64-bit IEEE-754 pattern: the accessors store and
  return it unchanged, and the wire format carries exactly these 64 bits. The literal
  \<^verbatim>\<open>0\<close> converted to \<^verbatim>\<open>double\<close> is \<open>+0.0\<close>, the all-zero pattern.
\<close>

type_synonym double = "64 word"

text \<open>
  The unknown fields a message holds, in arrival order; each element is the bytes of one
  field (tag and payload).
\<close>

type_synonym UnknownFieldSet = "byte list list"

datatype error =
    NullDereference        \<comment> \<open>dereferencing a \<^verbatim>\<open>nullptr\<close> member\<close>
  | InactiveUnionMember    \<comment> \<open>reading a union member other than the one last written\<close>
  | IndexOutOfRange        \<comment> \<open>\<^verbatim>\<open>RepeatedField::Get/Set\<close> outside \<open>0 \<le> index < size\<close>\<close>
  | DCheckFailure          \<comment> \<open>a failed \<^verbatim>\<open>ABSL_DCHECK\<close>\<close>
  | DecodeError            \<comment> \<open>malformed wire bytes\<close>

section \<open>Linear and Polynomial\<close>

text \<open>
  Modelled from the spec: \<^verbatim>\<open>linear.pb.h\<close> is not among the sources. Section 3 of the
  specification describes a Linear expression as an ordered list of (variable id,
  coefficient) pairs plus a scalar constant term; the default instance has no entries
  and the constant \<open>0.0\<close>.
\<close>

record Linear =
  Linear_impl_terms :: "(uint64 \<times> double) list"
  Linear_impl_constant :: double

definition Linear_default_instance :: Linear where
  "Linear_default_instance = \<lparr>Linear_impl_terms = [], Linear_impl_constant = 0\<rparr>"

text \<open>
  Modelled from the spec: \<^verbatim>\<open>Linear::Clear\<close> is defined in linear.pb.cc, which is not
  among the sources. A cleared Linear is empty: no entries and the constant \<open>0.0\<close>.
\<close>

definition Linear_Clear :: "Linear \<Rightarrow> Linear" where
  "Linear_Clear l = \<lparr>Linear_impl_terms = [], Linear_impl_constant = 0\<rparr>"

text \<open>
  Modelled from the spec: \<^verbatim>\<open>polynomial.pb.h\<close> is not among the sources. Section 3 of the
  specification asks for a sparse monomial list analogous to Quadratic: each entry is
  the list of variable ids of a monomial and its coefficient.
\<close>

record Polynomial =
  Polynomial_impl_terms :: "(uint64 list \<times> double) list"

definition Polynomial_default_instance :: Polynomial where
  "Polynomial_default_instance = \<lparr>Polynomial_impl_terms = []\<rparr>"

section \<open>Quadratic (quadratic.pb.h)\<close>

record Quadratic =
  Quadratic_impl_has_bits :: uint32
  Quadratic_impl_rows :: "uint64 list"
  Quadratic_impl_columns :: "uint64 list"
  Quadratic_impl_values :: "double list"
  Quadratic_impl_linear :: "Linear option"
  Quadratic_internal_metadata :: UnknownFieldSet

text \<open>
  The constant-initialised default instance: no has-bit, empty repeated fields, a null
  \<^verbatim>\<open>linear_\<close> pointer, no unknown fields.
\<close>

definition Quadratic_default_instance :: Quadratic where
  "Quadratic_default_instance =
     \<lparr>Quadratic_impl_has_bits = 0, Quadratic_impl_rows = [], Quadratic_impl_columns = [],
      Quadratic_impl_values = [], Quadratic_impl_linear = None,
      Quadratic_internal_metadata = []\<rparr>"

text \<open>\<^verbatim>\<open>RepeatedField::Get(index)\<close> and \<^verbatim>\<open>Set(index, value)\<close> with their bounds check.\<close>

definition RepeatedField_Get :: "'a list \<Rightarrow> int \<Rightarrow> error + 'a" where
  "RepeatedField_Get xs index =
     (if 0 \<le> index \<and> index < int (length xs) then Inr (xs ! nat index)
      else Inl IndexOutOfRange)"

definition RepeatedField_Set :: "'a list \<Rightarrow> int \<Rightarrow> 'a \<Rightarrow> error + 'a list" where
  "RepeatedField_Set xs index v =
     (if 0 \<le> index \<and> index < int (length xs) then Inr (xs[nat index := v])
      else Inl IndexOutOfRange)"

definition Quadratic_rows_size :: "Quadratic \<Rightarrow> int" where
  "Quadratic_rows_size q = int (length (Quadratic_impl_rows q))"

definition Quadratic_clear_rows :: "Quadratic \<Rightarrow> Quadratic" where
  "Quadratic_clear_rows q = q\<lparr>Quadratic_impl_rows := []\<rparr>"

definition Quadratic_rows :: "Quadratic \<Rightarrow> int \<Rightarrow> error + uint64" where
  "Quadratic_rows q index = RepeatedField_Get (Quadratic_impl_rows q) index"

definition Quadratic_set_rows :: "int \<Rightarrow> uint64 \<Rightarrow> Quadratic \<Rightarrow> error + Quadratic" where
  "Quadratic_set_rows index v q =
     (case RepeatedField_Set (Quadratic_impl_rows q) index v of
        Inl e \<Rightarrow> Inl e
      | Inr xs \<Rightarrow> Inr (q\<lparr>Quadratic_impl_rows := xs\<rparr>))"

definition Quadratic_add_rows :: "uint64 \<Rightarrow> Quadratic \<Rightarrow> Quadratic" where
  "Quadratic_add_rows v q = q\<lparr>Quadratic_impl_rows := Quadratic_impl_rows q @ [v]\<rparr>"

definition Quadratic_columns_size :: "Quadratic \<Rightarrow> int" where
  "Quadratic_columns_size q = int (length (Quadratic_impl_columns q))"

definition Quadratic_clear_columns :: "Quadratic \<Rightarrow> Quadratic" where
  "Quadratic_clear_columns q = q\<lparr>Quadratic_impl_columns := []\<rparr>"

definition Quadratic_columns :: "Quadratic \<Rightarrow> int \<Rightarrow> error + uint64" where
  "Quadratic_columns q index = RepeatedField_Get (Quadratic_impl_columns q) index"

definition Quadratic_set_columns :: "int \<Rightarrow> uint64 \<Rightarrow> Quadratic \<Rightarrow> error + Quadratic" where
  "Quadratic_set_columns index v q =
     (case RepeatedField_Set (Quadratic_impl_columns q) index v of
        Inl e \<Rightarrow> Inl e
      | Inr xs \<Rightarrow> Inr (q\<lparr>Quadratic_impl_columns := xs\<rparr>))"

definition Quadratic_add_columns :: "uint64 \<Rightarrow> Quadratic \<Rightarrow> Quadratic" where
  "Quadratic_add_columns v q = q\<lparr>Quadratic_impl_columns := Quadratic_impl_columns q @ [v]\<rparr>"

definition Quadratic_values_size :: "Quadratic \<Rightarrow> int" where
  "Quadratic_values_size q = int (length (Quadratic_impl_values q))"

definition Quadratic_clear_values :: "Quadratic \<Rightarrow> Quadratic" where
  "Quadratic_clear_values q = q\<lparr>Quadratic_impl_values := []\<rparr>"

definition Quadratic_values :: "Quadratic \<Rightarrow> int \<Rightarrow> error + double" where
  "Quadratic_values q index = RepeatedField_Get (Quadratic_impl_values q) index"

definition Quadratic_set_values :: "int \<Rightarrow> double \<Rightarrow> Quadratic \<Rightarrow> error + Quadratic" where
  "Quadratic_set_values index v q =
     (case RepeatedField_Set (Quadratic_impl_values q) index v of
        Inl e \<Rightarrow> Inl e
      | Inr xs \<Rightarrow> Inr (q\<lparr>Quadratic_impl_values := xs\<rparr>))"

definition Quadratic_add_values :: "double \<Rightarrow> Quadratic \<Rightarrow> Quadratic" where
  "Quadratic_add_values v q = q\<lparr>Quadratic_impl_values := Quadratic_impl_values q @ [v]\<rparr>"

text \<open>The optional \<^verbatim>\<open>linear\<close> field: has-bit \<^verbatim>\<open>0x00000001\<close> and the pointer \<^verbatim>\<open>linear_\<close>.\<close>

definition Quadratic_has_linear :: "Quadratic \<Rightarrow> bool" where
  "Quadratic_has_linear q = (Quadratic_impl_has_bits q AND 0x00000001 \<noteq> 0)"

definition Quadratic_internal_linear :: "Quadratic \<Rightarrow> Linear" where
  "Quadratic_internal_linear q =
     (case Quadratic_impl_linear q of Some p \<Rightarrow> p | None \<Rightarrow> Linear_default_instance)"

definition Quadratic_linear :: "Quadratic \<Rightarrow> Linear" where
  "Quadratic_linear q = Quadratic_internal_linear q"

definition Quadratic_unsafe_arena_set_allocated_linear ::
    "Linear option \<Rightarrow> Quadratic \<Rightarrow> Quadratic" where
  "Quadratic_unsafe_arena_set_allocated_linear v q =
     (let q1 = q\<lparr>Quadratic_impl_linear := v\<rparr> in
      if v \<noteq> None
      then q1\<lparr>Quadratic_impl_has_bits := Quadratic_impl_has_bits q1 OR 0x00000001\<rparr>
      else q1\<lparr>Quadratic_impl_has_bits := Quadratic_impl_has_bits q1 AND NOT 0x00000001\<rparr>)"

text \<open>
  \<^verbatim>\<open>release_linear\<close> and \<^verbatim>\<open>unsafe_arena_release_linear\<close> return the released pointer
  (on an arena, a heap copy of the pointee: the same value) and the message.
\<close>

definition Quadratic_release_linear :: "Quadratic \<Rightarrow> Linear option \<times> Quadratic" where
  "Quadratic_release_linear q =
     (let q1 = q\<lparr>Quadratic_impl_has_bits := Quadratic_impl_has_bits q AND NOT 0x00000001\<rparr>;
          released = Quadratic_impl_linear q1;
          q2 = q1\<lparr>Quadratic_impl_linear := None\<rparr>
      in (released, q2))"

definition Quadratic_unsafe_arena_release_linear ::
    "Quadratic \<Rightarrow> Linear option \<times> Quadratic" where
  "Quadratic_unsafe_arena_release_linear q =
     (let q1 = q\<lparr>Quadratic_impl_has_bits := Quadratic_impl_has_bits q AND NOT 0x00000001\<rparr>;
          temp = Quadratic_impl_linear q1;
          q2 = q1\<lparr>Quadratic_impl_linear := None\<rparr>
      in (temp, q2))"

definition Quadratic_internal_mutable_linear :: "Quadratic \<Rightarrow> Quadratic" where
  "Quadratic_internal_mutable_linear q =
     (if Quadratic_impl_linear q = None
      then q\<lparr>Quadratic_impl_linear := Some Linear_default_instance\<rparr>
      else q)"

text \<open>
  \<^verbatim>\<open>mutable_linear\<close> returns the pointer \<^verbatim>\<open>linear_\<close>; \<open>upd\<close> is what the caller
  writes through it.
\<close>

definition Quadratic_mutable_linear :: "(Linear \<Rightarrow> Linear) \<Rightarrow> Quadratic \<Rightarrow> Quadratic" where
  "Quadratic_mutable_linear upd q =
     (let q1 = q\<lparr>Quadratic_impl_has_bits := Quadratic_impl_has_bits q OR 0x00000001\<rparr>;
          q2 = Quadratic_internal_mutable_linear q1
      in q2\<lparr>Quadratic_impl_linear := map_option upd (Quadratic_impl_linear q2)\<rparr>)"

definition Quadratic_set_allocated_linear :: "Linear option \<Rightarrow> Quadratic \<Rightarrow> Quadratic" where
  "Quadratic_set_allocated_linear v q =
     (let q1 = (if v \<noteq> None
                then q\<lparr>Quadratic_impl_has_bits := Quadratic_impl_has_bits q OR 0x00000001\<rparr>
                else q\<lparr>Quadratic_impl_has_bits := Quadratic_impl_has_bits q AND NOT 0x00000001\<rparr>)
      in q1\<lparr>Quadratic_impl_linear := v\<rparr>)"

text \<open>
  Modelled from the spec: \<^verbatim>\<open>clear_linear\<close>, \<^verbatim>\<open>Clear\<close> and \<^verbatim>\<open>MergeImpl\<close> are declared
  in quadratic.pb.h and defined in quadratic.pb.cc, which is not among the sources.
  Section 4.2 of the specification: an absent Linear means a zero linear part. They are
  written as the generated methods of the same kind that instance.pb.cc defines for the
  submessage \<^verbatim>\<open>objective\<close> (\<^verbatim>\<open>Instance::clear_objective\<close>, \<^verbatim>\<open>Instance::Clear\<close>,
  \<^verbatim>\<open>Instance::MergeImpl\<close>): clearing clears the Linear held, keeps it, and clears the
  has-bit; merging merges into the Linear held, or copies the one of the source when
  the pointer is null, and sets the has-bit. \<open>mf\<close> is \<^verbatim>\<open>Linear::MergeFrom\<close>.
\<close>

definition Quadratic_clear_linear :: "Quadratic \<Rightarrow> Quadratic" where
  "Quadratic_clear_linear q =
     (let q1 = q\<lparr>Quadratic_impl_linear := map_option Linear_Clear (Quadratic_impl_linear q)\<rparr>
      in q1\<lparr>Quadratic_impl_has_bits := Quadratic_impl_has_bits q1 AND NOT 0x00000001\<rparr>)"

definition Quadratic_Clear :: "Quadratic \<Rightarrow> error + Quadratic" where
  "Quadratic_Clear q =
     (let q0 = q\<lparr>Quadratic_impl_rows := [], Quadratic_impl_columns := [],
                  Quadratic_impl_values := []\<rparr>;
          cached_has_bits = Quadratic_impl_has_bits q0
      in if cached_has_bits AND 0x00000001 \<noteq> 0 \<and> Quadratic_impl_linear q0 = None
         then Inl NullDereference
         else
           (let q1 = (if cached_has_bits AND 0x00000001 \<noteq> 0
                      then q0\<lparr>Quadratic_impl_linear :=
                               map_option Linear_Clear (Quadratic_impl_linear q0)\<rparr>
                      else q0)
            in Inr (q1\<lparr>Quadratic_impl_has_bits := 0, Quadratic_internal_metadata := []\<rparr>)))"

definition Quadratic_MergeImpl ::
    "(Linear \<Rightarrow> Linear \<Rightarrow> Linear) \<Rightarrow> Quadratic \<Rightarrow> Quadratic \<Rightarrow> error + Quadratic" where
  "Quadratic_MergeImpl mf this from =
     (let t0 = this\<lparr>Quadratic_impl_rows := Quadratic_impl_rows this @ Quadratic_impl_rows from,
                     Quadratic_impl_columns :=
                       Quadratic_impl_columns this @ Quadratic_impl_columns from,
                     Quadratic_impl_values :=
                       Quadratic_impl_values this @ Quadratic_impl_values from\<rparr>;
          cached_has_bits = Quadratic_impl_has_bits from
      in if cached_has_bits AND 0x00000001 \<noteq> 0 \<and> Quadratic_impl_linear from = None
         then Inl NullDereference
         else
           (let t1 = (if cached_has_bits AND 0x00000001 \<noteq> 0
                      then (case Quadratic_impl_linear t0 of
                              None \<Rightarrow> t0\<lparr>Quadratic_impl_linear := Quadratic_impl_linear from\<rparr>
                            | Some l \<Rightarrow> t0\<lparr>Quadratic_impl_linear :=
                                  map_option (mf l) (Quadratic_impl_linear from)\<rparr>)
                      else t0);
                t2 = t1\<lparr>Quadratic_impl_has_bits := Quadratic_impl_has_bits t1 OR cached_has_bits\<rparr>
            in Inr (t2\<lparr>Quadratic_internal_metadata :=
                         Quadratic_internal_metadata t2 @ Quadratic_internal_metadata from\<rparr>)))"

subsection \<open>Sequences of calls on a Quadratic\<close>

text \<open>
  The operations quadratic.pb.h defines, as calls a client can make in any order. A
  call that fails its bounds check ends the sequence with the error.
\<close>

datatype Quadratic_call =
    Clear_rows | Set_rows int uint64 | Add_rows uint64
  | Clear_columns | Set_columns int uint64 | Add_columns uint64
  | Clear_values | Set_values int double | Add_values double
  | Mutable_linear_with "Linear \<Rightarrow> Linear"
  | Release_linear
  | Unsafe_arena_release_linear
  | Set_allocated_linear "Linear option"
  | Unsafe_arena_set_allocated_linear "Linear option"

fun Quadratic_do_call :: "Quadratic \<Rightarrow> Quadratic_call \<Rightarrow> error + Quadratic" where
  "Quadratic_do_call q Clear_rows = Inr (Quadratic_clear_rows q)"
| "Quadratic_do_call q (Set_rows i v) = Quadratic_set_rows i v q"
| "Quadratic_do_call q (Add_rows v) = Inr (Quadratic_add_rows v q)"
| "Quadratic_do_call q Clear_columns = Inr (Quadratic_clear_columns q)"
| "Quadratic_do_call q (Set_columns i v) = Quadratic_set_columns i v q"
| "Quadratic_do_call q (Add_columns v) = Inr (Quadratic_add_columns v q)"
| "Quadratic_do_call q Clear_values = Inr (Quadratic_clear_values q)"
| "Quadratic_do_call q (Set_values i v) = Quadratic_set_values i v q"
| "Quadratic_do_call q (Add_values v) = Inr (Quadratic_add_values v q)"
| "Quadratic_do_call q (Mutable_linear_with upd) = Inr (Quadratic_mutable_linear upd q)"
| "Quadratic_do_call q Release_linear = Inr (snd (Quadratic_release_linear q))"
| "Quadratic_do_call q Unsafe_arena_release_linear =
     Inr (snd (Quadratic_unsafe_arena_release_linear q))"
| "Quadratic_do_call q (Set_allocated_linear v) = Inr (Quadratic_set_allocated_linear v q)"
| "Quadratic_do_call q (Unsafe_arena_set_allocated_linear v) =
     Inr (Quadratic_unsafe_arena_set_allocated_linear v q)"

fun Quadratic_do_calls :: "Quadratic \<Rightarrow> Quadratic_call list \<Rightarrow> error + Quadratic" where
  "Quadratic_do_calls q [] = Inr q"
| "Quadratic_do_calls q (c # cs) =
     (case Quadratic_do_call q c of
        Inl e \<Rightarrow> Inl e
      | Inr q' \<Rightarrow> Quadratic_do_calls q' cs)"

text \<open>
  The condition \<^verbatim>\<open>has_linear\<close> states with
  \<^verbatim>\<open>PROTOBUF_ASSUME(!value || _impl_.linear_ != nullptr)\<close>: when the has-bit is set, a
  Linear is held. The converse is not asked: a Quadratic may keep a Linear while the
  has-bit is clear.
\<close>

definition Quadratic_linear_consistent :: "Quadratic \<Rightarrow> bool" where
  "Quadratic_linear_consistent q =
     (if Quadratic_has_linear q then Quadratic_impl_linear q \<noteq> None else True)"

text \<open>
  A Linear kept while the has-bit is clear is an empty one: the state that clearing
  leaves.
\<close>

definition Quadratic_linear_cleared :: "Quadratic \<Rightarrow> bool" where
  "Quadratic_linear_cleared q =
     (if Quadratic_has_linear q then True
      else (case Quadratic_impl_linear q of
              None \<Rightarrow> True
            | Some l \<Rightarrow> l = Linear_default_instance))"

text \<open>
  The shape that the specification asks of a Quadratic (its section 4.2): the three
  sequences have the same length. No operation of the code reads this predicate.
\<close>

definition Quadratic_shape_valid :: "Quadratic \<Rightarrow> bool" where
  "Quadratic_shape_valid q =
     (Quadratic_rows_size q = Quadratic_columns_size q \<and>
      Quadratic_columns_size q = Quadratic_values_size q)"

section \<open>Function (function.pb.h)\<close>

text \<open>
  The anonymous union \<^verbatim>\<open>FunctionUnion\<close>: the value records which member was written
  last. Its constructor initialises \<^verbatim>\<open>_constinit_\<close>.
\<close>

datatype FunctionUnion =
    U_constinit
  | U_constant double
  | U_linear "Linear option"
  | U_quadratic "Quadratic option"
  | U_polynomial "Polynomial option"

record Function =
  Function_impl_function :: FunctionUnion
  Function_impl_oneof_case :: uint32
  Function_internal_metadata :: UnknownFieldSet

text \<open>The enum \<^verbatim>\<open>FunctionCase\<close>.\<close>

definition kConstant :: uint32 where "kConstant = 1"
definition kLinear :: uint32 where "kLinear = 2"
definition kQuadratic :: uint32 where "kQuadratic = 3"
definition kPolynomial :: uint32 where "kPolynomial = 4"
definition FUNCTION_NOT_SET :: uint32 where "FUNCTION_NOT_SET = 0"

definition Function_default_instance :: Function where
  "Function_default_instance =
     \<lparr>Function_impl_function = U_constinit, Function_impl_oneof_case = 0,
      Function_internal_metadata = []\<rparr>"

definition Function_function_case :: "Function \<Rightarrow> uint32" where
  "Function_function_case f = Function_impl_oneof_case f"

definition Function_has_function :: "Function \<Rightarrow> bool" where
  "Function_has_function f = (Function_function_case f \<noteq> FUNCTION_NOT_SET)"

definition Function_clear_has_function :: "Function \<Rightarrow> Function" where
  "Function_clear_has_function f = f\<lparr>Function_impl_oneof_case := FUNCTION_NOT_SET\<rparr>"

text \<open>
  Modelled from the spec: \<^verbatim>\<open>Function::clear_function\<close> is declared in function.pb.h
  and defined in function.pb.cc, which is not among the sources. Section 4.1 of the
  specification: it clears the active variant, releasing what was held, and leaves no
  variant set. The setters below take the clearing function as the parameter \<open>cf\<close>, so
  what is proved about them holds for every definition of it; this one is used where a
  concrete one is needed.
\<close>

definition Function_clear_function :: "Function \<Rightarrow> Function" where
  "Function_clear_function f =
     Function_clear_has_function (f\<lparr>Function_impl_function := U_constinit\<rparr>)"

subsection \<open>constant\<close>

definition Function_has_constant :: "Function \<Rightarrow> bool" where
  "Function_has_constant f = (Function_function_case f = kConstant)"

definition Function_set_has_constant :: "Function \<Rightarrow> Function" where
  "Function_set_has_constant f = f\<lparr>Function_impl_oneof_case := kConstant\<rparr>"

definition Function_clear_constant :: "Function \<Rightarrow> Function" where
  "Function_clear_constant f =
     (if Function_function_case f = kConstant
      then Function_clear_has_function (f\<lparr>Function_impl_function := U_constant 0\<rparr>)
      else f)"

definition Function_set_constant :: "(Function \<Rightarrow> Function) \<Rightarrow> double \<Rightarrow> Function \<Rightarrow> Function" where
  "Function_set_constant cf v f =
     (let f1 = (if Function_function_case f \<noteq> kConstant
                then Function_set_has_constant (cf f) else f)
      in f1\<lparr>Function_impl_function := U_constant v\<rparr>)"

definition Function_internal_constant :: "Function \<Rightarrow> error + double" where
  "Function_internal_constant f =
     (if Function_function_case f = kConstant
      then (case Function_impl_function f of
              U_constant c \<Rightarrow> Inr c
            | _ \<Rightarrow> Inl InactiveUnionMember)
      else Inr 0)"

definition Function_constant :: "Function \<Rightarrow> error + double" where
  "Function_constant f = Function_internal_constant f"

subsection \<open>linear\<close>

definition Function_has_linear :: "Function \<Rightarrow> bool" where
  "Function_has_linear f = (Function_function_case f = kLinear)"

definition Function_set_has_linear :: "Function \<Rightarrow> Function" where
  "Function_set_has_linear f = f\<lparr>Function_impl_oneof_case := kLinear\<rparr>"

definition Function_internal_linear :: "Function \<Rightarrow> error + Linear" where
  "Function_internal_linear f =
     (if Function_function_case f = kLinear
      then (case Function_impl_function f of
              U_linear (Some p) \<Rightarrow> Inr p
            | U_linear None \<Rightarrow> Inl NullDereference
            | _ \<Rightarrow> Inl InactiveUnionMember)
      else Inr Linear_default_instance)"

definition Function_linear :: "Function \<Rightarrow> error + Linear" where
  "Function_linear f = Function_internal_linear f"

definition Function_internal_mutable_linear :: "(Function \<Rightarrow> Function) \<Rightarrow> Function \<Rightarrow> Function" where
  "Function_internal_mutable_linear cf f =
     (if Function_function_case f \<noteq> kLinear
      then (Function_set_has_linear (cf f))
             \<lparr>Function_impl_function := U_linear (Some Linear_default_instance)\<rparr>
      else f)"

definition Function_mutable_linear :: "(Function \<Rightarrow> Function) \<Rightarrow> Function \<Rightarrow> Function" where
  "Function_mutable_linear cf f = Function_internal_mutable_linear cf f"

definition Function_unsafe_arena_set_allocated_linear ::
    "(Function \<Rightarrow> Function) \<Rightarrow> Linear option \<Rightarrow> Function \<Rightarrow> Function" where
  "Function_unsafe_arena_set_allocated_linear cf v f =
     (let f1 = cf f in
      if v \<noteq> None
      then (Function_set_has_linear f1)\<lparr>Function_impl_function := U_linear v\<rparr>
      else f1)"

subsection \<open>quadratic\<close>

definition Function_has_quadratic :: "Function \<Rightarrow> bool" where
  "Function_has_quadratic f = (Function_function_case f = kQuadratic)"

definition Function_set_has_quadratic :: "Function \<Rightarrow> Function" where
  "Function_set_has_quadratic f = f\<lparr>Function_impl_oneof_case := kQuadratic\<rparr>"

definition Function_internal_quadratic :: "Function \<Rightarrow> error + Quadratic" where
  "Function_internal_quadratic f =
     (if Function_function_case f = kQuadratic
      then (case Function_impl_function f of
              U_quadratic (Some p) \<Rightarrow> Inr p
            | U_quadratic None \<Rightarrow> Inl NullDereference
            | _ \<Rightarrow> Inl InactiveUnionMember)
      else Inr Quadratic_default_instance)"

definition Function_quadratic :: "Function \<Rightarrow> error + Quadratic" where
  "Function_quadratic f = Function_internal_quadratic f"

definition Function_internal_mutable_quadratic :: "(Function \<Rightarrow> Function) \<Rightarrow> Function \<Rightarrow> Function" where
  "Function_internal_mutable_quadratic cf f =
     (if Function_function_case f \<noteq> kQuadratic
      then (Function_set_has_quadratic (cf f))
             \<lparr>Function_impl_function := U_quadratic (Some Quadratic_default_instance)\<rparr>
      else f)"

definition Function_mutable_quadratic :: "(Function \<Rightarrow> Function) \<Rightarrow> Function \<Rightarrow> Function" where
  "Function_mutable_quadratic cf f = Function_internal_mutable_quadratic cf f"

definition Function_unsafe_arena_set_allocated_quadratic ::
    "(Function \<Rightarrow> Function) \<Rightarrow> Quadratic option \<Rightarrow> Function \<Rightarrow> Function" where
  "Function_unsafe_arena_set_allocated_quadratic cf v f =
     (let f1 = cf f in
      if v \<noteq> None
      then (Function_set_has_quadratic f1)\<lparr>Function_impl_function := U_quadratic v\<rparr>
      else f1)"

subsection \<open>polynomial\<close>

definition Function_has_polynomial :: "Function \<Rightarrow> bool" where
  "Function_has_polynomial f = (Function_function_case f = kPolynomial)"

definition Function_set_has_polynomial :: "Function \<Rightarrow> Function" where
  "Function_set_has_polynomial f = f\<lparr>Function_impl_oneof_case := kPolynomial\<rparr>"

definition Function_internal_polynomial :: "Function \<Rightarrow> error + Polynomial" where
  "Function_internal_polynomial f =
     (if Function_function_case f = kPolynomial
      then (case Function_impl_function f of
              U_polynomial (Some p) \<Rightarrow> Inr p
            | U_polynomial None \<Rightarrow> Inl NullDereference
            | _ \<Rightarrow> Inl InactiveUnionMember)
      else Inr Polynomial_default_instance)"

definition Function_polynomial :: "Function \<Rightarrow> error + Polynomial" where
  "Function_polynomial f = Function_internal_polynomial f"

definition Function_internal_mutable_polynomial :: "(Function \<Rightarrow> Function) \<Rightarrow> Function \<Rightarrow> Function" where
  "Function_internal_mutable_polynomial cf f =
     (if Function_function_case f \<noteq> kPolynomial
      then (Function_set_has_polynomial (cf f))
             \<lparr>Function_impl_function := U_polynomial (Some Polynomial_default_instance)\<rparr>
      else f)"

definition Function_mutable_polynomial :: "(Function \<Rightarrow> Function) \<Rightarrow> Function \<Rightarrow> Function" where
  "Function_mutable_polynomial cf f = Function_internal_mutable_polynomial cf f"

definition Function_unsafe_arena_set_allocated_polynomial ::
    "(Function \<Rightarrow> Function) \<Rightarrow> Polynomial option \<Rightarrow> Function \<Rightarrow> Function" where
  "Function_unsafe_arena_set_allocated_polynomial cf v f =
     (let f1 = cf f in
      if v \<noteq> None
      then (Function_set_has_polynomial f1)\<lparr>Function_impl_function := U_polynomial v\<rparr>
      else f1)"

definition Function_IsInitialized :: "Function \<Rightarrow> bool" where
  "Function_IsInitialized f = True"

subsection \<open>Sequences of setter calls\<close>

datatype Function_call =
    Set_constant double
  | Mutable_linear
  | Mutable_quadratic
  | Mutable_polynomial

fun Function_do_call :: "(Function \<Rightarrow> Function) \<Rightarrow> Function \<Rightarrow> Function_call \<Rightarrow> Function" where
  "Function_do_call cf f (Set_constant v) = Function_set_constant cf v f"
| "Function_do_call cf f Mutable_linear = Function_mutable_linear cf f"
| "Function_do_call cf f Mutable_quadratic = Function_mutable_quadratic cf f"
| "Function_do_call cf f Mutable_polynomial = Function_mutable_polynomial cf f"

definition Function_do_calls :: "(Function \<Rightarrow> Function) \<Rightarrow> Function_call list \<Rightarrow> Function \<Rightarrow> Function" where
  "Function_do_calls cf cs f = foldl (Function_do_call cf) f cs"

fun case_of_call :: "Function_call \<Rightarrow> uint32" where
  "case_of_call (Set_constant v) = kConstant"
| "case_of_call Mutable_linear = kLinear"
| "case_of_call Mutable_quadratic = kQuadratic"
| "case_of_call Mutable_polynomial = kPolynomial"

text \<open>
  What a call writes to the union when the variant it names is not the active one: the
  value given to \<^verbatim>\<open>set_constant\<close>, or the default-constructed message that
  \<^verbatim>\<open>_internal_mutable_linear\<close>, \<^verbatim>\<open>_internal_mutable_quadratic\<close> and
  \<^verbatim>\<open>_internal_mutable_polynomial\<close> allocate.
\<close>

fun variant_of_call :: "Function_call \<Rightarrow> FunctionUnion" where
  "variant_of_call (Set_constant v) = U_constant v"
| "variant_of_call Mutable_linear = U_linear (Some Linear_default_instance)"
| "variant_of_call Mutable_quadratic = U_quadratic (Some Quadratic_default_instance)"
| "variant_of_call Mutable_polynomial = U_polynomial (Some Polynomial_default_instance)"

text \<open>
  The union holds the member that the discriminant names: what the accessors
  \<^verbatim>\<open>_internal_constant\<close>, \<^verbatim>\<open>_internal_linear\<close>, \<^verbatim>\<open>_internal_quadratic\<close> and
  \<^verbatim>\<open>_internal_polynomial\<close> rely on when they read it.
\<close>

definition Function_union_consistent :: "Function \<Rightarrow> bool" where
  "Function_union_consistent f =
     (if Function_function_case f = kConstant then
        (case Function_impl_function f of U_constant v \<Rightarrow> True | _ \<Rightarrow> False)
      else if Function_function_case f = kLinear then
        (case Function_impl_function f of U_linear (Some l) \<Rightarrow> True | _ \<Rightarrow> False)
      else if Function_function_case f = kQuadratic then
        (case Function_impl_function f of U_quadratic (Some q) \<Rightarrow> True | _ \<Rightarrow> False)
      else if Function_function_case f = kPolynomial then
        (case Function_impl_function f of U_polynomial (Some p) \<Rightarrow> True | _ \<Rightarrow> False)
      else True)"

section \<open>Function: the methods of function.pb.cc\<close>

text \<open>
  \<^verbatim>\<open>Function::Clear\<close>, \<^verbatim>\<open>Function::MergeImpl\<close> and the copy constructor behind
  \<^verbatim>\<open>CopyConstruct<Function>\<close> are declared in function.pb.h and defined in
  function.pb.cc, which is not among the sources. The Instance methods that call them
  take them as a parameter.
\<close>

record Function_methods =
  Function_Clear :: "Function \<Rightarrow> Function"
  Function_MergeFrom :: "Function \<Rightarrow> Function \<Rightarrow> Function"
  Function_CopyConstruct :: "Function \<Rightarrow> Function"

text \<open>
  Field-for-field equality of two Functions, as the accessors of function.pb.h show
  them: the discriminant, the four variants and the unknown fields.
\<close>

definition Function_fields_equal :: "Function \<Rightarrow> Function \<Rightarrow> bool" where
  "Function_fields_equal f g =
     (Function_function_case f = Function_function_case g \<and>
      Function_constant f = Function_constant g \<and>
      Function_linear f = Function_linear g \<and>
      Function_quadratic f = Function_quadratic g \<and>
      Function_polynomial f = Function_polynomial g \<and>
      Function_internal_metadata f = Function_internal_metadata g)"

text \<open>
  What the Instance methods need of the three: a cleared Function shows the fields of
  the default instance, merging into such a Function gives the fields of the source,
  and a copy has the fields of its source.
\<close>

definition Function_methods_lawful :: "Function_methods \<Rightarrow> bool" where
  "Function_methods_lawful fm =
     ((\<forall>f. Function_fields_equal (Function_Clear fm f) Function_default_instance) \<and>
      (\<forall>f g. Function_fields_equal f Function_default_instance \<longrightarrow>
              Function_fields_equal (Function_MergeFrom fm f g) g) \<and>
      (\<forall>g. Function_fields_equal (Function_CopyConstruct fm g) g))"

text \<open>
  An instance of the three methods for a oneof that holds at most one variant: clearing
  leaves no variant and no unknown field; merging takes the variant of the source when
  it has one, and appends its unknown fields; copying copies.
\<close>

definition Function_methods_oneof :: Function_methods where
  "Function_methods_oneof =
     \<lparr>Function_Clear = (\<lambda>f. (Function_clear_function f)\<lparr>Function_internal_metadata := []\<rparr>),
      Function_MergeFrom = (\<lambda>f g.
         (if Function_function_case g \<noteq> FUNCTION_NOT_SET
          then f\<lparr>Function_impl_function := Function_impl_function g,
                 Function_impl_oneof_case := Function_impl_oneof_case g\<rparr>
          else f)
         \<lparr>Function_internal_metadata :=
            Function_internal_metadata f @ Function_internal_metadata g\<rparr>),
      Function_CopyConstruct = (\<lambda>g. g)\<rparr>"

section \<open>Instance.Description (instance.pb.cc)\<close>

type_synonym std_string = "byte list"

record Instance_Description =
  Description_impl_has_bits :: uint32
  Description_impl_authors :: "std_string list"
  Description_impl_name :: std_string
  Description_impl_description :: std_string
  Description_impl_created_by :: std_string
  Description_internal_metadata :: UnknownFieldSet

text \<open>
  The constant-initialised default instance: the three strings point at the empty
  string, \<^verbatim>\<open>authors_\<close> is empty, no has-bit is set.
\<close>

definition Instance_Description_default_instance :: Instance_Description where
  "Instance_Description_default_instance =
     \<lparr>Description_impl_has_bits = 0, Description_impl_authors = [],
      Description_impl_name = [], Description_impl_description = [],
      Description_impl_created_by = [], Description_internal_metadata = []\<rparr>"

text \<open>
  The copy constructor \<^verbatim>\<open>Instance_Description(arena, from)\<close>: the unknown fields of
  \<open>from\<close> merged into an empty set, and \<^verbatim>\<open>Impl_\<close> copied member by member.
\<close>

definition Instance_Description_CopyConstruct :: "Instance_Description \<Rightarrow> Instance_Description" where
  "Instance_Description_CopyConstruct from =
     \<lparr>Description_impl_has_bits = Description_impl_has_bits from,
      Description_impl_authors = Description_impl_authors from,
      Description_impl_name = Description_impl_name from,
      Description_impl_description = Description_impl_description from,
      Description_impl_created_by = Description_impl_created_by from,
      Description_internal_metadata = [] @ Description_internal_metadata from\<rparr>"

definition Instance_Description_Clear :: "Instance_Description \<Rightarrow> Instance_Description" where
  "Instance_Description_Clear d =
     (let d0 = d\<lparr>Description_impl_authors := []\<rparr>;
          cached_has_bits = Description_impl_has_bits d0;
          d3 = (if cached_has_bits AND 0x00000007 \<noteq> 0
                then (let d1 = (if cached_has_bits AND 0x00000001 \<noteq> 0
                                then d0\<lparr>Description_impl_name := []\<rparr> else d0);
                          d2 = (if cached_has_bits AND 0x00000002 \<noteq> 0
                                then d1\<lparr>Description_impl_description := []\<rparr> else d1)
                      in (if cached_has_bits AND 0x00000004 \<noteq> 0
                          then d2\<lparr>Description_impl_created_by := []\<rparr> else d2))
                else d0)
      in d3\<lparr>Description_impl_has_bits := 0, Description_internal_metadata := []\<rparr>)"

text \<open>
  Modelled from the spec: the string accessors of Instance.Description are defined in
  instance.pb.h, which is not among the sources. Section 4.3 of the specification: each
  of \<^verbatim>\<open>name\<close>, \<^verbatim>\<open>description\<close>, \<^verbatim>\<open>created_by\<close> is unset, set to empty or set to a value;
  the has-bits \<^verbatim>\<open>0x1\<close>, \<^verbatim>\<open>0x2\<close>, \<^verbatim>\<open>0x4\<close> of instance.pb.cc say which are set. A setter
  marks the field set and stores the value; a getter returns the stored string.
\<close>

definition Instance_Description_has_name :: "Instance_Description \<Rightarrow> bool" where
  "Instance_Description_has_name d = (Description_impl_has_bits d AND 0x00000001 \<noteq> 0)"

definition Instance_Description_has_description :: "Instance_Description \<Rightarrow> bool" where
  "Instance_Description_has_description d = (Description_impl_has_bits d AND 0x00000002 \<noteq> 0)"

definition Instance_Description_has_created_by :: "Instance_Description \<Rightarrow> bool" where
  "Instance_Description_has_created_by d = (Description_impl_has_bits d AND 0x00000004 \<noteq> 0)"

definition Instance_Description_internal_name :: "Instance_Description \<Rightarrow> std_string" where
  "Instance_Description_internal_name d = Description_impl_name d"

definition Instance_Description_internal_description :: "Instance_Description \<Rightarrow> std_string" where
  "Instance_Description_internal_description d = Description_impl_description d"

definition Instance_Description_internal_created_by :: "Instance_Description \<Rightarrow> std_string" where
  "Instance_Description_internal_created_by d = Description_impl_created_by d"

definition Instance_Description_internal_authors :: "Instance_Description \<Rightarrow> std_string list" where
  "Instance_Description_internal_authors d = Description_impl_authors d"

definition Instance_Description_internal_set_name ::
    "std_string \<Rightarrow> Instance_Description \<Rightarrow> Instance_Description" where
  "Instance_Description_internal_set_name v d =
     d\<lparr>Description_impl_has_bits := Description_impl_has_bits d OR 0x00000001,
       Description_impl_name := v\<rparr>"

definition Instance_Description_internal_set_description ::
    "std_string \<Rightarrow> Instance_Description \<Rightarrow> Instance_Description" where
  "Instance_Description_internal_set_description v d =
     d\<lparr>Description_impl_has_bits := Description_impl_has_bits d OR 0x00000002,
       Description_impl_description := v\<rparr>"

definition Instance_Description_internal_set_created_by ::
    "std_string \<Rightarrow> Instance_Description \<Rightarrow> Instance_Description" where
  "Instance_Description_internal_set_created_by v d =
     d\<lparr>Description_impl_has_bits := Description_impl_has_bits d OR 0x00000004,
       Description_impl_created_by := v\<rparr>"

definition Instance_Description_add_authors ::
    "std_string \<Rightarrow> Instance_Description \<Rightarrow> Instance_Description" where
  "Instance_Description_add_authors v d =
     d\<lparr>Description_impl_authors := Description_impl_authors d @ [v]\<rparr>"

text \<open>
  \<^verbatim>\<open>MergeImpl(to_msg, from_msg)\<close> on two distinct messages; the check that they are
  distinct (\<^verbatim>\<open>ABSL_DCHECK_NE(&from, _this)\<close>) is made where the addresses are known, in
  \<open>Instance_Description_MergeFrom_at\<close> below.
\<close>

definition Instance_Description_MergeImpl ::
    "Instance_Description \<Rightarrow> Instance_Description \<Rightarrow> Instance_Description" where
  "Instance_Description_MergeImpl this from =
     (let t0 = this\<lparr>Description_impl_authors :=
                  Description_impl_authors this @ Instance_Description_internal_authors from\<rparr>;
          cached_has_bits = Description_impl_has_bits from;
          t3 = (if cached_has_bits AND 0x00000007 \<noteq> 0
                then (let t1 = (if cached_has_bits AND 0x00000001 \<noteq> 0
                                then Instance_Description_internal_set_name
                                       (Instance_Description_internal_name from) t0
                                else t0);
                          t2 = (if cached_has_bits AND 0x00000002 \<noteq> 0
                                then Instance_Description_internal_set_description
                                       (Instance_Description_internal_description from) t1
                                else t1)
                      in (if cached_has_bits AND 0x00000004 \<noteq> 0
                          then Instance_Description_internal_set_created_by
                                 (Instance_Description_internal_created_by from) t2
                          else t2))
                else t0);
          t4 = t3\<lparr>Description_impl_has_bits := Description_impl_has_bits t3 OR cached_has_bits\<rparr>
      in t4\<lparr>Description_internal_metadata :=
             Description_internal_metadata t4 @ Description_internal_metadata from\<rparr>)"

definition Instance_Description_IsInitialized :: "Instance_Description \<Rightarrow> bool" where
  "Instance_Description_IsInitialized d = True"

text \<open>
  \<^verbatim>\<open>CopyFrom\<close> compares the address of its argument with \<^verbatim>\<open>this\<close>, so the methods that
  take another message are also given on a store of messages, by address.
\<close>

type_synonym addr = nat

definition Instance_Description_Clear_at ::
    "addr \<Rightarrow> (addr \<Rightarrow> Instance_Description) \<Rightarrow> (addr \<Rightarrow> Instance_Description)" where
  "Instance_Description_Clear_at this h = h(this := Instance_Description_Clear (h this))"

definition Instance_Description_MergeFrom_at ::
    "addr \<Rightarrow> addr \<Rightarrow> (addr \<Rightarrow> Instance_Description) \<Rightarrow>
     error + (addr \<Rightarrow> Instance_Description)" where
  "Instance_Description_MergeFrom_at this from h =
     (if from = this then Inl DCheckFailure
      else Inr (h(this := Instance_Description_MergeImpl (h this) (h from))))"

definition Instance_Description_CopyFrom ::
    "addr \<Rightarrow> addr \<Rightarrow> (addr \<Rightarrow> Instance_Description) \<Rightarrow>
     error + (addr \<Rightarrow> Instance_Description)" where
  "Instance_Description_CopyFrom this from h =
     (if from = this then Inr h
      else Instance_Description_MergeFrom_at this from (Instance_Description_Clear_at this h))"

text \<open>
  The state the generated methods keep: a string whose has-bit is clear is empty.
\<close>

definition Instance_Description_consistent :: "Instance_Description \<Rightarrow> bool" where
  "Instance_Description_consistent d =
     ((Instance_Description_has_name d \<or> Description_impl_name d = []) \<and>
      (Instance_Description_has_description d \<or> Description_impl_description d = []) \<and>
      (Instance_Description_has_created_by d \<or> Description_impl_created_by d = []))"

text \<open>Field-for-field equality of two Descriptions, as their accessors show them.\<close>

definition Instance_Description_fields_equal ::
    "Instance_Description \<Rightarrow> Instance_Description \<Rightarrow> bool" where
  "Instance_Description_fields_equal d e =
     (Instance_Description_has_name d = Instance_Description_has_name e \<and>
      Instance_Description_internal_name d = Instance_Description_internal_name e \<and>
      Instance_Description_has_description d = Instance_Description_has_description e \<and>
      Instance_Description_internal_description d = Instance_Description_internal_description e \<and>
      Instance_Description_internal_authors d = Instance_Description_internal_authors e \<and>
      Instance_Description_has_created_by d = Instance_Description_has_created_by e \<and>
      Instance_Description_internal_created_by d = Instance_Description_internal_created_by e \<and>
      Description_internal_metadata d = Description_internal_metadata e)"

section \<open>Instance (instance.pb.cc)\<close>

text \<open>
  \<^verbatim>\<open>DecisionVariable\<close> and \<^verbatim>\<open>Constraint\<close> are declared in headers that are not among the
  sources; they are the type parameters \<open>'dv\<close> and \<open>'c\<close>. \<^verbatim>\<open>sense_\<close> is a C++ \<^verbatim>\<open>int\<close>.
\<close>

record ('dv, 'c) Instance =
  Instance_impl_has_bits :: uint32
  Instance_impl_decision_variables :: "'dv list"
  Instance_impl_constraints :: "'c list"
  Instance_impl_description :: "Instance_Description option"
  Instance_impl_objective :: "Function option"
  Instance_impl_sense :: "32 word"
  Instance_internal_metadata :: UnknownFieldSet

definition Instance_default_instance :: "('dv, 'c) Instance" where
  "Instance_default_instance =
     \<lparr>Instance_impl_has_bits = 0, Instance_impl_decision_variables = [],
      Instance_impl_constraints = [], Instance_impl_description = None,
      Instance_impl_objective = None, Instance_impl_sense = 0,
      Instance_internal_metadata = []\<rparr>"

definition Instance_Sense_IsValid :: "32 word \<Rightarrow> bool" where
  "Instance_Sense_IsValid v = (0 \<le> sint v \<and> sint v \<le> 2)"

definition Instance_internal_sense :: "('dv, 'c) Instance \<Rightarrow> 32 word" where
  "Instance_internal_sense x = Instance_impl_sense x"

definition Instance_clear_decision_variables :: "('dv, 'c) Instance \<Rightarrow> ('dv, 'c) Instance" where
  "Instance_clear_decision_variables x = x\<lparr>Instance_impl_decision_variables := []\<rparr>"

definition Instance_clear_objective ::
    "Function_methods \<Rightarrow> ('dv, 'c) Instance \<Rightarrow> ('dv, 'c) Instance" where
  "Instance_clear_objective fm x =
     (let x1 = x\<lparr>Instance_impl_objective :=
                  map_option (Function_Clear fm) (Instance_impl_objective x)\<rparr>
      in x1\<lparr>Instance_impl_has_bits := Instance_impl_has_bits x1 AND NOT 0x00000002\<rparr>)"

definition Instance_clear_constraints :: "('dv, 'c) Instance \<Rightarrow> ('dv, 'c) Instance" where
  "Instance_clear_constraints x = x\<lparr>Instance_impl_constraints := []\<rparr>"

text \<open>
  \<^verbatim>\<open>Clear\<close> dereferences \<^verbatim>\<open>description_\<close> and \<^verbatim>\<open>objective_\<close> when their has-bit is set
  (\<^verbatim>\<open>ABSL_DCHECK(... != nullptr)\<close>); a null pointer there is an error.
\<close>

definition Instance_Clear ::
    "Function_methods \<Rightarrow> ('dv, 'c) Instance \<Rightarrow> error + ('dv, 'c) Instance" where
  "Instance_Clear fm x =
     (let x0 = x\<lparr>Instance_impl_decision_variables := [], Instance_impl_constraints := []\<rparr>;
          cached_has_bits = Instance_impl_has_bits x0
      in if cached_has_bits AND 0x00000001 \<noteq> 0 \<and> Instance_impl_description x0 = None
         then Inl NullDereference
         else if cached_has_bits AND 0x00000002 \<noteq> 0 \<and> Instance_impl_objective x0 = None
         then Inl NullDereference
         else
           (let x1 = (if cached_has_bits AND 0x00000001 \<noteq> 0
                      then x0\<lparr>Instance_impl_description :=
                               map_option Instance_Description_Clear (Instance_impl_description x0)\<rparr>
                      else x0);
                x2 = (if cached_has_bits AND 0x00000002 \<noteq> 0
                      then x1\<lparr>Instance_impl_objective :=
                               map_option (Function_Clear fm) (Instance_impl_objective x1)\<rparr>
                      else x1)
            in Inr (x2\<lparr>Instance_impl_sense := 0, Instance_impl_has_bits := 0,
                       Instance_internal_metadata := []\<rparr>)))"

text \<open>
  \<^verbatim>\<open>MergeImpl\<close> on two distinct Instances. \<^verbatim>\<open>RepeatedPtrField::MergeFrom\<close> appends copies
  of the elements of the source.
\<close>

definition Instance_MergeImpl ::
    "Function_methods \<Rightarrow> ('dv, 'c) Instance \<Rightarrow> ('dv, 'c) Instance \<Rightarrow> error + ('dv, 'c) Instance" where
  "Instance_MergeImpl fm this from =
     (let t0 = this\<lparr>Instance_impl_decision_variables :=
                  Instance_impl_decision_variables this @ Instance_impl_decision_variables from,
                Instance_impl_constraints :=
                  Instance_impl_constraints this @ Instance_impl_constraints from\<rparr>;
          cached_has_bits = Instance_impl_has_bits from
      in if cached_has_bits AND 0x00000001 \<noteq> 0 \<and> Instance_impl_description from = None
         then Inl NullDereference
         else if cached_has_bits AND 0x00000002 \<noteq> 0 \<and> Instance_impl_objective from = None
         then Inl NullDereference
         else
           (let t1 = (if cached_has_bits AND 0x00000001 \<noteq> 0
                      then (case Instance_impl_description t0 of
                              None \<Rightarrow> t0\<lparr>Instance_impl_description :=
                                  map_option Instance_Description_CopyConstruct
                                    (Instance_impl_description from)\<rparr>
                            | Some d \<Rightarrow> t0\<lparr>Instance_impl_description :=
                                  map_option (Instance_Description_MergeImpl d)
                                    (Instance_impl_description from)\<rparr>)
                      else t0);
                t2 = (if cached_has_bits AND 0x00000002 \<noteq> 0
                      then (case Instance_impl_objective t1 of
                              None \<Rightarrow> t1\<lparr>Instance_impl_objective :=
                                  map_option (Function_CopyConstruct fm)
                                    (Instance_impl_objective from)\<rparr>
                            | Some f \<Rightarrow> t1\<lparr>Instance_impl_objective :=
                                  map_option (Function_MergeFrom fm f)
                                    (Instance_impl_objective from)\<rparr>)
                      else t1);
                t3 = (if Instance_internal_sense from \<noteq> 0
                      then t2\<lparr>Instance_impl_sense := Instance_impl_sense from\<rparr>
                      else t2);
                t4 = t3\<lparr>Instance_impl_has_bits := Instance_impl_has_bits t3 OR cached_has_bits\<rparr>
            in Inr (t4\<lparr>Instance_internal_metadata :=
                         Instance_internal_metadata t4 @ Instance_internal_metadata from\<rparr>)))"

definition Instance_IsInitialized :: "('dv, 'c) Instance \<Rightarrow> bool" where
  "Instance_IsInitialized x = True"

definition Instance_Clear_at ::
    "Function_methods \<Rightarrow> addr \<Rightarrow> (addr \<Rightarrow> ('dv, 'c) Instance) \<Rightarrow>
     error + (addr \<Rightarrow> ('dv, 'c) Instance)" where
  "Instance_Clear_at fm this h =
     (case Instance_Clear fm (h this) of
        Inl e \<Rightarrow> Inl e
      | Inr x \<Rightarrow> Inr (h(this := x)))"

definition Instance_MergeFrom_at ::
    "Function_methods \<Rightarrow> addr \<Rightarrow> addr \<Rightarrow> (addr \<Rightarrow> ('dv, 'c) Instance) \<Rightarrow>
     error + (addr \<Rightarrow> ('dv, 'c) Instance)" where
  "Instance_MergeFrom_at fm this from h =
     (if from = this then Inl DCheckFailure
      else (case Instance_MergeImpl fm (h this) (h from) of
              Inl e \<Rightarrow> Inl e
            | Inr x \<Rightarrow> Inr (h(this := x))))"

definition Instance_CopyFrom ::
    "Function_methods \<Rightarrow> addr \<Rightarrow> addr \<Rightarrow> (addr \<Rightarrow> ('dv, 'c) Instance) \<Rightarrow>
     error + (addr \<Rightarrow> ('dv, 'c) Instance)" where
  "Instance_CopyFrom fm this from h =
     (if from = this then Inr h
      else (case Instance_Clear_at fm this h of
              Inl e \<Rightarrow> Inl e
            | Inr h1 \<Rightarrow> Instance_MergeFrom_at fm this from h1))"

text \<open>
  Modelled from the spec: the accessors of Instance are defined in instance.pb.h, which
  is not among the sources. Section 3 of the specification: an Instance has an optional
  Description and one objective Function; the has-bits \<^verbatim>\<open>0x1\<close> and \<^verbatim>\<open>0x2\<close> of
  instance.pb.cc say whether they are present, and an absent submessage reads as the
  default instance (as \<^verbatim>\<open>Quadratic::_internal_linear\<close> does for its own submessage).
\<close>

definition Instance_has_description :: "('dv, 'c) Instance \<Rightarrow> bool" where
  "Instance_has_description x = (Instance_impl_has_bits x AND 0x00000001 \<noteq> 0)"

definition Instance_description :: "('dv, 'c) Instance \<Rightarrow> Instance_Description" where
  "Instance_description x =
     (case Instance_impl_description x of
        Some p \<Rightarrow> p | None \<Rightarrow> Instance_Description_default_instance)"

definition Instance_has_objective :: "('dv, 'c) Instance \<Rightarrow> bool" where
  "Instance_has_objective x = (Instance_impl_has_bits x AND 0x00000002 \<noteq> 0)"

definition Instance_objective :: "('dv, 'c) Instance \<Rightarrow> Function" where
  "Instance_objective x =
     (case Instance_impl_objective x of
        Some p \<Rightarrow> p | None \<Rightarrow> Function_default_instance)"

text \<open>Field-for-field equality of two Instances, as their accessors show them.\<close>

definition Instance_fields_equal :: "('dv, 'c) Instance \<Rightarrow> ('dv, 'c) Instance \<Rightarrow> bool" where
  "Instance_fields_equal x y =
     (Instance_has_description x = Instance_has_description y \<and>
      Instance_Description_fields_equal (Instance_description x) (Instance_description y) \<and>
      Instance_impl_decision_variables x = Instance_impl_decision_variables y \<and>
      Instance_has_objective x = Instance_has_objective y \<and>
      Function_fields_equal (Instance_objective x) (Instance_objective y) \<and>
      Instance_impl_constraints x = Instance_impl_constraints y \<and>
      Instance_internal_sense x = Instance_internal_sense y \<and>
      Instance_internal_metadata x = Instance_internal_metadata y)"

text \<open>
  The state the generated methods keep: a submessage whose has-bit is set is held (the
  \<^verbatim>\<open>ABSL_DCHECK\<close>s of \<^verbatim>\<open>Clear\<close> and \<^verbatim>\<open>MergeImpl\<close>); one whose has-bit is clear is null or
  cleared; a held Description is consistent.
\<close>

definition Instance_consistent :: "('dv, 'c) Instance \<Rightarrow> bool" where
  "Instance_consistent x =
     ((if Instance_has_description x
       then (case Instance_impl_description x of
               None \<Rightarrow> False | Some d \<Rightarrow> Instance_Description_consistent d)
       else (case Instance_impl_description x of
               None \<Rightarrow> True | Some d \<Rightarrow> d = Instance_Description_default_instance)) \<and>
      (if Instance_has_objective x
       then Instance_impl_objective x \<noteq> None
       else (case Instance_impl_objective x of
               None \<Rightarrow> True | Some f \<Rightarrow> Function_fields_equal f Function_default_instance)))"

section \<open>Wire format\<close>

text \<open>
  Modelled from the spec: the encoding and decoding primitives belong to the protobuf
  runtime (\<^verbatim>\<open>io::EpsCopyOutputStream\<close>, \<^verbatim>\<open>WireFormatLite\<close>, \<^verbatim>\<open>TcParser\<close>), which is not
  among the sources. Section 6 of the specification: a tag/value encoding, field number
  and wire type per field, varint-encoded integers, fixed 64-bit doubles, length-prefixed
  strings and submessages. A varint carries seven bits per byte, least significant group
  first, with the top bit set on every byte but the last; a decoder reads at most ten
  bytes.
\<close>

definition byte_of_nat :: "nat \<Rightarrow> byte" where
  "byte_of_nat n = of_nat n"

function varint :: "nat \<Rightarrow> byte list" where
  "varint n =
     (if n < 128 then [byte_of_nat n] else byte_of_nat (n mod 128 + 128) # varint (n div 128))"
  by pat_completeness auto

termination
  by (relation "measure (\<lambda>n. n)") auto

declare varint.simps [simp del]

fun VarintSize :: "nat \<Rightarrow> nat" where
  "VarintSize n = (if n < 128 then 1 else 1 + VarintSize (n div 128))"

declare VarintSize.simps [simp del]

fun read_varint_within :: "nat \<Rightarrow> byte list \<Rightarrow> (nat \<times> byte list) option" where
  "read_varint_within 0 bs = None"
| "read_varint_within (Suc k) [] = None"
| "read_varint_within (Suc k) (b # bs) =
     (if b < 128 then Some (unat b, bs)
      else (case read_varint_within k bs of
              None \<Rightarrow> None
            | Some (v, r) \<Rightarrow> Some (unat b - 128 + 128 * v, r)))"

definition read_varint :: "byte list \<Rightarrow> (nat \<times> byte list) option" where
  "read_varint bs = read_varint_within 10 bs"


lemma varint_not_Nil: "varint n \<noteq> []"
  by (subst varint.simps) simp

lemma VarintSize_le: "n < 128 ^ k \<Longrightarrow> 0 < k \<Longrightarrow> VarintSize n \<le> k"
proof (induction k arbitrary: n)
  case 0
  then show ?case by simp
next
  case (Suc k)
  show ?case
  proof (cases "n < 128")
    case True
    then show ?thesis by (simp add: VarintSize.simps [of n])
  next
    case False
    then have k: "0 < k" using Suc.prems(1) by (cases k) auto
    have "n div 128 < 128 ^ k"
      using Suc.prems(1) by (simp add: less_mult_imp_div_less mult.commute)
    then have "VarintSize (n div 128) \<le> k" using k by (rule Suc.IH)
    then show ?thesis using False by (simp add: VarintSize.simps [of n])
  qed
qed

lemma unat_byte_of_nat: "n < 256 \<Longrightarrow> unat (byte_of_nat n) = n"
  by (simp add: byte_of_nat_def unsigned_of_nat take_bit_nat_eq_self)

lemma byte_low: "n < 128 \<Longrightarrow> byte_of_nat n < 128 \<and> unat (byte_of_nat n) = n"
  by (simp add: word_less_nat_alt unat_byte_of_nat)

lemma byte_high:
  "\<not> byte_of_nat (n mod 128 + 128) < 128 \<and>
   unat (byte_of_nat (n mod 128 + 128)) = n mod 128 + 128"
proof -
  have "n mod 128 + 128 < 256" by simp
  then have "unat (byte_of_nat (n mod 128 + 128)) = n mod 128 + 128"
    by (rule unat_byte_of_nat)
  then show ?thesis by (simp add: word_less_nat_alt)
qed

lemma read_varint_within_varint:
  "VarintSize n \<le> k \<Longrightarrow> read_varint_within k (varint n @ rest) = Some (n, rest)"
proof (induction k arbitrary: n)
  case 0
  then show ?case by (simp add: VarintSize.simps [of n] split: if_splits)
next
  case (Suc k)
  show ?case
  proof (cases "n < 128")
    case True
    then show ?thesis by (simp add: varint.simps [of n] byte_low)
  next
    case False
    then have "VarintSize (n div 128) \<le> k"
      using Suc.prems by (simp add: VarintSize.simps [of n])
    then have "read_varint_within k (varint (n div 128) @ rest) = Some (n div 128, rest)"
      by (rule Suc.IH)
    then show ?thesis using False by (simp add: varint.simps [of n] byte_high)
  qed
qed

lemma read_varint_varint:
  "n < 2 ^ 64 \<Longrightarrow> read_varint (varint n @ rest) = Some (n, rest)"
proof -
  assume "n < 2 ^ 64"
  then have "n < 128 ^ 10" by simp
  then have "VarintSize n \<le> 10" by (rule VarintSize_le) simp
  then show ?thesis unfolding read_varint_def by (rule read_varint_within_varint)
qed

lemma read_varint_within_append:
  "read_varint_within k bs = Some (v, r) \<Longrightarrow> read_varint_within k (bs @ x) = Some (v, r @ x)"
  by (induction k bs arbitrary: v r rule: read_varint_within.induct)
    (auto split: if_splits option.splits)

lemma read_varint_within_suffix:
  "read_varint_within k bs = Some (v, r) \<Longrightarrow> \<exists>c. bs = c @ r \<and> c \<noteq> []"
proof (induction k bs arbitrary: v r rule: read_varint_within.induct)
  case (3 k b bs)
  show ?case
  proof (cases "b < 128")
    case True
    then have "r = bs" using "3.prems" by simp
    then have "b # bs = [b] @ r \<and> [b] \<noteq> []" by simp
    then show ?thesis by blast
  next
    case False
    then obtain v' where "read_varint_within k bs = Some (v', r)"
      using "3.prems" by (auto split: option.splits)
    then obtain c where "bs = c @ r" using "3.IH" False by blast
    then have "b # bs = (b # c) @ r \<and> b # c \<noteq> []" by simp
    then show ?thesis by blast
  qed
qed simp_all

text \<open>
  Modelled from the spec: one field on the wire is a tag, \<open>field_number * 8 + wire_type\<close>,
  and a payload chosen by the wire type: 0 a varint, 1 eight bytes, 2 a length and that
  many bytes, 5 four bytes. A field number of 0, a tag beyond 32 bits, a length of
  \<open>2^31\<close> or more (sizes are C++ \<^verbatim>\<open>int\<close>), a truncated payload and any other wire type
  (the group markers 3 and 4 are not part of the format the specification describes) are
  decode errors. \<open>wf_raw\<close> keeps the bytes the field was read from.
\<close>

datatype wire_payload =
    Varint nat
  | Fixed64 "byte list"
  | LengthDelimited "byte list"
  | Fixed32 "byte list"

datatype wire_field = Wire_field (wf_number: nat) (wf_payload: wire_payload) (wf_raw: "byte list")

definition MakeTag :: "nat \<Rightarrow> nat \<Rightarrow> nat" where
  "MakeTag field_number wire_type = field_number * 8 + wire_type"

definition read_payload :: "nat \<Rightarrow> byte list \<Rightarrow> (wire_payload \<times> byte list) option" where
  "read_payload wire_type bs =
     (if wire_type = 0 then
        (case read_varint bs of
           None \<Rightarrow> None
         | Some (v, r) \<Rightarrow> Some (Varint v, r))
      else if wire_type = 1 then
        (if 8 \<le> length bs then Some (Fixed64 (take 8 bs), drop 8 bs) else None)
      else if wire_type = 2 then
        (case read_varint bs of
           None \<Rightarrow> None
         | Some (n, r) \<Rightarrow>
             if n < 2 ^ 31 \<and> n \<le> length r
             then Some (LengthDelimited (take n r), drop n r) else None)
      else if wire_type = 5 then
        (if 4 \<le> length bs then Some (Fixed32 (take 4 bs), drop 4 bs) else None)
      else None)"

definition read_field :: "byte list \<Rightarrow> error + (wire_field \<times> byte list)" where
  "read_field bs =
     (case read_varint bs of
        None \<Rightarrow> Inl DecodeError
      | Some (tag, r) \<Rightarrow>
          if 2 ^ 32 \<le> tag \<or> tag div 8 = 0 then Inl DecodeError
          else (case read_payload (tag mod 8) r of
                  None \<Rightarrow> Inl DecodeError
                | Some (p, rest) \<Rightarrow>
                    Inr (Wire_field (tag div 8) p (take (length bs - length rest) bs), rest)))"

lemma read_varint_suffix:
  "read_varint bs = Some (v, r) \<Longrightarrow> \<exists>c. bs = c @ r \<and> c \<noteq> []"
  unfolding read_varint_def by (rule read_varint_within_suffix)

lemma read_varint_append:
  "read_varint bs = Some (v, r) \<Longrightarrow> read_varint (bs @ x) = Some (v, r @ x)"
  unfolding read_varint_def by (rule read_varint_within_append)

lemma read_payload_suffix:
  "read_payload wt bs = Some (p, rest) \<Longrightarrow> \<exists>c. bs = c @ rest"
proof -
  assume a: "read_payload wt bs = Some (p, rest)"
  consider "wt = 0" | "wt = 1" | "wt = 2" | "wt = 5" | "wt \<notin> {0, 1, 2, 5}" by auto
  then show ?thesis
  proof cases
    case 1
    then obtain v where "read_varint bs = Some (v, rest)"
      using a by (auto simp add: read_payload_def split: option.splits)
    then show ?thesis using read_varint_suffix by blast
  next
    case 2
    then have "rest = drop 8 bs" using a by (auto simp add: read_payload_def split: if_splits)
    then have "bs = take 8 bs @ rest" by simp
    then show ?thesis by blast
  next
    case 3
    then obtain n r where r: "read_varint bs = Some (n, r)" and "rest = drop n r"
      using a by (auto simp add: read_payload_def split: option.splits if_splits)
    moreover obtain c where "bs = c @ r" using read_varint_suffix [OF r] by blast
    ultimately have "bs = (c @ take n r) @ rest" by simp
    then show ?thesis by blast
  next
    case 4
    then have "rest = drop 4 bs" using a by (auto simp add: read_payload_def split: if_splits)
    then have "bs = take 4 bs @ rest" by simp
    then show ?thesis by blast
  next
    case 5
    then show ?thesis using a by (simp add: read_payload_def)
  qed
qed

lemma read_payload_append:
  "read_payload wt bs = Some (p, rest) \<Longrightarrow> read_payload wt (bs @ x) = Some (p, rest @ x)"
proof -
  assume a: "read_payload wt bs = Some (p, rest)"
  consider "wt = 0" | "wt = 1" | "wt = 2" | "wt = 5" | "wt \<notin> {0, 1, 2, 5}" by auto
  then show ?thesis
  proof cases
    case 1
    then obtain v where v: "read_varint bs = Some (v, rest)" and "p = Varint v"
      using a by (auto simp add: read_payload_def split: option.splits)
    then show ?thesis using 1 read_varint_append [OF v, of x] by (simp add: read_payload_def)
  next
    case 2
    then show ?thesis using a by (auto simp add: read_payload_def split: if_splits)
  next
    case 3
    then obtain n r where r: "read_varint bs = Some (n, r)"
      and n: "n < 2 ^ 31" "n \<le> length r"
      and e: "p = LengthDelimited (take n r)" "rest = drop n r"
      using a by (auto simp add: read_payload_def split: option.splits if_splits)
    show ?thesis using 3 read_varint_append [OF r, of x] n e by (simp add: read_payload_def)
  next
    case 4
    then show ?thesis using a by (auto simp add: read_payload_def split: if_splits)
  next
    case 5
    then show ?thesis using a by (simp add: read_payload_def)
  qed
qed

lemma read_field_suffix:
  assumes "read_field bs = Inr (f, rest)"
  shows "bs = wf_raw f @ rest \<and> wf_raw f \<noteq> []"
proof -
  from assms obtain tag r p where t: "read_varint bs = Some (tag, r)"
    and p: "read_payload (tag mod 8) r = Some (p, rest)"
    and f: "f = Wire_field (tag div 8) p (take (length bs - length rest) bs)"
    by (auto simp add: read_field_def split: option.splits if_splits)
  obtain c where c: "bs = c @ r" "c \<noteq> []" using read_varint_suffix [OF t] by blast
  obtain c' where c': "r = c' @ rest" using read_payload_suffix [OF p] by blast
  have "bs = (c @ c') @ rest" using c c' by simp
  then have "take (length bs - length rest) bs = c @ c'" by simp
  then show ?thesis using f c c' by simp
qed

lemma read_field_shorter:
  "read_field bs = Inr (f, rest) \<Longrightarrow> length rest < length bs"
proof -
  assume "read_field bs = Inr (f, rest)"
  then have "bs = wf_raw f @ rest" "wf_raw f \<noteq> []"
    using read_field_suffix by blast+
  then have "length bs = length (wf_raw f) + length rest \<and> 0 < length (wf_raw f)"
    by (metis length_append length_greater_0_conv)
  then show ?thesis by simp
qed

lemma read_field_append:
  assumes "read_field bs = Inr (f, rest)"
  shows "read_field (bs @ x) = Inr (f, rest @ x)"
proof -
  from assms obtain tag r p where t: "read_varint bs = Some (tag, r)"
    and ok: "\<not> (2 ^ 32 \<le> tag \<or> tag div 8 = 0)"
    and p: "read_payload (tag mod 8) r = Some (p, rest)"
    and f: "f = Wire_field (tag div 8) p (take (length bs - length rest) bs)"
    by (auto simp add: read_field_def split: option.splits if_splits)
  have s: "bs = wf_raw f @ rest" using read_field_suffix [OF assms] by simp
  have l: "length bs = length (wf_raw f) + length rest"
    using s by (metis length_append)
  have "take (length (bs @ x) - length (rest @ x)) (bs @ x) = take (length bs - length rest) bs"
    by (simp add: l)
  then show ?thesis
    using read_varint_append [OF t, of x] read_payload_append [OF p, of x] ok f
    by (simp add: read_field_def)
qed

text \<open>
  Modelled from the spec: \<^verbatim>\<open>TcParser::ParseLoop(msg, ptr, ctx, table)\<close>, to which every
  \<^verbatim>\<open>_InternalParse\<close> of the sources delegates. It reads fields until the input is
  exhausted and hands each to the parse table of the message; the first error ends the
  parse (Section 7: malformed bytes fail with a decode error).
\<close>

function ParseLoop ::
    "('m \<Rightarrow> wire_field \<Rightarrow> error + 'm) \<Rightarrow> 'm \<Rightarrow> byte list \<Rightarrow> error + 'm" where
  "ParseLoop table msg ptr =
     (if ptr = [] then Inr msg
      else (case read_field ptr of
              Inl e \<Rightarrow> Inl e
            | Inr (f, rest) \<Rightarrow>
                (case table msg f of
                   Inl e \<Rightarrow> Inl e
                 | Inr msg' \<Rightarrow> ParseLoop table msg' rest)))"
  by pat_completeness auto

termination
  by (relation "measure (\<lambda>(table, msg, ptr). length ptr)") (auto simp add: read_field_shorter)

declare ParseLoop.simps [simp del]

text \<open>
  Modelled from the spec: Section 7 asks that invalid UTF-8 in a string field fails with
  a decode error. \<open>IsStructurallyValid\<close> accepts the well-formed UTF-8 byte sequences.
  \<^verbatim>\<open>WireFormatLite::VerifyUtf8String\<close> in \<^verbatim>\<open>SERIALIZE\<close> mode returns whether the string
  is valid; the generated serializer ignores the result.
\<close>

fun IsStructurallyValid :: "byte list \<Rightarrow> bool" where
  "IsStructurallyValid [] = True"
| "IsStructurallyValid (b0 # bs) =
     (if b0 < 0x80 then IsStructurallyValid bs
      else if 0xC2 \<le> b0 \<and> b0 \<le> 0xDF then
        (case bs of
           b1 # r \<Rightarrow> 0x80 \<le> b1 \<and> b1 \<le> 0xBF \<and> IsStructurallyValid r
         | _ \<Rightarrow> False)
      else if 0xE0 \<le> b0 \<and> b0 \<le> 0xEF then
        (case bs of
           b1 # b2 # r \<Rightarrow>
             (if b0 = 0xE0 then 0xA0 \<le> b1 \<and> b1 \<le> 0xBF
              else if b0 = 0xED then 0x80 \<le> b1 \<and> b1 \<le> 0x9F
              else 0x80 \<le> b1 \<and> b1 \<le> 0xBF) \<and>
             0x80 \<le> b2 \<and> b2 \<le> 0xBF \<and> IsStructurallyValid r
         | _ \<Rightarrow> False)
      else if 0xF0 \<le> b0 \<and> b0 \<le> 0xF4 then
        (case bs of
           b1 # b2 # b3 # r \<Rightarrow>
             (if b0 = 0xF0 then 0x90 \<le> b1 \<and> b1 \<le> 0xBF
              else if b0 = 0xF4 then 0x80 \<le> b1 \<and> b1 \<le> 0x8F
              else 0x80 \<le> b1 \<and> b1 \<le> 0xBF) \<and>
             0x80 \<le> b2 \<and> b2 \<le> 0xBF \<and> 0x80 \<le> b3 \<and> b3 \<le> 0xBF \<and>
             IsStructurallyValid r
         | _ \<Rightarrow> False)
      else False)"

definition VerifyUtf8String :: "std_string \<Rightarrow> bool" where
  "VerifyUtf8String s = IsStructurallyValid s"

text \<open>
  Modelled from the spec: a string field is its tag (wire type 2), the length as a
  varint and the bytes; \<^verbatim>\<open>StringSize\<close> is the size of length and bytes. The unknown
  fields are written back as the bytes they were read from (Section 7: preserved
  opaquely and re-emitted).
\<close>

definition WriteString :: "nat \<Rightarrow> std_string \<Rightarrow> byte list" where
  "WriteString field_number s = varint (MakeTag field_number 2) @ varint (length s) @ s"

definition WriteStringMaybeAliased :: "nat \<Rightarrow> std_string \<Rightarrow> byte list" where
  "WriteStringMaybeAliased field_number s = WriteString field_number s"

definition StringSize :: "std_string \<Rightarrow> nat" where
  "StringSize s = VarintSize (length s) + length s"

definition InternalSerializeUnknownFieldsToArray :: "UnknownFieldSet \<Rightarrow> byte list" where
  "InternalSerializeUnknownFieldsToArray u = concat u"

definition ComputeUnknownFieldsSize :: "UnknownFieldSet \<Rightarrow> nat" where
  "ComputeUnknownFieldsSize u = sum_list (map length u)"

definition have_unknown_fields :: "UnknownFieldSet \<Rightarrow> bool" where
  "have_unknown_fields u = (u \<noteq> [])"

definition MaybeComputeUnknownFieldsSize :: "nat \<Rightarrow> UnknownFieldSet \<Rightarrow> nat" where
  "MaybeComputeUnknownFieldsSize total_size u =
     (if have_unknown_fields u then total_size + ComputeUnknownFieldsSize u else total_size)"

text \<open>\<^verbatim>\<open>Instance_Description::_InternalSerialize\<close> and \<^verbatim>\<open>ByteSizeLong\<close> (instance.pb.cc).\<close>

definition Instance_Description_InternalSerialize :: "Instance_Description \<Rightarrow> byte list" where
  "Instance_Description_InternalSerialize d =
     (let cached_has_bits = Description_impl_has_bits d;
          target1 = (if cached_has_bits AND 0x00000001 \<noteq> 0
                     then (let s = Instance_Description_internal_name d;
                               verified = VerifyUtf8String s
                           in WriteStringMaybeAliased 1 s)
                     else []);
          target2 = (if cached_has_bits AND 0x00000002 \<noteq> 0
                     then (let s = Instance_Description_internal_description d;
                               verified = VerifyUtf8String s
                           in WriteStringMaybeAliased 2 s)
                     else []);
          target3 = concat (map (\<lambda>s. let verified = VerifyUtf8String s in WriteString 3 s)
                              (Instance_Description_internal_authors d));
          target4 = (if cached_has_bits AND 0x00000004 \<noteq> 0
                     then (let s = Instance_Description_internal_created_by d;
                               verified = VerifyUtf8String s
                           in WriteStringMaybeAliased 4 s)
                     else []);
          target5 = (if have_unknown_fields (Description_internal_metadata d)
                     then InternalSerializeUnknownFieldsToArray (Description_internal_metadata d)
                     else [])
      in target1 @ target2 @ target3 @ target4 @ target5)"

definition Instance_Description_ByteSizeLong :: "Instance_Description \<Rightarrow> nat" where
  "Instance_Description_ByteSizeLong d =
     (let total0 = 1 * length (Instance_Description_internal_authors d)
                   + sum_list (map StringSize (Instance_Description_internal_authors d));
          cached_has_bits = Description_impl_has_bits d;
          total3 = (if cached_has_bits AND 0x00000007 \<noteq> 0
                    then (let total1 = (if cached_has_bits AND 0x00000001 \<noteq> 0
                                        then total0 + (1 + StringSize (Instance_Description_internal_name d))
                                        else total0);
                              total2 = (if cached_has_bits AND 0x00000002 \<noteq> 0
                                        then total1 + (1 + StringSize (Instance_Description_internal_description d))
                                        else total1)
                          in (if cached_has_bits AND 0x00000004 \<noteq> 0
                              then total2 + (1 + StringSize (Instance_Description_internal_created_by d))
                              else total2))
                    else total0)
      in MaybeComputeUnknownFieldsSize total3 (Description_internal_metadata d))"

text \<open>
  \<^verbatim>\<open>Instance_Description::_table_\<close>: fields 1, 2 and 4 are optional UTF-8 strings with the
  has-bits 0, 1 and 2, field 3 is a repeated UTF-8 string (\<^verbatim>\<open>kUtf8String\<close>: the parse
  fails on invalid UTF-8). Modelled from the spec: a field the table does not list, or
  one with another wire type, goes to the unknown fields.
\<close>

definition unknown_field :: "UnknownFieldSet \<Rightarrow> wire_field \<Rightarrow> UnknownFieldSet" where
  "unknown_field u f = u @ [wf_raw f]"

definition Instance_Description_table ::
    "Instance_Description \<Rightarrow> wire_field \<Rightarrow> error + Instance_Description" where
  "Instance_Description_table d f =
     (case wf_payload f of
        LengthDelimited s \<Rightarrow>
          if wf_number f = 1 then
            (if IsStructurallyValid s then Inr (Instance_Description_internal_set_name s d)
             else Inl DecodeError)
          else if wf_number f = 2 then
            (if IsStructurallyValid s then Inr (Instance_Description_internal_set_description s d)
             else Inl DecodeError)
          else if wf_number f = 3 then
            (if IsStructurallyValid s then Inr (Instance_Description_add_authors s d)
             else Inl DecodeError)
          else if wf_number f = 4 then
            (if IsStructurallyValid s then Inr (Instance_Description_internal_set_created_by s d)
             else Inl DecodeError)
          else Inr (d\<lparr>Description_internal_metadata :=
                       unknown_field (Description_internal_metadata d) f\<rparr>)
      | _ \<Rightarrow> Inr (d\<lparr>Description_internal_metadata :=
                     unknown_field (Description_internal_metadata d) f\<rparr>))"

definition Instance_Description_InternalParse ::
    "Instance_Description \<Rightarrow> byte list \<Rightarrow> error + Instance_Description" where
  "Instance_Description_InternalParse this ptr = ParseLoop Instance_Description_table this ptr"

text \<open>Decoding: parsing into a default-constructed message.\<close>

definition Instance_Description_ParseFromString ::
    "byte list \<Rightarrow> error + Instance_Description" where
  "Instance_Description_ParseFromString data =
     Instance_Description_InternalParse Instance_Description_default_instance data"

definition Instance_Description_recognised :: "wire_field \<Rightarrow> bool" where
  "Instance_Description_recognised f =
     (case wf_payload f of
        LengthDelimited s \<Rightarrow> wf_number f = 1 \<or> wf_number f = 2 \<or> wf_number f = 3 \<or> wf_number f = 4
      | _ \<Rightarrow> False)"

definition unknown_chunk :: "(wire_field \<Rightarrow> bool) \<Rightarrow> byte list \<Rightarrow> bool" where
  "unknown_chunk recognised c =
     (case read_field c of
        Inl e \<Rightarrow> False
      | Inr (f, rest) \<Rightarrow> rest = [] \<and> \<not> recognised f)"

definition Instance_Description_wire_ok :: "Instance_Description \<Rightarrow> bool" where
  "Instance_Description_wire_ok d =
     (Instance_Description_consistent d \<and>
      IsStructurallyValid (Description_impl_name d) \<and>
      length (Description_impl_name d) < 2 ^ 31 \<and>
      IsStructurallyValid (Description_impl_description d) \<and>
      length (Description_impl_description d) < 2 ^ 31 \<and>
      IsStructurallyValid (Description_impl_created_by d) \<and>
      length (Description_impl_created_by d) < 2 ^ 31 \<and>
      list_all (\<lambda>s. IsStructurallyValid s \<and> length s < 2 ^ 31) (Description_impl_authors d) \<and>
      list_all (unknown_chunk Instance_Description_recognised) (Description_internal_metadata d))"

definition wire_fields :: "byte list \<Rightarrow> error + wire_field list" where
  "wire_fields bs = ParseLoop (\<lambda>acc f. Inr (acc @ [f])) [] bs"

text \<open>
  The serializer and the parser of \<^verbatim>\<open>DecisionVariable\<close>, \<^verbatim>\<open>Constraint\<close> and
  \<^verbatim>\<open>Function\<close> are not among the sources; the Instance methods take them as a
  parameter. \<^verbatim>\<open>GetCachedSize\<close> returns what \<^verbatim>\<open>ByteSizeLong\<close> computed.
\<close>

record 'a message_methods =
  mm_default :: 'a
  mm_ByteSizeLong :: "'a \<Rightarrow> nat"
  mm_InternalSerialize :: "'a \<Rightarrow> byte list"
  mm_InternalParse :: "'a \<Rightarrow> byte list \<Rightarrow> error + 'a"

record ('dv, 'c) Instance_submessages =
  sub_DecisionVariable :: "'dv message_methods"
  sub_Constraint :: "'c message_methods"
  sub_Function :: "Function message_methods"

text \<open>
  Modelled from the spec: a submessage is its tag (wire type 2), its size as a varint
  and its bytes; an enum is its tag (wire type 0) and the \<^verbatim>\<open>int\<close> value, sign-extended
  to 64 bits, as a varint.
\<close>

definition InternalWriteMessage :: "nat \<Rightarrow> nat \<Rightarrow> byte list \<Rightarrow> byte list" where
  "InternalWriteMessage field_number cached_size payload =
     varint (MakeTag field_number 2) @ varint cached_size @ payload"

definition WriteEnumToArray :: "nat \<Rightarrow> 32 word \<Rightarrow> byte list" where
  "WriteEnumToArray field_number v =
     varint (MakeTag field_number 0) @ varint (unat (scast v :: 64 word))"

text \<open>\<^verbatim>\<open>Instance::_InternalSerialize\<close> (instance.pb.cc).\<close>

definition Instance_InternalSerialize ::
    "('dv, 'c) Instance_submessages \<Rightarrow> ('dv, 'c) Instance \<Rightarrow> error + byte list" where
  "Instance_InternalSerialize sm x =
     (let cached_has_bits = Instance_impl_has_bits x in
      if cached_has_bits AND 0x00000001 \<noteq> 0 \<and> Instance_impl_description x = None
      then Inl NullDereference
      else if cached_has_bits AND 0x00000002 \<noteq> 0 \<and> Instance_impl_objective x = None
      then Inl NullDereference
      else
        (let target1 = (if cached_has_bits AND 0x00000001 \<noteq> 0
                        then (case Instance_impl_description x of
                                None \<Rightarrow> []
                              | Some d \<Rightarrow> InternalWriteMessage 1
                                  (Instance_Description_ByteSizeLong d)
                                  (Instance_Description_InternalSerialize d))
                        else []);
             target2 = concat (map (\<lambda>repfield. InternalWriteMessage 2
                                  (mm_ByteSizeLong (sub_DecisionVariable sm) repfield)
                                  (mm_InternalSerialize (sub_DecisionVariable sm) repfield))
                               (Instance_impl_decision_variables x));
             target3 = (if cached_has_bits AND 0x00000002 \<noteq> 0
                        then (case Instance_impl_objective x of
                                None \<Rightarrow> []
                              | Some g \<Rightarrow> InternalWriteMessage 3
                                  (mm_ByteSizeLong (sub_Function sm) g)
                                  (mm_InternalSerialize (sub_Function sm) g))
                        else []);
             target4 = concat (map (\<lambda>repfield. InternalWriteMessage 4
                                  (mm_ByteSizeLong (sub_Constraint sm) repfield)
                                  (mm_InternalSerialize (sub_Constraint sm) repfield))
                               (Instance_impl_constraints x));
             target5 = (if Instance_internal_sense x \<noteq> 0
                        then WriteEnumToArray 5 (Instance_internal_sense x)
                        else []);
             target6 = (if have_unknown_fields (Instance_internal_metadata x)
                        then InternalSerializeUnknownFieldsToArray (Instance_internal_metadata x)
                        else [])
         in Inr (target1 @ target2 @ target3 @ target4 @ target5 @ target6)))"

text \<open>
  \<^verbatim>\<open>Instance::_table_\<close>: fields 1 and 3 are singular messages with the has-bits 0 and 1,
  parsed into the submessage held (a new one when the pointer is null); fields 2 and 4
  are repeated messages; field 5 is an open enum (\<^verbatim>\<open>kOpenEnum\<close>,
  \<^verbatim>\<open>SingularVarintNoZag1<uint32_t, ...>\<close>): the varint is stored, truncated to 32 bits,
  with no validity check.
\<close>

definition Instance_table ::
    "('dv, 'c) Instance_submessages \<Rightarrow> ('dv, 'c) Instance \<Rightarrow> wire_field \<Rightarrow>
     error + ('dv, 'c) Instance" where
  "Instance_table sm x f =
     (case wf_payload f of
        LengthDelimited p \<Rightarrow>
          if wf_number f = 1 then
            (case Instance_Description_InternalParse (Instance_description x) p of
               Inl e \<Rightarrow> Inl e
             | Inr d \<Rightarrow> Inr (x\<lparr>Instance_impl_has_bits := Instance_impl_has_bits x OR 0x00000001,
                               Instance_impl_description := Some d\<rparr>))
          else if wf_number f = 2 then
            (case mm_InternalParse (sub_DecisionVariable sm)
                    (mm_default (sub_DecisionVariable sm)) p of
               Inl e \<Rightarrow> Inl e
             | Inr v \<Rightarrow> Inr (x\<lparr>Instance_impl_decision_variables :=
                                 Instance_impl_decision_variables x @ [v]\<rparr>))
          else if wf_number f = 3 then
            (case mm_InternalParse (sub_Function sm) (Instance_objective x) p of
               Inl e \<Rightarrow> Inl e
             | Inr g \<Rightarrow> Inr (x\<lparr>Instance_impl_has_bits := Instance_impl_has_bits x OR 0x00000002,
                               Instance_impl_objective := Some g\<rparr>))
          else if wf_number f = 4 then
            (case mm_InternalParse (sub_Constraint sm) (mm_default (sub_Constraint sm)) p of
               Inl e \<Rightarrow> Inl e
             | Inr v \<Rightarrow> Inr (x\<lparr>Instance_impl_constraints := Instance_impl_constraints x @ [v]\<rparr>))
          else Inr (x\<lparr>Instance_internal_metadata :=
                       unknown_field (Instance_internal_metadata x) f\<rparr>)
      | Varint v \<Rightarrow>
          if wf_number f = 5 then Inr (x\<lparr>Instance_impl_sense := of_nat v\<rparr>)
          else Inr (x\<lparr>Instance_internal_metadata :=
                       unknown_field (Instance_internal_metadata x) f\<rparr>)
      | _ \<Rightarrow> Inr (x\<lparr>Instance_internal_metadata :=
                     unknown_field (Instance_internal_metadata x) f\<rparr>))"

definition Instance_InternalParse ::
    "('dv, 'c) Instance_submessages \<Rightarrow> ('dv, 'c) Instance \<Rightarrow> byte list \<Rightarrow>
     error + ('dv, 'c) Instance" where
  "Instance_InternalParse sm this ptr = ParseLoop (Instance_table sm) this ptr"

definition Instance_ParseFromString ::
    "('dv, 'c) Instance_submessages \<Rightarrow> byte list \<Rightarrow> error + ('dv, 'c) Instance" where
  "Instance_ParseFromString sm data = Instance_InternalParse sm Instance_default_instance data"

definition Instance_recognised :: "wire_field \<Rightarrow> bool" where
  "Instance_recognised f =
     (case wf_payload f of
        LengthDelimited p \<Rightarrow> wf_number f = 1 \<or> wf_number f = 2 \<or> wf_number f = 3 \<or> wf_number f = 4
      | Varint v \<Rightarrow> wf_number f = 5
      | _ \<Rightarrow> False)"




definition Instance_held :: "('dv, 'c) Instance \<Rightarrow> bool" where
  "Instance_held x =
     ((if Instance_has_description x then Instance_impl_description x \<noteq> None else True) \<and>
      (if Instance_has_objective x then Instance_impl_objective x \<noteq> None else True))"

section \<open>Wire format of Quadratic and Function\<close>

text \<open>
  Modelled from the spec: a fixed 64-bit value (Section 6: fixed 64-bit doubles) is its
  eight bytes, least significant first. \<open>fixed_bytes k n\<close> are the \<open>k\<close> low bytes of
  \<open>n\<close>, \<open>fixed_value\<close> reads them back.
\<close>

fun fixed_bytes :: "nat \<Rightarrow> nat \<Rightarrow> byte list" where
  "fixed_bytes 0 n = []"
| "fixed_bytes (Suc k) n = byte_of_nat (n mod 256) # fixed_bytes k (n div 256)"

fun fixed_value :: "byte list \<Rightarrow> nat" where
  "fixed_value [] = 0"
| "fixed_value (b # bs) = unat b + 256 * fixed_value bs"

definition WriteFixed64 :: "double \<Rightarrow> byte list" where
  "WriteFixed64 v = fixed_bytes 8 (unat v)"

definition ReadFixed64 :: "byte list \<Rightarrow> double" where
  "ReadFixed64 bs = of_nat (fixed_value bs)"

definition WriteDoubleToArray :: "nat \<Rightarrow> double \<Rightarrow> byte list" where
  "WriteDoubleToArray field_number v = varint (MakeTag field_number 1) @ WriteFixed64 v"

text \<open>
  Modelled from the spec: a packed repeated scalar (Section 6: length-prefixed
  repeated-scalar-packed arrays) is one length-delimited field whose payload is the
  elements one after the other, varints for \<^verbatim>\<open>uint64\<close> and eight bytes each for
  \<^verbatim>\<open>double\<close>.
\<close>

definition packed_uint64 :: "uint64 list \<Rightarrow> byte list" where
  "packed_uint64 xs = concat (map (\<lambda>x. varint (unat x)) xs)"

definition packed_double :: "double list \<Rightarrow> byte list" where
  "packed_double vs = concat (map WriteFixed64 vs)"

definition WriteUInt64Packed :: "nat \<Rightarrow> uint64 list \<Rightarrow> byte list" where
  "WriteUInt64Packed field_number xs =
     varint (MakeTag field_number 2) @ varint (length (packed_uint64 xs)) @ packed_uint64 xs"

definition WriteFixedPacked :: "nat \<Rightarrow> double list \<Rightarrow> byte list" where
  "WriteFixedPacked field_number vs =
     varint (MakeTag field_number 2) @ varint (length (packed_double vs)) @ packed_double vs"

lemma read_varint_shorter:
  "read_varint bs = Some (v, r) \<Longrightarrow> length r < length bs"
proof -
  assume "read_varint bs = Some (v, r)"
  then obtain c where "bs = c @ r" "c \<noteq> []" using read_varint_suffix by blast
  then have "length bs = length c + length r \<and> 0 < length c"
    by (metis length_append length_greater_0_conv)
  then show ?thesis by simp
qed

function ReadPackedVarint :: "byte list \<Rightarrow> uint64 list option" where
  "ReadPackedVarint bs =
     (if bs = [] then Some []
      else (case read_varint bs of
              None \<Rightarrow> None
            | Some (v, r) \<Rightarrow>
                (case ReadPackedVarint r of
                   None \<Rightarrow> None
                 | Some vs \<Rightarrow> Some (of_nat v # vs))))"
  by pat_completeness auto

termination
  by (relation "measure length") (auto simp add: read_varint_shorter)

declare ReadPackedVarint.simps [simp del]

function ReadPackedFixed64 :: "byte list \<Rightarrow> double list option" where
  "ReadPackedFixed64 bs =
     (if bs = [] then Some []
      else if length bs < 8 then None
      else (case ReadPackedFixed64 (drop 8 bs) of
              None \<Rightarrow> None
            | Some vs \<Rightarrow> Some (ReadFixed64 (take 8 bs) # vs)))"
  by pat_completeness auto

termination
  by (relation "measure length") auto

declare ReadPackedFixed64.simps [simp del]

text \<open>
  Modelled from the spec: \<^verbatim>\<open>Quadratic::_InternalSerialize\<close> is defined in
  quadratic.pb.cc, which is not among the sources. Section 6 of the specification gives
  the fields: \<^verbatim>\<open>rows\<close> 1 and \<^verbatim>\<open>columns\<close> 2, repeated \<^verbatim>\<open>uint64\<close>; \<^verbatim>\<open>values\<close> 3, repeated
  \<^verbatim>\<open>double\<close>; \<^verbatim>\<open>linear\<close> 4, an optional message. The fields are written in the order
  of their numbers, a repeated field only when it has elements, \<^verbatim>\<open>linear\<close> only when
  its has-bit is set, and the unknown fields last. The serializer and the parser of
  Linear are a parameter.
\<close>

definition Quadratic_InternalSerialize ::
    "Linear message_methods \<Rightarrow> Quadratic \<Rightarrow> error + byte list" where
  "Quadratic_InternalSerialize lm q =
     (let cached_has_bits = Quadratic_impl_has_bits q in
      if cached_has_bits AND 0x00000001 \<noteq> 0 \<and> Quadratic_impl_linear q = None
      then Inl NullDereference
      else
        (let target1 = (if 0 < length (packed_uint64 (Quadratic_impl_rows q))
                        then WriteUInt64Packed 1 (Quadratic_impl_rows q) else []);
             target2 = (if 0 < length (packed_uint64 (Quadratic_impl_columns q))
                        then WriteUInt64Packed 2 (Quadratic_impl_columns q) else []);
             target3 = (if 0 < Quadratic_values_size q
                        then WriteFixedPacked 3 (Quadratic_impl_values q) else []);
             target4 = (if cached_has_bits AND 0x00000001 \<noteq> 0
                        then (case Quadratic_impl_linear q of
                                None \<Rightarrow> []
                              | Some l \<Rightarrow> InternalWriteMessage 4 (mm_ByteSizeLong lm l)
                                  (mm_InternalSerialize lm l))
                        else []);
             target5 = (if have_unknown_fields (Quadratic_internal_metadata q)
                        then InternalSerializeUnknownFieldsToArray (Quadratic_internal_metadata q)
                        else [])
         in Inr (target1 @ target2 @ target3 @ target4 @ target5)))"

text \<open>
  Modelled from the spec: the parse table of Quadratic. A repeated scalar is accepted
  packed (one length-delimited field) and element by element; \<^verbatim>\<open>linear\<close> is parsed into
  the Linear held, a new one when the pointer is null; a malformed packed payload is a
  decode error; any other field goes to the unknown fields.
\<close>

definition Quadratic_table ::
    "Linear message_methods \<Rightarrow> Quadratic \<Rightarrow> wire_field \<Rightarrow> error + Quadratic" where
  "Quadratic_table lm q f =
     (case wf_payload f of
        LengthDelimited p \<Rightarrow>
          if wf_number f = 1 then
            (case ReadPackedVarint p of
               None \<Rightarrow> Inl DecodeError
             | Some vs \<Rightarrow> Inr (q\<lparr>Quadratic_impl_rows := Quadratic_impl_rows q @ vs\<rparr>))
          else if wf_number f = 2 then
            (case ReadPackedVarint p of
               None \<Rightarrow> Inl DecodeError
             | Some vs \<Rightarrow> Inr (q\<lparr>Quadratic_impl_columns := Quadratic_impl_columns q @ vs\<rparr>))
          else if wf_number f = 3 then
            (case ReadPackedFixed64 p of
               None \<Rightarrow> Inl DecodeError
             | Some vs \<Rightarrow> Inr (q\<lparr>Quadratic_impl_values := Quadratic_impl_values q @ vs\<rparr>))
          else if wf_number f = 4 then
            (case mm_InternalParse lm (Quadratic_linear q) p of
               Inl e \<Rightarrow> Inl e
             | Inr l \<Rightarrow> Inr (q\<lparr>Quadratic_impl_has_bits := Quadratic_impl_has_bits q OR 0x00000001,
                               Quadratic_impl_linear := Some l\<rparr>))
          else Inr (q\<lparr>Quadratic_internal_metadata :=
                       unknown_field (Quadratic_internal_metadata q) f\<rparr>)
      | Varint v \<Rightarrow>
          if wf_number f = 1 then Inr (Quadratic_add_rows (of_nat v) q)
          else if wf_number f = 2 then Inr (Quadratic_add_columns (of_nat v) q)
          else Inr (q\<lparr>Quadratic_internal_metadata :=
                       unknown_field (Quadratic_internal_metadata q) f\<rparr>)
      | Fixed64 b \<Rightarrow>
          if wf_number f = 3 then Inr (Quadratic_add_values (ReadFixed64 b) q)
          else Inr (q\<lparr>Quadratic_internal_metadata :=
                       unknown_field (Quadratic_internal_metadata q) f\<rparr>)
      | _ \<Rightarrow> Inr (q\<lparr>Quadratic_internal_metadata :=
                     unknown_field (Quadratic_internal_metadata q) f\<rparr>))"

definition Quadratic_InternalParse ::
    "Linear message_methods \<Rightarrow> Quadratic \<Rightarrow> byte list \<Rightarrow> error + Quadratic" where
  "Quadratic_InternalParse lm this ptr = ParseLoop (Quadratic_table lm) this ptr"

definition Quadratic_ParseFromString ::
    "Linear message_methods \<Rightarrow> byte list \<Rightarrow> error + Quadratic" where
  "Quadratic_ParseFromString lm data = Quadratic_InternalParse lm Quadratic_default_instance data"

definition Quadratic_recognised :: "wire_field \<Rightarrow> bool" where
  "Quadratic_recognised f =
     (case wf_payload f of
        LengthDelimited p \<Rightarrow> wf_number f = 1 \<or> wf_number f = 2 \<or> wf_number f = 3 \<or> wf_number f = 4
      | Varint v \<Rightarrow> wf_number f = 1 \<or> wf_number f = 2
      | Fixed64 b \<Rightarrow> wf_number f = 3
      | _ \<Rightarrow> False)"

text \<open>
  Modelled from the spec: \<^verbatim>\<open>Quadratic::IsInitialized\<close> is declared in quadratic.pb.h
  and defined in quadratic.pb.cc, which is not among the sources. Section 7 of the
  specification: no field is required, and every message is always considered
  structurally valid.
\<close>

definition Quadratic_IsInitialized :: "Quadratic \<Rightarrow> bool" where
  "Quadratic_IsInitialized q = True"

text \<open>
  A Linear that the parameter codec encodes and decodes back, with the size it reports.
\<close>

definition Linear_round_trips :: "Linear message_methods \<Rightarrow> Linear \<Rightarrow> bool" where
  "Linear_round_trips lm l =
     (mm_InternalParse lm Linear_default_instance (mm_InternalSerialize lm l) = Inr l \<and>
      mm_ByteSizeLong lm l = length (mm_InternalSerialize lm l) \<and>
      length (mm_InternalSerialize lm l) < 2 ^ 31)"

text \<open>
  The Quadratics the round trip is stated for: the has-bits word is 1 when a Linear is
  held and 0 when none is (a Quadratic that keeps a cleared Linear under a clear has-bit
  is not among them), every packed payload is shorter than \<open>2^31\<close> bytes, the Linear
  held round-trips and each unknown field is one well-formed field that the table does
  not recognise. The lengths of the three sequences are free.
\<close>

definition Quadratic_wire_ok :: "Linear message_methods \<Rightarrow> Quadratic \<Rightarrow> bool" where
  "Quadratic_wire_ok lm q =
     (Quadratic_impl_has_bits q = (if Quadratic_impl_linear q = None then 0 else 1) \<and>
      length (packed_uint64 (Quadratic_impl_rows q)) < 2 ^ 31 \<and>
      length (packed_uint64 (Quadratic_impl_columns q)) < 2 ^ 31 \<and>
      length (packed_double (Quadratic_impl_values q)) < 2 ^ 31 \<and>
      (case Quadratic_impl_linear q of None \<Rightarrow> True | Some l \<Rightarrow> Linear_round_trips lm l) \<and>
      list_all (unknown_chunk Quadratic_recognised) (Quadratic_internal_metadata q))"

text \<open>
  Modelled from the spec: \<^verbatim>\<open>Function::_InternalSerialize\<close> is defined in
  function.pb.cc, which is not among the sources. Section 6 of the specification gives
  the fields of the oneof: \<^verbatim>\<open>constant\<close> 1, a double; \<^verbatim>\<open>linear\<close> 2, \<^verbatim>\<open>quadratic\<close> 3 and
  \<^verbatim>\<open>polynomial\<close> 4, messages. The variant that the discriminant names is written, read
  through its accessor of function.pb.h, and the unknown fields after it. A submessage
  is prefixed with the number of its bytes. The serializers and parsers of Linear and
  Polynomial are a parameter.
\<close>

record Function_submessages =
  fsub_Linear :: "Linear message_methods"
  fsub_Polynomial :: "Polynomial message_methods"

definition Function_InternalSerialize ::
    "Function_submessages \<Rightarrow> Function \<Rightarrow> error + byte list" where
  "Function_InternalSerialize fs f =
     (let target5 = (if have_unknown_fields (Function_internal_metadata f)
                     then InternalSerializeUnknownFieldsToArray (Function_internal_metadata f)
                     else [])
      in
      if Function_function_case f = kConstant then
        (case Function_internal_constant f of
           Inl e \<Rightarrow> Inl e
         | Inr v \<Rightarrow> Inr (WriteDoubleToArray 1 v @ target5))
      else if Function_function_case f = kLinear then
        (case Function_internal_linear f of
           Inl e \<Rightarrow> Inl e
         | Inr l \<Rightarrow> Inr (InternalWriteMessage 2 (mm_ByteSizeLong (fsub_Linear fs) l)
                           (mm_InternalSerialize (fsub_Linear fs) l) @ target5))
      else if Function_function_case f = kQuadratic then
        (case Function_internal_quadratic f of
           Inl e \<Rightarrow> Inl e
         | Inr q \<Rightarrow>
             (case Quadratic_InternalSerialize (fsub_Linear fs) q of
                Inl e \<Rightarrow> Inl e
              | Inr p \<Rightarrow> Inr (InternalWriteMessage 3 (length p) p @ target5)))
      else if Function_function_case f = kPolynomial then
        (case Function_internal_polynomial f of
           Inl e \<Rightarrow> Inl e
         | Inr p \<Rightarrow> Inr (InternalWriteMessage 4 (mm_ByteSizeLong (fsub_Polynomial fs) p)
                           (mm_InternalSerialize (fsub_Polynomial fs) p) @ target5))
      else Inr target5)"

text \<open>
  Modelled from the spec: the parse table of Function. Field 1 with eight bytes is
  \<^verbatim>\<open>set_constant\<close>; a length-delimited field 2, 3 or 4 is parsed into the message
  that \<^verbatim>\<open>mutable_linear\<close>, \<^verbatim>\<open>mutable_quadratic\<close> or \<^verbatim>\<open>mutable_polynomial\<close> gives (the
  one held, or a new one after the variant held before is cleared); any other field
  goes to the unknown fields.
\<close>

definition Function_table ::
    "Function_submessages \<Rightarrow> Function \<Rightarrow> wire_field \<Rightarrow> error + Function" where
  "Function_table fs f fld =
     (case wf_payload fld of
        Fixed64 b \<Rightarrow>
          if wf_number fld = 1
          then Inr (Function_set_constant Function_clear_function (ReadFixed64 b) f)
          else Inr (f\<lparr>Function_internal_metadata :=
                       unknown_field (Function_internal_metadata f) fld\<rparr>)
      | LengthDelimited p \<Rightarrow>
          if wf_number fld = 2 then
            (let f1 = Function_mutable_linear Function_clear_function f in
             case Function_internal_linear f1 of
               Inl e \<Rightarrow> Inl e
             | Inr l \<Rightarrow>
                 (case mm_InternalParse (fsub_Linear fs) l p of
                    Inl e \<Rightarrow> Inl e
                  | Inr l' \<Rightarrow> Inr (f1\<lparr>Function_impl_function := U_linear (Some l')\<rparr>)))
          else if wf_number fld = 3 then
            (let f1 = Function_mutable_quadratic Function_clear_function f in
             case Function_internal_quadratic f1 of
               Inl e \<Rightarrow> Inl e
             | Inr q \<Rightarrow>
                 (case Quadratic_InternalParse (fsub_Linear fs) q p of
                    Inl e \<Rightarrow> Inl e
                  | Inr q' \<Rightarrow> Inr (f1\<lparr>Function_impl_function := U_quadratic (Some q')\<rparr>)))
          else if wf_number fld = 4 then
            (let f1 = Function_mutable_polynomial Function_clear_function f in
             case Function_internal_polynomial f1 of
               Inl e \<Rightarrow> Inl e
             | Inr p0 \<Rightarrow>
                 (case mm_InternalParse (fsub_Polynomial fs) p0 p of
                    Inl e \<Rightarrow> Inl e
                  | Inr p' \<Rightarrow> Inr (f1\<lparr>Function_impl_function := U_polynomial (Some p')\<rparr>)))
          else Inr (f\<lparr>Function_internal_metadata :=
                       unknown_field (Function_internal_metadata f) fld\<rparr>)
      | _ \<Rightarrow> Inr (f\<lparr>Function_internal_metadata :=
                     unknown_field (Function_internal_metadata f) fld\<rparr>))"

definition Function_InternalParse ::
    "Function_submessages \<Rightarrow> Function \<Rightarrow> byte list \<Rightarrow> error + Function" where
  "Function_InternalParse fs this ptr = ParseLoop (Function_table fs) this ptr"

definition Function_ParseFromString ::
    "Function_submessages \<Rightarrow> byte list \<Rightarrow> error + Function" where
  "Function_ParseFromString fs data = Function_InternalParse fs Function_default_instance data"




section \<open>Example messages\<close>

definition example_Description_a :: Instance_Description where
  "example_Description_a =
     \<lparr>Description_impl_has_bits = 5, Description_impl_authors = [[65]],
      Description_impl_name = [], Description_impl_description = [],
      Description_impl_created_by = [66], Description_internal_metadata = []\<rparr>"

definition example_Description_b :: Instance_Description where
  "example_Description_b =
     \<lparr>Description_impl_has_bits = 2, Description_impl_authors = [[67]],
      Description_impl_name = [], Description_impl_description = [68],
      Description_impl_created_by = [], Description_internal_metadata = []\<rparr>"

definition example_Instance_a :: "(nat, nat) Instance" where
  "example_Instance_a =
     \<lparr>Instance_impl_has_bits = 3, Instance_impl_decision_variables = [1],
      Instance_impl_constraints = [2],
      Instance_impl_description = Some example_Description_a,
      Instance_impl_objective =
        Some (Function_set_constant Function_clear_function 7 Function_default_instance),
      Instance_impl_sense = 0, Instance_internal_metadata = []\<rparr>"

definition example_Instance_b :: "(nat, nat) Instance" where
  "example_Instance_b =
     \<lparr>Instance_impl_has_bits = 1, Instance_impl_decision_variables = [3],
      Instance_impl_constraints = [],
      Instance_impl_description = Some example_Description_b,
      Instance_impl_objective = None,
      Instance_impl_sense = 2, Instance_internal_metadata = []\<rparr>"


definition example_opaque_methods :: "byte list message_methods" where
  "example_opaque_methods =
     \<lparr>mm_default = [], mm_ByteSizeLong = length, mm_InternalSerialize = (\<lambda>v. v),
      mm_InternalParse = (\<lambda>this ptr. Inr ptr)\<rparr>"

definition example_submessages :: "(byte list, byte list) Instance_submessages" where
  "example_submessages =
     \<lparr>sub_DecisionVariable = example_opaque_methods,
      sub_Constraint = example_opaque_methods,
      sub_Function =
        \<lparr>mm_default = Function_default_instance, mm_ByteSizeLong = (\<lambda>g. 0),
         mm_InternalSerialize = (\<lambda>g. []), mm_InternalParse = (\<lambda>this ptr. Inr this)\<rparr>\<rparr>"


definition example_Quadratic_mismatched :: Quadratic where
  "example_Quadratic_mismatched =
     Quadratic_add_columns 3 (Quadratic_add_rows 2 (Quadratic_add_rows 1
       Quadratic_default_instance))"

definition example_Linear_methods :: "Linear message_methods" where
  "example_Linear_methods =
     \<lparr>mm_default = Linear_default_instance, mm_ByteSizeLong = (\<lambda>l. 0),
      mm_InternalSerialize = (\<lambda>l. []), mm_InternalParse = (\<lambda>this ptr. Inr this)\<rparr>"

definition example_Function_submessages :: Function_submessages where
  "example_Function_submessages =
     \<lparr>fsub_Linear = example_Linear_methods,
      fsub_Polynomial =
        \<lparr>mm_default = Polynomial_default_instance, mm_ByteSizeLong = (\<lambda>p. 0),
         mm_InternalSerialize = (\<lambda>p. []), mm_InternalParse = (\<lambda>this ptr. Inr this)\<rparr>\<rparr>"



section \<open>Properties of Function\<close>

lemma FunctionCase_distinct:
  "kConstant \<noteq> kLinear" "kConstant \<noteq> kQuadratic" "kConstant \<noteq> kPolynomial"
  "kLinear \<noteq> kQuadratic" "kLinear \<noteq> kPolynomial" "kQuadratic \<noteq> kPolynomial"
  "kConstant \<noteq> FUNCTION_NOT_SET" "kLinear \<noteq> FUNCTION_NOT_SET"
  "kQuadratic \<noteq> FUNCTION_NOT_SET" "kPolynomial \<noteq> FUNCTION_NOT_SET"
  by (simp_all add: kConstant_def kLinear_def kQuadratic_def kPolynomial_def
      FUNCTION_NOT_SET_def)

lemma Function_do_call_case:
  "Function_function_case (Function_do_call cf f c) = case_of_call c"
proof (cases c)
  case (Set_constant v)
  then show ?thesis
    by (simp add: Function_set_constant_def Function_set_has_constant_def
        Function_function_case_def Let_def)
next
  case Mutable_linear
  then show ?thesis
    by (simp add: Function_mutable_linear_def Function_internal_mutable_linear_def
        Function_set_has_linear_def Function_function_case_def)
next
  case Mutable_quadratic
  then show ?thesis
    by (simp add: Function_mutable_quadratic_def Function_internal_mutable_quadratic_def
        Function_set_has_quadratic_def Function_function_case_def)
next
  case Mutable_polynomial
  then show ?thesis
    by (simp add: Function_mutable_polynomial_def Function_internal_mutable_polynomial_def
        Function_set_has_polynomial_def Function_function_case_def)
qed

lemma Function_do_calls_snoc:
  "Function_do_calls cf (cs @ [c]) f = Function_do_call cf (Function_do_calls cf cs f) c"
  by (simp add: Function_do_calls_def)

lemma Function_do_calls_case:
  assumes "cs \<noteq> []"
  shows "Function_function_case (Function_do_calls cf cs f) = case_of_call (last cs)"
proof -
  from assms obtain cs' c where cs: "cs = cs' @ [c]"
    by (metis append_butlast_last_id)
  show ?thesis
    unfolding cs Function_do_calls_snoc by (simp add: Function_do_call_case)
qed

lemma case_of_call_cases:
  "case_of_call c = kConstant \<or> case_of_call c = kLinear \<or>
   case_of_call c = kQuadratic \<or> case_of_call c = kPolynomial"
  by (cases c) simp_all

lemma kCase_numerals:
  "kConstant = 1" "kLinear = 2" "kQuadratic = 3" "kPolynomial = 4" "FUNCTION_NOT_SET = 0"
  by (simp_all add: kConstant_def kLinear_def kQuadratic_def kPolynomial_def
      FUNCTION_NOT_SET_def)

lemma Function_do_call_changed:
  assumes "Function_function_case p \<noteq> case_of_call c"
  shows "Function_do_call cf p c =
     (cf p)\<lparr>Function_impl_function := variant_of_call c,
             Function_impl_oneof_case := case_of_call c\<rparr>"
  using assms
  by (cases c)
    (simp_all add: Function_set_constant_def Function_set_has_constant_def
      Function_mutable_linear_def Function_internal_mutable_linear_def
      Function_set_has_linear_def
      Function_mutable_quadratic_def Function_internal_mutable_quadratic_def
      Function_set_has_quadratic_def
      Function_mutable_polynomial_def Function_internal_mutable_polynomial_def
      Function_set_has_polynomial_def Let_def)

lemma Function_do_call_same:
  assumes "Function_function_case p = case_of_call c"
  shows "Function_do_call cf p c =
     (case c of Set_constant v \<Rightarrow> p\<lparr>Function_impl_function := U_constant v\<rparr> | _ \<Rightarrow> p)"
  using assms
  by (cases c)
    (simp_all add: Function_set_constant_def
      Function_mutable_linear_def Function_internal_mutable_linear_def
      Function_mutable_quadratic_def Function_internal_mutable_quadratic_def
      Function_mutable_polynomial_def Function_internal_mutable_polynomial_def Let_def)

lemma Function_do_call_union_consistent:
  assumes "Function_union_consistent p"
  shows "Function_union_consistent (Function_do_call cf p c)"
proof (cases "Function_function_case p = case_of_call c")
  case True
  then show ?thesis
    using assms Function_do_call_same [OF True, of cf]
    by (cases c)
      (auto simp add: Function_union_consistent_def Function_function_case_def kCase_numerals
        split: FunctionUnion.splits option.splits if_splits)
next
  case False
  show ?thesis
    unfolding Function_do_call_changed [OF False]
    by (cases c)
      (simp_all add: Function_union_consistent_def Function_function_case_def kCase_numerals)
qed

lemma Function_do_calls_union_consistent:
  "Function_union_consistent f \<Longrightarrow> Function_union_consistent (Function_do_calls cf cs f)"
proof (induction cs rule: rev_induct)
  case Nil
  then show ?case by (simp add: Function_do_calls_def)
next
  case (snoc c cs)
  then show ?case
    unfolding Function_do_calls_snoc by (intro Function_do_call_union_consistent) simp
qed

lemma Function_do_call_union:
  assumes "Function_union_consistent p"
  shows "case c of
           Set_constant v \<Rightarrow>
             Function_impl_function (Function_do_call cf p c) = U_constant v \<and>
             Function_constant (Function_do_call cf p c) = Inr v
         | Mutable_linear \<Rightarrow>
             (\<exists>l. Function_impl_function (Function_do_call cf p c) = U_linear (Some l) \<and>
                  Function_linear (Function_do_call cf p c) = Inr l)
         | Mutable_quadratic \<Rightarrow>
             (\<exists>q. Function_impl_function (Function_do_call cf p c) = U_quadratic (Some q) \<and>
                  Function_quadratic (Function_do_call cf p c) = Inr q)
         | Mutable_polynomial \<Rightarrow>
             (\<exists>q. Function_impl_function (Function_do_call cf p c) = U_polynomial (Some q) \<and>
                  Function_polynomial (Function_do_call cf p c) = Inr q)"
proof -
  let ?r = "Function_do_call cf p c"
  have c: "Function_function_case ?r = case_of_call c" by (rule Function_do_call_case)
  have u: "Function_union_consistent ?r"
    using assms by (rule Function_do_call_union_consistent)
  show ?thesis
  proof (cases c)
    case (Set_constant v)
    then show ?thesis
      by (simp add: Function_set_constant_def Function_set_has_constant_def
          Function_constant_def Function_internal_constant_def Function_function_case_def
          Let_def)
  next
    case Mutable_linear
    then show ?thesis
      using c u
      by (auto simp add: Function_union_consistent_def Function_linear_def
          Function_internal_linear_def kCase_numerals
          split: FunctionUnion.splits option.splits)
  next
    case Mutable_quadratic
    then show ?thesis
      using c u
      by (auto simp add: Function_union_consistent_def Function_quadratic_def
          Function_internal_quadratic_def kCase_numerals
          split: FunctionUnion.splits option.splits)
  next
    case Mutable_polynomial
    then show ?thesis
      using c u
      by (auto simp add: Function_union_consistent_def Function_polynomial_def
          Function_internal_polynomial_def kCase_numerals
          split: FunctionUnion.splits option.splits)
  qed
qed

text \<open>
  C2. Tagged-union exclusivity. After any non-empty sequence of \<^verbatim>\<open>set_constant\<close>,
  \<^verbatim>\<open>mutable_linear\<close>, \<^verbatim>\<open>mutable_quadratic\<close> and \<^verbatim>\<open>mutable_polynomial\<close> calls, started
  from any Function and with any clearing function, \<^verbatim>\<open>function_case()\<close> is the
  discriminant of the last call, \<^verbatim>\<open>has_X()\<close> is true for the variant set last and for
  no other, so exactly one of the four reports present, and each of the other three
  accessors returns its zero default. When the last call names a variant other than
  the active one, its result is the result of \<^verbatim>\<open>clear_function()\<close> on the state before
  it, with the union holding the new variant and the discriminant naming it: the
  variant held before is cleared first. When it names the active variant, nothing is
  cleared: \<^verbatim>\<open>set_constant\<close> overwrites the value and a \<^verbatim>\<open>mutable_\<close> call leaves the
  Function as it is. After \<^verbatim>\<open>set_constant(v)\<close> the union holds \<open>v\<close>. If the union of the
  starting Function holds the member its discriminant names, so does the union of the
  result, and the accessor of the variant present returns what the union holds.
\<close>

theorem Function_oneof_exclusive:
  assumes "cs \<noteq> []"
  shows "Function_function_case (Function_do_calls cf cs f) = case_of_call (last cs) \<and>
         Function_has_constant (Function_do_calls cf cs f) = (case_of_call (last cs) = kConstant) \<and>
         Function_has_linear (Function_do_calls cf cs f) = (case_of_call (last cs) = kLinear) \<and>
         Function_has_quadratic (Function_do_calls cf cs f) = (case_of_call (last cs) = kQuadratic) \<and>
         Function_has_polynomial (Function_do_calls cf cs f) = (case_of_call (last cs) = kPolynomial) \<and>
         length (filter (\<lambda>b. b)
           [Function_has_constant (Function_do_calls cf cs f),
            Function_has_linear (Function_do_calls cf cs f),
            Function_has_quadratic (Function_do_calls cf cs f),
            Function_has_polynomial (Function_do_calls cf cs f)]) = 1 \<and>
         (case_of_call (last cs) \<noteq> kConstant \<longrightarrow>
            Function_constant (Function_do_calls cf cs f) = Inr 0) \<and>
         (case_of_call (last cs) \<noteq> kLinear \<longrightarrow>
            Function_linear (Function_do_calls cf cs f) = Inr Linear_default_instance) \<and>
         (case_of_call (last cs) \<noteq> kQuadratic \<longrightarrow>
            Function_quadratic (Function_do_calls cf cs f) = Inr Quadratic_default_instance) \<and>
         (case_of_call (last cs) \<noteq> kPolynomial \<longrightarrow>
            Function_polynomial (Function_do_calls cf cs f) = Inr Polynomial_default_instance) \<and>
         (Function_function_case (Function_do_calls cf (butlast cs) f) \<noteq> case_of_call (last cs) \<longrightarrow>
            Function_do_calls cf cs f =
              (cf (Function_do_calls cf (butlast cs) f))
                \<lparr>Function_impl_function := variant_of_call (last cs),
                 Function_impl_oneof_case := case_of_call (last cs)\<rparr>) \<and>
         (Function_function_case (Function_do_calls cf (butlast cs) f) = case_of_call (last cs) \<longrightarrow>
            Function_do_calls cf cs f =
              (case last cs of
                 Set_constant v \<Rightarrow>
                   (Function_do_calls cf (butlast cs) f)\<lparr>Function_impl_function := U_constant v\<rparr>
               | _ \<Rightarrow> Function_do_calls cf (butlast cs) f)) \<and>
         (\<forall>v. last cs = Set_constant v \<longrightarrow>
            Function_impl_function (Function_do_calls cf cs f) = U_constant v \<and>
            Function_constant (Function_do_calls cf cs f) = Inr v) \<and>
         (Function_union_consistent f \<longrightarrow>
            Function_union_consistent (Function_do_calls cf cs f) \<and>
            (last cs = Mutable_linear \<longrightarrow>
               (\<exists>l. Function_impl_function (Function_do_calls cf cs f) = U_linear (Some l) \<and>
                    Function_linear (Function_do_calls cf cs f) = Inr l)) \<and>
            (last cs = Mutable_quadratic \<longrightarrow>
               (\<exists>q. Function_impl_function (Function_do_calls cf cs f) = U_quadratic (Some q) \<and>
                    Function_quadratic (Function_do_calls cf cs f) = Inr q)) \<and>
            (last cs = Mutable_polynomial \<longrightarrow>
               (\<exists>q. Function_impl_function (Function_do_calls cf cs f) = U_polynomial (Some q) \<and>
                    Function_polynomial (Function_do_calls cf cs f) = Inr q)))"
proof -
  let ?g = "Function_do_calls cf cs f"
  let ?p = "Function_do_calls cf (butlast cs) f"
  let ?c = "last cs"
  have g: "?g = Function_do_call cf ?p ?c"
    using assms Function_do_calls_snoc [of cf "butlast cs" "last cs" f] by simp
  have c: "Function_function_case ?g = case_of_call ?c"
    using assms by (rule Function_do_calls_case)
  have has: "Function_has_constant ?g = (case_of_call ?c = kConstant)"
    "Function_has_linear ?g = (case_of_call ?c = kLinear)"
    "Function_has_quadratic ?g = (case_of_call ?c = kQuadratic)"
    "Function_has_polynomial ?g = (case_of_call ?c = kPolynomial)"
    by (simp_all add: Function_has_constant_def Function_has_linear_def
        Function_has_quadratic_def Function_has_polynomial_def c)
  have one: "length (filter (\<lambda>b. b)
      [case_of_call ?c = kConstant, case_of_call ?c = kLinear,
       case_of_call ?c = kQuadratic, case_of_call ?c = kPolynomial]) = 1"
    using case_of_call_cases [of ?c] FunctionCase_distinct by auto
  have ex: "length (filter (\<lambda>b. b)
           [Function_has_constant ?g, Function_has_linear ?g,
            Function_has_quadratic ?g, Function_has_polynomial ?g]) = 1"
    using one by (simp add: has)
  have dflt: "case_of_call ?c \<noteq> kConstant \<longrightarrow> Function_constant ?g = Inr 0"
    "case_of_call ?c \<noteq> kLinear \<longrightarrow> Function_linear ?g = Inr Linear_default_instance"
    "case_of_call ?c \<noteq> kQuadratic \<longrightarrow> Function_quadratic ?g = Inr Quadratic_default_instance"
    "case_of_call ?c \<noteq> kPolynomial \<longrightarrow>
       Function_polynomial ?g = Inr Polynomial_default_instance"
    using c
    by (simp_all add: Function_constant_def Function_internal_constant_def
        Function_linear_def Function_internal_linear_def
        Function_quadratic_def Function_internal_quadratic_def
        Function_polynomial_def Function_internal_polynomial_def)
  have changed: "Function_function_case ?p \<noteq> case_of_call ?c \<longrightarrow>
      ?g = (cf ?p)\<lparr>Function_impl_function := variant_of_call ?c,
                    Function_impl_oneof_case := case_of_call ?c\<rparr>"
    unfolding g using Function_do_call_changed [of ?p ?c cf] by blast
  have same: "Function_function_case ?p = case_of_call ?c \<longrightarrow>
      ?g = (case ?c of
              Set_constant v \<Rightarrow> ?p\<lparr>Function_impl_function := U_constant v\<rparr>
            | _ \<Rightarrow> ?p)"
    unfolding g using Function_do_call_same [of ?p ?c cf] by blast
  have const: "\<forall>v. ?c = Set_constant v \<longrightarrow>
      Function_impl_function ?g = U_constant v \<and> Function_constant ?g = Inr v"
    unfolding g
    by (simp add: Function_set_constant_def Function_set_has_constant_def
        Function_constant_def Function_internal_constant_def Function_function_case_def
        Let_def)
  have held: "Function_union_consistent f \<longrightarrow>
            Function_union_consistent ?g \<and>
            (?c = Mutable_linear \<longrightarrow>
               (\<exists>l. Function_impl_function ?g = U_linear (Some l) \<and>
                    Function_linear ?g = Inr l)) \<and>
            (?c = Mutable_quadratic \<longrightarrow>
               (\<exists>q. Function_impl_function ?g = U_quadratic (Some q) \<and>
                    Function_quadratic ?g = Inr q)) \<and>
            (?c = Mutable_polynomial \<longrightarrow>
               (\<exists>q. Function_impl_function ?g = U_polynomial (Some q) \<and>
                    Function_polynomial ?g = Inr q))"
  proof
    assume f: "Function_union_consistent f"
    have p: "Function_union_consistent ?p"
      using f by (rule Function_do_calls_union_consistent)
    have "Function_union_consistent ?g"
      using f by (rule Function_do_calls_union_consistent)
    moreover have "?c = Mutable_linear \<longrightarrow>
               (\<exists>l. Function_impl_function ?g = U_linear (Some l) \<and>
                    Function_linear ?g = Inr l)"
      unfolding g using Function_do_call_union [OF p, where c = "?c" and cf = cf] by auto
    moreover have "?c = Mutable_quadratic \<longrightarrow>
               (\<exists>q. Function_impl_function ?g = U_quadratic (Some q) \<and>
                    Function_quadratic ?g = Inr q)"
      unfolding g using Function_do_call_union [OF p, where c = "?c" and cf = cf] by auto
    moreover have "?c = Mutable_polynomial \<longrightarrow>
               (\<exists>q. Function_impl_function ?g = U_polynomial (Some q) \<and>
                    Function_polynomial ?g = Inr q)"
      unfolding g using Function_do_call_union [OF p, where c = "?c" and cf = cf] by auto
    ultimately show "Function_union_consistent ?g \<and>
            (?c = Mutable_linear \<longrightarrow>
               (\<exists>l. Function_impl_function ?g = U_linear (Some l) \<and>
                    Function_linear ?g = Inr l)) \<and>
            (?c = Mutable_quadratic \<longrightarrow>
               (\<exists>q. Function_impl_function ?g = U_quadratic (Some q) \<and>
                    Function_quadratic ?g = Inr q)) \<and>
            (?c = Mutable_polynomial \<longrightarrow>
               (\<exists>q. Function_impl_function ?g = U_polynomial (Some q) \<and>
                    Function_polynomial ?g = Inr q))"
      by blast
  qed
  show ?thesis
    using c has ex dflt changed same const held by (intro conjI)
qed

theorem Function_oneof_exclusive_witness:
  "[Mutable_linear, Set_constant 5, Mutable_quadratic] \<noteq> [] \<and>
   Function_union_consistent Function_default_instance \<and>
   Function_function_case
     (Function_do_calls Function_clear_function [Mutable_linear, Set_constant 5]
        Function_default_instance) = kConstant \<and>
   Function_do_calls Function_clear_function
        [Mutable_linear, Set_constant 5, Mutable_quadratic] Function_default_instance
     = \<lparr>Function_impl_function = U_quadratic (Some Quadratic_default_instance),
        Function_impl_oneof_case = kQuadratic, Function_internal_metadata = []\<rparr> \<and>
   Function_function_case
     (Function_do_calls Function_clear_function
        [Mutable_linear, Set_constant 5, Mutable_quadratic] Function_default_instance)
     = kQuadratic \<and>
   Function_has_quadratic
     (Function_do_calls Function_clear_function
        [Mutable_linear, Set_constant 5, Mutable_quadratic] Function_default_instance) \<and>
   \<not> Function_has_constant
     (Function_do_calls Function_clear_function
        [Mutable_linear, Set_constant 5, Mutable_quadratic] Function_default_instance) \<and>
   \<not> Function_has_linear
     (Function_do_calls Function_clear_function
        [Mutable_linear, Set_constant 5, Mutable_quadratic] Function_default_instance) \<and>
   \<not> Function_has_polynomial
     (Function_do_calls Function_clear_function
        [Mutable_linear, Set_constant 5, Mutable_quadratic] Function_default_instance) \<and>
   Function_constant
     (Function_do_calls Function_clear_function
        [Mutable_linear, Set_constant 5, Mutable_quadratic] Function_default_instance)
     = Inr 0 \<and>
   Function_quadratic
     (Function_do_calls Function_clear_function
        [Mutable_linear, Set_constant 5, Mutable_quadratic] Function_default_instance)
     = Inr Quadratic_default_instance"
proof -
  let ?cs = "[Mutable_linear, Set_constant 5, Mutable_quadratic]"
  let ?g = "Function_do_calls Function_clear_function ?cs Function_default_instance"
  let ?p = "Function_do_calls Function_clear_function [Mutable_linear, Set_constant 5]
              Function_default_instance"
  have ne: "?cs \<noteq> []" by simp
  have d: "Function_union_consistent Function_default_instance"
    by (simp add: Function_union_consistent_def Function_default_instance_def
        Function_function_case_def kCase_numerals)
  have p: "?p = \<lparr>Function_impl_function = U_constant 5, Function_impl_oneof_case = kConstant,
                 Function_internal_metadata = []\<rparr>"
    by (simp add: Function_do_calls_def Function_mutable_linear_def
        Function_internal_mutable_linear_def Function_set_has_linear_def
        Function_set_constant_def Function_set_has_constant_def Function_clear_function_def
        Function_clear_has_function_def Function_default_instance_def
        Function_function_case_def kCase_numerals Let_def)
  have pc: "Function_function_case ?p = kConstant"
    by (simp add: p Function_function_case_def)
  note w = Function_oneof_exclusive [OF ne, of Function_clear_function Function_default_instance]
  have bl: "butlast ?cs = [Mutable_linear, Set_constant 5]" "last ?cs = Mutable_quadratic"
    by simp_all
  have ch: "Function_function_case ?p \<noteq> case_of_call Mutable_quadratic"
    using pc FunctionCase_distinct by simp
  have "?g = (Function_clear_function ?p)
                \<lparr>Function_impl_function := variant_of_call Mutable_quadratic,
                 Function_impl_oneof_case := case_of_call Mutable_quadratic\<rparr>"
    using w ch unfolding bl by blast
  then have g: "?g = \<lparr>Function_impl_function = U_quadratic (Some Quadratic_default_instance),
        Function_impl_oneof_case = kQuadratic, Function_internal_metadata = []\<rparr>"
    by (simp add: p Function_clear_function_def Function_clear_has_function_def)
  have c: "Function_function_case ?g = kQuadratic"
    using w unfolding bl by simp
  have h: "Function_has_quadratic ?g" "\<not> Function_has_constant ?g"
    "\<not> Function_has_linear ?g" "\<not> Function_has_polynomial ?g"
    using w FunctionCase_distinct unfolding bl by simp_all
  have k: "Function_constant ?g = Inr 0"
    using w FunctionCase_distinct unfolding bl by simp
  obtain q where q: "Function_impl_function ?g = U_quadratic (Some q)"
    "Function_quadratic ?g = Inr q"
    using w d unfolding bl by blast
  have "q = Quadratic_default_instance" using q(1) unfolding g by simp
  then have fq: "Function_quadratic ?g = Inr Quadratic_default_instance" using q(2) by simp
  show ?thesis
    using ne d pc g c h k fq by (intro conjI)
qed

text \<open>
  C3. Reading an inactive variant does not fail and gives the zero default:
  \<^verbatim>\<open>constant()\<close> is \<open>0.0\<close> whenever \<^verbatim>\<open>function_case() != kConstant\<close>, and
  \<^verbatim>\<open>linear()\<close>, \<^verbatim>\<open>quadratic()\<close>, \<^verbatim>\<open>polynomial()\<close> are the default instance of their
  message type whenever their variant is not the active one.
\<close>

theorem Function_inactive_default:
  "(Function_function_case f \<noteq> kConstant \<longrightarrow> Function_constant f = Inr 0) \<and>
   (Function_function_case f \<noteq> kLinear \<longrightarrow>
      Function_linear f = Inr Linear_default_instance) \<and>
   (Function_function_case f \<noteq> kQuadratic \<longrightarrow>
      Function_quadratic f = Inr Quadratic_default_instance) \<and>
   (Function_function_case f \<noteq> kPolynomial \<longrightarrow>
      Function_polynomial f = Inr Polynomial_default_instance)"
  by (simp add: Function_constant_def Function_internal_constant_def
      Function_linear_def Function_internal_linear_def
      Function_quadratic_def Function_internal_quadratic_def
      Function_polynomial_def Function_internal_polynomial_def)

theorem Function_inactive_default_witness:
  "Function_function_case (Function_set_constant Function_clear_function 7 Function_default_instance)
     = kConstant \<and>
   Function_linear (Function_set_constant Function_clear_function 7 Function_default_instance)
     = Inr Linear_default_instance \<and>
   Function_quadratic (Function_set_constant Function_clear_function 7 Function_default_instance)
     = Inr Quadratic_default_instance \<and>
   Function_polynomial (Function_set_constant Function_clear_function 7 Function_default_instance)
     = Inr Polynomial_default_instance \<and>
   Function_function_case Function_default_instance = FUNCTION_NOT_SET \<and>
   Function_constant Function_default_instance = Inr 0"
proof -
  let ?f = "Function_set_constant Function_clear_function 7 Function_default_instance"
  have c: "Function_function_case ?f = kConstant"
    by (simp add: Function_set_constant_def Function_set_has_constant_def
        Function_function_case_def Function_default_instance_def Let_def
        Function_clear_function_def Function_clear_has_function_def kConstant_def)
  have d: "Function_function_case Function_default_instance = FUNCTION_NOT_SET"
    by (simp add: Function_function_case_def Function_default_instance_def FUNCTION_NOT_SET_def)
  show ?thesis
    using Function_inactive_default [of ?f] Function_inactive_default [of Function_default_instance]
      c d FunctionCase_distinct
    by simp
qed

text \<open>
  C8. Presence of the constant variant is the discriminant, not the value: after
  \<^verbatim>\<open>set_constant(0.0)\<close> on any Function, \<^verbatim>\<open>has_constant()\<close> is true,
  \<^verbatim>\<open>function_case()\<close> is \<^verbatim>\<open>kConstant\<close> and \<^verbatim>\<open>constant()\<close> is \<open>0.0\<close>; a Function with no
  variant set also returns \<open>0.0\<close> from \<^verbatim>\<open>constant()\<close> but reports \<^verbatim>\<open>has_constant()\<close>
  false, so the two states are told apart.
\<close>

theorem Function_constant_zero_present:
  assumes "Function_function_case g = FUNCTION_NOT_SET"
  shows "Function_has_constant (Function_set_constant cf 0 f) \<and>
         Function_function_case (Function_set_constant cf 0 f) = kConstant \<and>
         Function_constant (Function_set_constant cf 0 f) = Inr 0 \<and>
         \<not> Function_has_constant g \<and>
         Function_constant g = Inr 0 \<and>
         Function_set_constant cf 0 f \<noteq> g"
proof -
  let ?f = "Function_set_constant cf 0 f"
  have c: "Function_function_case ?f = kConstant"
    by (simp add: Function_set_constant_def Function_set_has_constant_def
        Function_function_case_def Let_def)
  have v: "Function_impl_function ?f = U_constant 0"
    by (simp add: Function_set_constant_def Let_def)
  have r: "Function_constant ?f = Inr 0"
    by (simp add: Function_constant_def Function_internal_constant_def c v)
  have g: "\<not> Function_has_constant g" "Function_constant g = Inr 0"
    using assms FunctionCase_distinct
    by (simp_all add: Function_has_constant_def Function_constant_def
        Function_internal_constant_def)
  have "Function_function_case ?f \<noteq> Function_function_case g"
    using c assms FunctionCase_distinct by simp
  then have "?f \<noteq> g" by auto
  then show ?thesis
    using c r g by (simp add: Function_has_constant_def)
qed

theorem Function_constant_zero_present_witness:
  "Function_function_case Function_default_instance = FUNCTION_NOT_SET \<and>
   Function_has_constant (Function_set_constant Function_clear_function 0 Function_default_instance) \<and>
   Function_constant (Function_set_constant Function_clear_function 0 Function_default_instance)
     = Function_constant Function_default_instance \<and>
   \<not> Function_has_constant Function_default_instance \<and>
   Function_set_constant Function_clear_function 0 Function_default_instance
     \<noteq> Function_default_instance"
proof -
  have d: "Function_function_case Function_default_instance = FUNCTION_NOT_SET"
    by (simp add: Function_function_case_def Function_default_instance_def FUNCTION_NOT_SET_def)
  show ?thesis
    using Function_constant_zero_present
      [OF d, of Function_clear_function Function_default_instance] d
    by simp
qed

section \<open>Has-bits\<close>

lemma has_bit_0: "((h :: uint32) AND 1 \<noteq> 0) = bit h 0"
  using and_exp_eq_0_iff_not_bit [of h 0] by simp

lemma has_bit_1: "((h :: uint32) AND 2 \<noteq> 0) = bit h 1"
  using and_exp_eq_0_iff_not_bit [of h 1] by simp

lemma has_bit_2: "((h :: uint32) AND 4 \<noteq> 0) = bit h 2"
  using and_exp_eq_0_iff_not_bit [of h 2] by simp

lemma bit_mask_1: "bit (1 :: uint32) n = (n = 0)"
  by (simp add: bit_1_iff)

lemma bit_mask_2: "bit (2 :: uint32) n = (n = 1)"
  using bit_exp_iff [where ?'a = "32 word", of 1 n] by auto

lemma bit_mask_4: "bit (4 :: uint32) n = (n = 2)"
  using bit_exp_iff [where ?'a = "32 word", of 2 n] by auto

lemma has_bits_3: "((h :: uint32) AND 3 \<noteq> 0) = (bit h 0 \<or> bit h 1)"
proof -
  have "(3 :: uint32) = 1 OR 2" by simp
  then have "h AND 3 = (h AND 1) OR (h AND 2)"
    by (simp only: bit.conj_disj_distrib)
  then show ?thesis
    by (simp only: or_eq_0_iff has_bit_0 [symmetric] has_bit_1 [symmetric]) auto
qed

lemma has_bits_7: "((h :: uint32) AND 7 \<noteq> 0) = (bit h 0 \<or> bit h 1 \<or> bit h 2)"
proof -
  have "(7 :: uint32) = 1 OR 2 OR 4" by simp
  then have "h AND 7 = (h AND 1) OR (h AND 2) OR (h AND 4)"
    by (simp only: bit.conj_disj_distrib)
  then show ?thesis
    by (simp only: or_eq_0_iff has_bit_0 [symmetric] has_bit_1 [symmetric]
        has_bit_2 [symmetric]) auto
qed

section \<open>Properties of Quadratic\<close>

lemma Quadratic_has_linear_bit: "Quadratic_has_linear q = bit (Quadratic_impl_has_bits q) 0"
  by (simp add: Quadratic_has_linear_def has_bit_0)

lemma Quadratic_do_call_consistent:
  assumes "Quadratic_linear_consistent q" and "Quadratic_linear_cleared q"
    and "Quadratic_do_call q c = Inr q'"
  shows "Quadratic_linear_consistent q' \<and> Quadratic_linear_cleared q'"
proof (cases c)
  case (Mutable_linear_with upd)
  then show ?thesis
    using assms
    by (auto simp add: Quadratic_linear_consistent_def Quadratic_linear_cleared_def
        Quadratic_has_linear_bit Quadratic_mutable_linear_def
        Quadratic_internal_mutable_linear_def Let_def bit_simps)
next
  case Release_linear
  then show ?thesis
    using assms
    by (auto simp add: Quadratic_linear_consistent_def Quadratic_linear_cleared_def
        Quadratic_has_linear_bit Quadratic_release_linear_def Let_def bit_simps)
next
  case Unsafe_arena_release_linear
  then show ?thesis
    using assms
    by (auto simp add: Quadratic_linear_consistent_def Quadratic_linear_cleared_def
        Quadratic_has_linear_bit Quadratic_unsafe_arena_release_linear_def Let_def bit_simps)
next
  case (Set_allocated_linear v)
  then show ?thesis
    using assms
    by (cases v) (auto simp add: Quadratic_linear_consistent_def Quadratic_linear_cleared_def
        Quadratic_has_linear_bit Quadratic_set_allocated_linear_def Let_def bit_simps)
next
  case (Unsafe_arena_set_allocated_linear v)
  then show ?thesis
    using assms
    by (cases v) (auto simp add: Quadratic_linear_consistent_def Quadratic_linear_cleared_def
        Quadratic_has_linear_bit Quadratic_unsafe_arena_set_allocated_linear_def Let_def
        bit_simps)
qed (use assms in \<open>auto simp add: Quadratic_linear_consistent_def Quadratic_linear_cleared_def
      Quadratic_has_linear_def
      Quadratic_clear_rows_def Quadratic_set_rows_def Quadratic_add_rows_def
      Quadratic_clear_columns_def Quadratic_set_columns_def Quadratic_add_columns_def
      Quadratic_clear_values_def Quadratic_set_values_def Quadratic_add_values_def
      split: sum.splits\<close>)

lemma Quadratic_do_calls_consistent:
  "Quadratic_linear_consistent q \<Longrightarrow> Quadratic_linear_cleared q \<Longrightarrow>
   Quadratic_do_calls q cs = Inr q' \<Longrightarrow>
   Quadratic_linear_consistent q' \<and> Quadratic_linear_cleared q'"
proof (induction cs arbitrary: q)
  case Nil
  then show ?case by simp
next
  case (Cons c cs)
  from Cons.prems(3) obtain q1 where
    step: "Quadratic_do_call q c = Inr q1" and rest: "Quadratic_do_calls q1 cs = Inr q'"
    by (auto split: sum.splits)
  from Cons.prems(1,2) step
  have "Quadratic_linear_consistent q1 \<and> Quadratic_linear_cleared q1"
    by (rule Quadratic_do_call_consistent)
  then show ?case using rest Cons.IH by blast
qed

lemma Quadratic_default_instance_consistent:
  "Quadratic_linear_consistent Quadratic_default_instance"
  "Quadratic_linear_cleared Quadratic_default_instance"
  by (simp_all add: Quadratic_linear_consistent_def Quadratic_linear_cleared_def
      Quadratic_has_linear_def Quadratic_default_instance_def)

text \<open>
  The methods that quadratic.pb.h only declares keep the two conditions as well:
  \<^verbatim>\<open>clear_linear\<close> establishes them in any Quadratic, \<^verbatim>\<open>Clear\<close> and \<^verbatim>\<open>MergeFrom\<close> keep
  them.
\<close>

lemma Quadratic_clear_linear_linear:
  "Quadratic_linear_consistent (Quadratic_clear_linear q) \<and>
   Quadratic_linear_cleared (Quadratic_clear_linear q)"
  by (cases "Quadratic_impl_linear q")
    (auto simp add: Quadratic_linear_consistent_def Quadratic_linear_cleared_def
      Quadratic_has_linear_bit Quadratic_clear_linear_def Linear_Clear_def
      Linear_default_instance_def Let_def bit_simps)

lemma Quadratic_Clear_linear:
  assumes "Quadratic_linear_consistent q" and "Quadratic_linear_cleared q"
    and "Quadratic_Clear q = Inr q'"
  shows "Quadratic_linear_consistent q' \<and> Quadratic_linear_cleared q'"
  using assms
  by (cases "Quadratic_impl_linear q")
    (auto simp add: Quadratic_linear_consistent_def Quadratic_linear_cleared_def
      Quadratic_has_linear_def Quadratic_Clear_def Linear_Clear_def
      Linear_default_instance_def Let_def split: if_splits)

lemma Quadratic_MergeImpl_linear:
  assumes "Quadratic_linear_consistent q" and "Quadratic_linear_cleared q"
    and "Quadratic_MergeImpl mf q other = Inr q'"
  shows "Quadratic_linear_consistent q' \<and> Quadratic_linear_cleared q'"
proof (cases "Quadratic_impl_has_bits other AND 0x00000001 \<noteq> 0")
  case True
  then obtain l where l: "Quadratic_impl_linear other = Some l"
    using assms(3)
    by (cases "Quadratic_impl_linear other") (auto simp add: Quadratic_MergeImpl_def Let_def)
  have b: "bit (Quadratic_impl_has_bits q OR Quadratic_impl_has_bits other) 0"
    using True by (simp add: has_bit_0 bit_simps)
  show ?thesis
    using assms(3) True l b
    by (cases "Quadratic_impl_linear q")
      (auto simp add: Quadratic_linear_consistent_def Quadratic_linear_cleared_def
        Quadratic_has_linear_bit Quadratic_MergeImpl_def Let_def)
next
  case False
  then have b: "bit (Quadratic_impl_has_bits q OR Quadratic_impl_has_bits other) 0
      = bit (Quadratic_impl_has_bits q) 0"
    by (simp add: has_bit_0 bit_simps)
  show ?thesis
    using assms False b
    by (auto simp add: Quadratic_linear_consistent_def Quadratic_linear_cleared_def
        Quadratic_has_linear_bit Quadratic_MergeImpl_def Let_def)
qed

text \<open>
  C7. The embedded Linear of a Quadratic is optional. \<^verbatim>\<open>linear()\<close> is total: for every
  Quadratic it is the Linear held, and the default Linear instance when the pointer is
  null. Take any Quadratic in which a set has-bit comes with a Linear held (what
  \<^verbatim>\<open>has_linear()\<close> assumes) and in which a Linear kept under a clear has-bit is empty
  (what clearing leaves); the default-constructed Quadratic is one, and so is a
  Quadratic that keeps a cleared Linear under a clear has-bit. After any sequence of
  the operations of quadratic.pb.h the same two conditions hold, \<^verbatim>\<open>has_linear()\<close> is
  true only when a Linear is held (and \<^verbatim>\<open>linear()\<close> is that Linear), and when
  \<^verbatim>\<open>has_linear()\<close> is false \<^verbatim>\<open>linear()\<close> is equal to the default Linear instance: no
  entries and the constant \<open>0.0\<close>.
\<close>

theorem Quadratic_linear_optional:
  "(Quadratic_impl_linear q' = None \<longrightarrow> Quadratic_linear q' = Linear_default_instance) \<and>
   (\<forall>l. Quadratic_impl_linear q' = Some l \<longrightarrow> Quadratic_linear q' = l) \<and>
   (Quadratic_linear_consistent q0 \<and> Quadratic_linear_cleared q0 \<and>
    Quadratic_do_calls q0 cs = Inr q \<longrightarrow>
      Quadratic_linear_consistent q \<and> Quadratic_linear_cleared q \<and>
      (\<not> Quadratic_has_linear q \<longrightarrow>
         Quadratic_linear q = Linear_default_instance \<and>
         Linear_impl_terms (Quadratic_linear q) = [] \<and>
         Linear_impl_constant (Quadratic_linear q) = 0) \<and>
      (Quadratic_has_linear q \<longrightarrow>
         Quadratic_impl_linear q = Some (Quadratic_linear q)))"
proof -
  have t: "Quadratic_impl_linear q' = None \<longrightarrow> Quadratic_linear q' = Linear_default_instance"
    "\<forall>l. Quadratic_impl_linear q' = Some l \<longrightarrow> Quadratic_linear q' = l"
    by (simp_all add: Quadratic_linear_def Quadratic_internal_linear_def)
  have i: "Quadratic_linear_consistent q0 \<and> Quadratic_linear_cleared q0 \<and>
    Quadratic_do_calls q0 cs = Inr q \<longrightarrow>
      Quadratic_linear_consistent q \<and> Quadratic_linear_cleared q \<and>
      (\<not> Quadratic_has_linear q \<longrightarrow>
         Quadratic_linear q = Linear_default_instance \<and>
         Linear_impl_terms (Quadratic_linear q) = [] \<and>
         Linear_impl_constant (Quadratic_linear q) = 0) \<and>
      (Quadratic_has_linear q \<longrightarrow>
         Quadratic_impl_linear q = Some (Quadratic_linear q))"
  proof
    assume h: "Quadratic_linear_consistent q0 \<and> Quadratic_linear_cleared q0 \<and>
      Quadratic_do_calls q0 cs = Inr q"
    then have "Quadratic_linear_consistent q \<and> Quadratic_linear_cleared q"
      using Quadratic_do_calls_consistent [of q0 cs q] by blast
    then show "Quadratic_linear_consistent q \<and> Quadratic_linear_cleared q \<and>
      (\<not> Quadratic_has_linear q \<longrightarrow>
         Quadratic_linear q = Linear_default_instance \<and>
         Linear_impl_terms (Quadratic_linear q) = [] \<and>
         Linear_impl_constant (Quadratic_linear q) = 0) \<and>
      (Quadratic_has_linear q \<longrightarrow>
         Quadratic_impl_linear q = Some (Quadratic_linear q))"
      by (auto simp add: Quadratic_linear_consistent_def Quadratic_linear_cleared_def
          Quadratic_linear_def Quadratic_internal_linear_def Linear_default_instance_def
          split: if_splits option.splits)
  qed
  show ?thesis using t i by (intro conjI)
qed

theorem Quadratic_linear_optional_witness:
  "Quadratic_clear_linear
     (Quadratic_mutable_linear (\<lambda>l. l\<lparr>Linear_impl_constant := 3\<rparr>) Quadratic_default_instance)
   = \<lparr>Quadratic_impl_has_bits = 0, Quadratic_impl_rows = [], Quadratic_impl_columns = [],
      Quadratic_impl_values = [], Quadratic_impl_linear = Some Linear_default_instance,
      Quadratic_internal_metadata = []\<rparr> \<and>
   Quadratic_linear_consistent
     \<lparr>Quadratic_impl_has_bits = 0, Quadratic_impl_rows = [], Quadratic_impl_columns = [],
      Quadratic_impl_values = [], Quadratic_impl_linear = Some Linear_default_instance,
      Quadratic_internal_metadata = []\<rparr> \<and>
   Quadratic_linear_cleared
     \<lparr>Quadratic_impl_has_bits = 0, Quadratic_impl_rows = [], Quadratic_impl_columns = [],
      Quadratic_impl_values = [], Quadratic_impl_linear = Some Linear_default_instance,
      Quadratic_internal_metadata = []\<rparr> \<and>
   Quadratic_do_calls
     \<lparr>Quadratic_impl_has_bits = 0, Quadratic_impl_rows = [], Quadratic_impl_columns = [],
      Quadratic_impl_values = [], Quadratic_impl_linear = Some Linear_default_instance,
      Quadratic_internal_metadata = []\<rparr> [Add_rows 1]
   = Inr \<lparr>Quadratic_impl_has_bits = 0, Quadratic_impl_rows = [1], Quadratic_impl_columns = [],
          Quadratic_impl_values = [], Quadratic_impl_linear = Some Linear_default_instance,
          Quadratic_internal_metadata = []\<rparr> \<and>
   \<not> Quadratic_has_linear
        \<lparr>Quadratic_impl_has_bits = 0, Quadratic_impl_rows = [1], Quadratic_impl_columns = [],
         Quadratic_impl_values = [], Quadratic_impl_linear = Some Linear_default_instance,
         Quadratic_internal_metadata = []\<rparr> \<and>
   Quadratic_linear
        \<lparr>Quadratic_impl_has_bits = 0, Quadratic_impl_rows = [1], Quadratic_impl_columns = [],
         Quadratic_impl_values = [], Quadratic_impl_linear = Some Linear_default_instance,
         Quadratic_internal_metadata = []\<rparr> = Linear_default_instance \<and>
   Quadratic_linear_consistent Quadratic_default_instance \<and>
   Quadratic_linear_cleared Quadratic_default_instance \<and>
   Quadratic_do_calls Quadratic_default_instance
     [Add_rows 1, Mutable_linear_with (\<lambda>l. l\<lparr>Linear_impl_constant := 3\<rparr>), Release_linear]
   = Inr \<lparr>Quadratic_impl_has_bits = 0, Quadratic_impl_rows = [1], Quadratic_impl_columns = [],
          Quadratic_impl_values = [], Quadratic_impl_linear = None,
          Quadratic_internal_metadata = []\<rparr> \<and>
   \<not> Quadratic_has_linear
        \<lparr>Quadratic_impl_has_bits = 0, Quadratic_impl_rows = [1], Quadratic_impl_columns = [],
         Quadratic_impl_values = [], Quadratic_impl_linear = None,
         Quadratic_internal_metadata = []\<rparr> \<and>
   Quadratic_linear
        \<lparr>Quadratic_impl_has_bits = 0, Quadratic_impl_rows = [1], Quadratic_impl_columns = [],
         Quadratic_impl_values = [], Quadratic_impl_linear = None,
         Quadratic_internal_metadata = []\<rparr> = Linear_default_instance \<and>
   Quadratic_do_calls Quadratic_default_instance
     [Mutable_linear_with (\<lambda>l. l\<lparr>Linear_impl_constant := 3\<rparr>)]
   = Inr \<lparr>Quadratic_impl_has_bits = 1, Quadratic_impl_rows = [], Quadratic_impl_columns = [],
          Quadratic_impl_values = [],
          Quadratic_impl_linear = Some \<lparr>Linear_impl_terms = [], Linear_impl_constant = 3\<rparr>,
          Quadratic_internal_metadata = []\<rparr> \<and>
   Quadratic_has_linear
        \<lparr>Quadratic_impl_has_bits = 1, Quadratic_impl_rows = [], Quadratic_impl_columns = [],
         Quadratic_impl_values = [],
         Quadratic_impl_linear = Some \<lparr>Linear_impl_terms = [], Linear_impl_constant = 3\<rparr>,
         Quadratic_internal_metadata = []\<rparr> \<and>
   Quadratic_linear
        \<lparr>Quadratic_impl_has_bits = 1, Quadratic_impl_rows = [], Quadratic_impl_columns = [],
         Quadratic_impl_values = [],
         Quadratic_impl_linear = Some \<lparr>Linear_impl_terms = [], Linear_impl_constant = 3\<rparr>,
         Quadratic_internal_metadata = []\<rparr>
     = \<lparr>Linear_impl_terms = [], Linear_impl_constant = 3\<rparr>"
proof -
  let ?k = "\<lparr>Quadratic_impl_has_bits = 0, Quadratic_impl_rows = [], Quadratic_impl_columns = [],
      Quadratic_impl_values = [], Quadratic_impl_linear = Some Linear_default_instance,
      Quadratic_internal_metadata = []\<rparr>"
  let ?k1 = "\<lparr>Quadratic_impl_has_bits = 0, Quadratic_impl_rows = [1], Quadratic_impl_columns = [],
      Quadratic_impl_values = [], Quadratic_impl_linear = Some Linear_default_instance,
      Quadratic_internal_metadata = []\<rparr>"
  let ?r = "\<lparr>Quadratic_impl_has_bits = 0, Quadratic_impl_rows = [1], Quadratic_impl_columns = [],
      Quadratic_impl_values = [], Quadratic_impl_linear = None,
      Quadratic_internal_metadata = []\<rparr>"
  let ?m = "\<lparr>Quadratic_impl_has_bits = 1, Quadratic_impl_rows = [], Quadratic_impl_columns = [],
      Quadratic_impl_values = [],
      Quadratic_impl_linear = Some \<lparr>Linear_impl_terms = [], Linear_impl_constant = 3\<rparr>,
      Quadratic_internal_metadata = []\<rparr>"
  have cl: "Quadratic_clear_linear
     (Quadratic_mutable_linear (\<lambda>l. l\<lparr>Linear_impl_constant := 3\<rparr>) Quadratic_default_instance)
     = ?k"
    by (simp add: Quadratic_default_instance_def Quadratic_mutable_linear_def
        Quadratic_internal_mutable_linear_def Quadratic_clear_linear_def Linear_Clear_def
        Linear_default_instance_def Let_def)
  have k: "Quadratic_linear_consistent ?k" "Quadratic_linear_cleared ?k"
    by (simp_all add: Quadratic_linear_consistent_def Quadratic_linear_cleared_def
        Quadratic_has_linear_def)
  have d: "Quadratic_linear_consistent Quadratic_default_instance"
    "Quadratic_linear_cleared Quadratic_default_instance"
    by (simp_all add: Quadratic_linear_consistent_def Quadratic_linear_cleared_def
        Quadratic_has_linear_def Quadratic_default_instance_def)
  have e: "Quadratic_do_calls ?k [Add_rows 1] = Inr ?k1"
    by (simp add: Quadratic_add_rows_def)
  have a: "Quadratic_do_calls Quadratic_default_instance
     [Add_rows 1, Mutable_linear_with (\<lambda>l. l\<lparr>Linear_impl_constant := 3\<rparr>), Release_linear]
     = Inr ?r"
    by (simp add: Quadratic_default_instance_def Quadratic_add_rows_def
        Quadratic_mutable_linear_def Quadratic_internal_mutable_linear_def
        Quadratic_release_linear_def Linear_default_instance_def Let_def)
  have b: "Quadratic_do_calls Quadratic_default_instance
     [Mutable_linear_with (\<lambda>l. l\<lparr>Linear_impl_constant := 3\<rparr>)] = Inr ?m"
    by (simp add: Quadratic_default_instance_def
        Quadratic_mutable_linear_def Quadratic_internal_mutable_linear_def
        Linear_default_instance_def Let_def)
  note we = Quadratic_linear_optional [where ?q0.0 = "?k" and cs = "[Add_rows 1]" and q = "?k1"
      and q' = Quadratic_default_instance]
  note wa = Quadratic_linear_optional [where ?q0.0 = Quadratic_default_instance
      and cs = "[Add_rows 1, Mutable_linear_with (\<lambda>l. l\<lparr>Linear_impl_constant := 3\<rparr>),
                 Release_linear]"
      and q = "?r" and q' = Quadratic_default_instance]
  note wb = Quadratic_linear_optional [where ?q0.0 = Quadratic_default_instance
      and cs = "[Mutable_linear_with (\<lambda>l. l\<lparr>Linear_impl_constant := 3\<rparr>)]"
      and q = "?m" and q' = Quadratic_default_instance]
  have ne: "\<not> Quadratic_has_linear ?k1" by (simp add: Quadratic_has_linear_def)
  have na: "\<not> Quadratic_has_linear ?r" by (simp add: Quadratic_has_linear_def)
  have hb: "Quadratic_has_linear ?m" by (simp add: Quadratic_has_linear_def)
  note ie = we [THEN conjunct2, THEN conjunct2, rule_format, OF conjI [OF k(1) conjI [OF k(2) e]]]
  note ia = wa [THEN conjunct2, THEN conjunct2, rule_format, OF conjI [OF d(1) conjI [OF d(2) a]]]
  note ib = wb [THEN conjunct2, THEN conjunct2, rule_format, OF conjI [OF d(1) conjI [OF d(2) b]]]
  have le: "Quadratic_linear ?k1 = Linear_default_instance"
    using ie [THEN conjunct2, THEN conjunct2, THEN conjunct1] ne by simp
  have la: "Quadratic_linear ?r = Linear_default_instance"
    using ia [THEN conjunct2, THEN conjunct2, THEN conjunct1] na by simp
  have "Quadratic_impl_linear ?m = Some (Quadratic_linear ?m)"
    using ib [THEN conjunct2, THEN conjunct2, THEN conjunct2] hb by simp
  then have lb: "Quadratic_linear ?m = \<lparr>Linear_impl_terms = [], Linear_impl_constant = 3\<rparr>"
    by simp
  show ?thesis
    using cl k e ne le d a na la b hb lb by (intro conjI)
qed

section \<open>Properties of Instance.Description and Instance\<close>

lemma Instance_Description_CopyConstruct_eq: "Instance_Description_CopyConstruct e = e"
  by (simp add: Instance_Description_CopyConstruct_def)

lemma Instance_Description_Clear_consistent:
  assumes "Instance_Description_consistent d"
  shows "Instance_Description_Clear d = Instance_Description_default_instance"
  using assms
  by (auto simp add: Instance_Description_consistent_def Instance_Description_Clear_def
      Instance_Description_has_name_def Instance_Description_has_description_def
      Instance_Description_has_created_by_def Instance_Description_default_instance_def
      has_bit_0 has_bit_1 has_bit_2 has_bits_7 Let_def)

lemma or_absorb_has_bit:
  fixes c h :: uint32
  shows "c AND 1 \<noteq> 0 \<Longrightarrow> (h OR 1) OR c = h OR c"
    and "c AND 2 \<noteq> 0 \<Longrightarrow> (h OR 2) OR c = h OR c"
    and "c AND 4 \<noteq> 0 \<Longrightarrow> (h OR 4) OR c = h OR c"
  unfolding has_bit_0 has_bit_1 has_bit_2
  by (rule bit_eqI; auto simp add: bit_simps bit_mask_1 bit_mask_2 bit_mask_4
      simp del: bit_numeral_word_iff)+

lemma Instance_Description_setters_sel:
  "Description_impl_authors (Instance_Description_internal_set_name v d) = Description_impl_authors d"
  "Description_impl_authors (Instance_Description_internal_set_description v d) = Description_impl_authors d"
  "Description_impl_authors (Instance_Description_internal_set_created_by v d) = Description_impl_authors d"
  "Description_impl_name (Instance_Description_internal_set_name v d) = v"
  "Description_impl_name (Instance_Description_internal_set_description v d) = Description_impl_name d"
  "Description_impl_name (Instance_Description_internal_set_created_by v d) = Description_impl_name d"
  "Description_impl_description (Instance_Description_internal_set_name v d) = Description_impl_description d"
  "Description_impl_description (Instance_Description_internal_set_description v d) = v"
  "Description_impl_description (Instance_Description_internal_set_created_by v d) = Description_impl_description d"
  "Description_impl_created_by (Instance_Description_internal_set_name v d) = Description_impl_created_by d"
  "Description_impl_created_by (Instance_Description_internal_set_description v d) = Description_impl_created_by d"
  "Description_impl_created_by (Instance_Description_internal_set_created_by v d) = v"
  "Description_internal_metadata (Instance_Description_internal_set_name v d) = Description_internal_metadata d"
  "Description_internal_metadata (Instance_Description_internal_set_description v d) = Description_internal_metadata d"
  "Description_internal_metadata (Instance_Description_internal_set_created_by v d) = Description_internal_metadata d"
  by (simp_all add: Instance_Description_internal_set_name_def
      Instance_Description_internal_set_description_def
      Instance_Description_internal_set_created_by_def)

lemma Instance_Description_setters_has_bits:
  "c AND 1 \<noteq> 0 \<Longrightarrow>
     Description_impl_has_bits (Instance_Description_internal_set_name v d) OR c
     = Description_impl_has_bits d OR c"
  "c AND 2 \<noteq> 0 \<Longrightarrow>
     Description_impl_has_bits (Instance_Description_internal_set_description v d) OR c
     = Description_impl_has_bits d OR c"
  "c AND 4 \<noteq> 0 \<Longrightarrow>
     Description_impl_has_bits (Instance_Description_internal_set_created_by v d) OR c
     = Description_impl_has_bits d OR c"
  by (simp_all add: Instance_Description_internal_set_name_def
      Instance_Description_internal_set_description_def
      Instance_Description_internal_set_created_by_def or_absorb_has_bit)

lemma and_7_iff:
  "((c :: uint32) AND 7 \<noteq> 0) = (c AND 1 \<noteq> 0 \<or> c AND 2 \<noteq> 0 \<or> c AND 4 \<noteq> 0)"
  by (simp only: has_bits_7 has_bit_0 has_bit_1 has_bit_2)

lemma Instance_Description_MergeImpl_sel:
  "Description_impl_has_bits (Instance_Description_MergeImpl t f)
     = Description_impl_has_bits t OR Description_impl_has_bits f"
  "Description_impl_authors (Instance_Description_MergeImpl t f)
     = Description_impl_authors t @ Description_impl_authors f"
  "Description_impl_name (Instance_Description_MergeImpl t f)
     = (if Instance_Description_has_name f then Description_impl_name f
        else Description_impl_name t)"
  "Description_impl_description (Instance_Description_MergeImpl t f)
     = (if Instance_Description_has_description f then Description_impl_description f
        else Description_impl_description t)"
  "Description_impl_created_by (Instance_Description_MergeImpl t f)
     = (if Instance_Description_has_created_by f then Description_impl_created_by f
        else Description_impl_created_by t)"
  "Description_internal_metadata (Instance_Description_MergeImpl t f)
     = Description_internal_metadata t @ Description_internal_metadata f"
  by (simp_all add: Instance_Description_MergeImpl_def Let_def and_7_iff
      Instance_Description_setters_sel Instance_Description_setters_has_bits
      Instance_Description_has_name_def Instance_Description_has_description_def
      Instance_Description_has_created_by_def
      Instance_Description_internal_name_def Instance_Description_internal_description_def
      Instance_Description_internal_created_by_def Instance_Description_internal_authors_def)

lemma Instance_Description_MergeImpl_default:
  assumes "Instance_Description_consistent e"
  shows "Instance_Description_MergeImpl Instance_Description_default_instance e = e"
  using assms
  by (intro Instance_Description.equality)
    (auto simp add: Instance_Description_MergeImpl_sel Instance_Description_consistent_def
      Instance_Description_default_instance_def)


lemma Function_fields_equal_refl: "Function_fields_equal f f"
  by (simp add: Function_fields_equal_def)

lemma Function_fields_equal_sym: "Function_fields_equal f g \<Longrightarrow> Function_fields_equal g f"
  by (simp add: Function_fields_equal_def)

lemma Function_fields_equal_trans:
  "Function_fields_equal f g \<Longrightarrow> Function_fields_equal g k \<Longrightarrow> Function_fields_equal f k"
  by (simp add: Function_fields_equal_def)

lemma Instance_Description_CopyFrom_self:
  "Instance_Description_CopyFrom this this h = Inr h"
  by (simp add: Instance_Description_CopyFrom_def)

lemma Instance_Description_CopyFrom_other:
  assumes "from \<noteq> this"
    and "Instance_Description_consistent (h this)"
    and "Instance_Description_consistent (h from)"
  shows "Instance_Description_CopyFrom this from h = Inr (h(this := h from))"
  using assms
  by (simp add: Instance_Description_CopyFrom_def Instance_Description_MergeFrom_at_def
      Instance_Description_Clear_at_def Instance_Description_Clear_consistent
      Instance_Description_MergeImpl_default)

lemma Instance_Clear_eq:
  assumes "Instance_has_description x \<longrightarrow> Instance_impl_description x \<noteq> None"
    and "Instance_has_objective x \<longrightarrow> Instance_impl_objective x \<noteq> None"
  shows "Instance_Clear fm x =
     Inr \<lparr>Instance_impl_has_bits = 0, Instance_impl_decision_variables = [],
          Instance_impl_constraints = [],
          Instance_impl_description =
            (if Instance_has_description x
             then map_option Instance_Description_Clear (Instance_impl_description x)
             else Instance_impl_description x),
          Instance_impl_objective =
            (if Instance_has_objective x
             then map_option (Function_Clear fm) (Instance_impl_objective x)
             else Instance_impl_objective x),
          Instance_impl_sense = 0, Instance_internal_metadata = []\<rparr>"
  using assms
  by (auto simp add: Instance_Clear_def Instance_has_description_def Instance_has_objective_def
      Let_def)

lemma Instance_MergeImpl_eq:
  assumes "Instance_has_description y \<longrightarrow> Instance_impl_description y \<noteq> None"
    and "Instance_has_objective y \<longrightarrow> Instance_impl_objective y \<noteq> None"
  shows "Instance_MergeImpl fm t y =
     Inr \<lparr>Instance_impl_has_bits = Instance_impl_has_bits t OR Instance_impl_has_bits y,
          Instance_impl_decision_variables =
            Instance_impl_decision_variables t @ Instance_impl_decision_variables y,
          Instance_impl_constraints = Instance_impl_constraints t @ Instance_impl_constraints y,
          Instance_impl_description =
            (if Instance_has_description y
             then (case Instance_impl_description t of
                     None \<Rightarrow> map_option Instance_Description_CopyConstruct
                               (Instance_impl_description y)
                   | Some d \<Rightarrow> map_option (Instance_Description_MergeImpl d)
                               (Instance_impl_description y))
             else Instance_impl_description t),
          Instance_impl_objective =
            (if Instance_has_objective y
             then (case Instance_impl_objective t of
                     None \<Rightarrow> map_option (Function_CopyConstruct fm) (Instance_impl_objective y)
                   | Some f \<Rightarrow> map_option (Function_MergeFrom fm f) (Instance_impl_objective y))
             else Instance_impl_objective t),
          Instance_impl_sense =
            (if Instance_impl_sense y \<noteq> 0 then Instance_impl_sense y else Instance_impl_sense t),
          Instance_internal_metadata =
            Instance_internal_metadata t @ Instance_internal_metadata y\<rparr>"
  using assms
  by (auto simp add: Instance_MergeImpl_def Instance_has_description_def Instance_has_objective_def
      Instance_internal_sense_def Let_def split: option.splits)

lemma Instance_consistent_held:
  assumes "Instance_consistent x"
  shows "Instance_has_description x \<longrightarrow> Instance_impl_description x \<noteq> None"
    and "Instance_has_objective x \<longrightarrow> Instance_impl_objective x \<noteq> None"
  using assms by (auto simp add: Instance_consistent_def split: if_splits option.splits)


lemma Instance_cleared_description:
  assumes "Instance_consistent x"
  shows "(if Instance_has_description x
          then map_option Instance_Description_Clear (Instance_impl_description x)
          else Instance_impl_description x)
         \<in> {None, Some Instance_Description_default_instance}"
  using assms
  by (auto simp add: Instance_consistent_def Instance_Description_Clear_consistent
      split: if_splits option.splits)

lemma Instance_cleared_objective:
  assumes "Instance_consistent x" and "Function_methods_lawful fm"
    and "(if Instance_has_objective x
          then map_option (Function_Clear fm) (Instance_impl_objective x)
          else Instance_impl_objective x) = Some f"
  shows "Function_fields_equal f Function_default_instance"
  using assms
  by (auto simp add: Instance_consistent_def Function_methods_lawful_def
      split: if_splits option.splits)

lemma Instance_CopyFrom_other:
  assumes law: "Function_methods_lawful fm"
    and ne: "from \<noteq> this"
    and cx: "Instance_consistent (h this)"
    and cy: "Instance_consistent (h from)"
  shows "\<exists>x. Instance_CopyFrom fm this from h = Inr (h(this := x)) \<and>
             Instance_fields_equal x (h from)"
proof -
  let ?x = "h this" and ?y = "h from"
  define cd where "cd = (if Instance_has_description ?x
          then map_option Instance_Description_Clear (Instance_impl_description ?x)
          else Instance_impl_description ?x)"
  define co where "co = (if Instance_has_objective ?x
          then map_option (Function_Clear fm) (Instance_impl_objective ?x)
          else Instance_impl_objective ?x)"
  define xc :: "('a, 'b) Instance" where "xc =
     \<lparr>Instance_impl_has_bits = 0, Instance_impl_decision_variables = [],
      Instance_impl_constraints = [], Instance_impl_description = cd,
      Instance_impl_objective = co, Instance_impl_sense = 0,
      Instance_internal_metadata = []\<rparr>"
  have clear: "Instance_Clear fm ?x = Inr xc"
    unfolding xc_def cd_def co_def
    by (rule Instance_Clear_eq) (rule Instance_consistent_held [OF cx])+
  obtain r where merge: "Instance_MergeImpl fm xc ?y = Inr r"
    and r: "r = \<lparr>Instance_impl_has_bits = Instance_impl_has_bits xc OR Instance_impl_has_bits ?y,
          Instance_impl_decision_variables =
            Instance_impl_decision_variables xc @ Instance_impl_decision_variables ?y,
          Instance_impl_constraints = Instance_impl_constraints xc @ Instance_impl_constraints ?y,
          Instance_impl_description =
            (if Instance_has_description ?y
             then (case Instance_impl_description xc of
                     None \<Rightarrow> map_option Instance_Description_CopyConstruct
                               (Instance_impl_description ?y)
                   | Some d \<Rightarrow> map_option (Instance_Description_MergeImpl d)
                               (Instance_impl_description ?y))
             else Instance_impl_description xc),
          Instance_impl_objective =
            (if Instance_has_objective ?y
             then (case Instance_impl_objective xc of
                     None \<Rightarrow> map_option (Function_CopyConstruct fm) (Instance_impl_objective ?y)
                   | Some f \<Rightarrow> map_option (Function_MergeFrom fm f) (Instance_impl_objective ?y))
             else Instance_impl_objective xc),
          Instance_impl_sense =
            (if Instance_impl_sense ?y \<noteq> 0 then Instance_impl_sense ?y else Instance_impl_sense xc),
          Instance_internal_metadata =
            Instance_internal_metadata xc @ Instance_internal_metadata ?y\<rparr>"
    using Instance_MergeImpl_eq [OF Instance_consistent_held [OF cy], of fm xc] by blast
  have copy: "Instance_CopyFrom fm this from h = Inr (h(this := r))"
    using ne clear merge
    by (simp add: Instance_CopyFrom_def Instance_Clear_at_def Instance_MergeFrom_at_def)
  have cd: "cd = None \<or> cd = Some Instance_Description_default_instance"
    using Instance_cleared_description [OF cx] by (simp add: cd_def)
  have co: "\<And>f. co = Some f \<Longrightarrow> Function_fields_equal f Function_default_instance"
    using Instance_cleared_objective [OF cx law] by (simp add: co_def)
  have hb: "Instance_impl_has_bits r = Instance_impl_has_bits ?y"
    by (simp add: r xc_def)
  have d: "Instance_description r = Instance_description ?y"
  proof (cases "Instance_has_description ?y")
    case True
    then obtain e where e: "Instance_impl_description ?y = Some e"
      and ce: "Instance_Description_consistent e"
      using cy by (auto simp add: Instance_consistent_def split: option.splits)
    show ?thesis
      using cd True e ce
      by (auto simp add: r xc_def Instance_description_def Instance_Description_CopyConstruct_eq
          Instance_Description_MergeImpl_default)
  next
    case False
    then have "Instance_impl_description ?y = None \<or>
        Instance_impl_description ?y = Some Instance_Description_default_instance"
      using cy by (auto simp add: Instance_consistent_def split: option.splits)
    then show ?thesis
      using cd False by (auto simp add: r xc_def Instance_description_def)
  qed
  have o: "Function_fields_equal (Instance_objective r) (Instance_objective ?y)"
  proof (cases "Instance_has_objective ?y")
    case True
    then obtain g where g: "Instance_impl_objective ?y = Some g"
      using cy by (auto simp add: Instance_consistent_def split: option.splits)
    show ?thesis
    proof (cases co)
      case None
      then show ?thesis
        using True g law
        by (simp add: r xc_def Instance_objective_def Function_methods_lawful_def)
    next
      case (Some f)
      then have "Function_fields_equal f Function_default_instance" by (rule co)
      then have "Function_fields_equal (Function_MergeFrom fm f g) g"
        using law by (simp add: Function_methods_lawful_def)
      then show ?thesis
        using True g Some by (simp add: r xc_def Instance_objective_def)
    qed
  next
    case False
    have y: "Function_fields_equal (Instance_objective ?y) Function_default_instance"
      using cy False
      by (auto simp add: Instance_consistent_def Instance_objective_def
          Function_fields_equal_refl split: option.splits)
    have "Function_fields_equal (Instance_objective r) Function_default_instance"
      using False co
      by (cases co) (simp_all add: r xc_def Instance_objective_def Function_fields_equal_refl)
    then show ?thesis
      using y Function_fields_equal_sym Function_fields_equal_trans by blast
  qed
  have "Instance_fields_equal r ?y"
    unfolding Instance_fields_equal_def
    using d o hb
    by (simp add: Instance_has_description_def Instance_has_objective_def
        Instance_internal_sense_def Instance_Description_fields_equal_def) (simp add: r xc_def)
  then show ?thesis using copy by blast
qed

lemma Function_methods_oneof_lawful: "Function_methods_lawful Function_methods_oneof"
  unfolding Function_methods_lawful_def
proof (intro conjI allI impI)
  fix f
  show "Function_fields_equal (Function_Clear Function_methods_oneof f) Function_default_instance"
    by (simp add: Function_methods_oneof_def Function_fields_equal_def
        Function_clear_function_def Function_clear_has_function_def
        Function_default_instance_def Function_function_case_def
        Function_constant_def Function_internal_constant_def
        Function_linear_def Function_internal_linear_def
        Function_quadratic_def Function_internal_quadratic_def
        Function_polynomial_def Function_internal_polynomial_def
        FUNCTION_NOT_SET_def kConstant_def kLinear_def kQuadratic_def kPolynomial_def)
next
  fix f g
  assume "Function_fields_equal f Function_default_instance"
  then have f: "Function_impl_oneof_case f = 0" "Function_internal_metadata f = []"
    by (simp_all add: Function_fields_equal_def Function_function_case_def
        Function_default_instance_def)
  show "Function_fields_equal (Function_MergeFrom Function_methods_oneof f g) g"
    using f
    by (simp add: Function_methods_oneof_def Function_fields_equal_def
        Function_function_case_def
        Function_constant_def Function_internal_constant_def
        Function_linear_def Function_internal_linear_def
        Function_quadratic_def Function_internal_quadratic_def
        Function_polynomial_def Function_internal_polynomial_def
        FUNCTION_NOT_SET_def kConstant_def kLinear_def kQuadratic_def kPolynomial_def)
next
  fix g
  show "Function_fields_equal (Function_CopyConstruct Function_methods_oneof g) g"
    by (simp add: Function_methods_oneof_def Function_fields_equal_refl)
qed

lemma example_Description_consistent:
  "Instance_Description_consistent example_Description_a"
  "Instance_Description_consistent example_Description_b"
  by (simp_all add: Instance_Description_consistent_def example_Description_a_def
      example_Description_b_def Instance_Description_has_name_def
      Instance_Description_has_description_def Instance_Description_has_created_by_def)

lemma example_Instance_consistent:
  "Instance_consistent example_Instance_a"
  "Instance_consistent example_Instance_b"
  by (simp_all add: Instance_consistent_def example_Instance_a_def example_Instance_b_def
      Instance_has_description_def Instance_has_objective_def example_Description_consistent)

text \<open>
  C9. \<^verbatim>\<open>CopyFrom\<close> is safe under self-assignment and otherwise a full overwrite. For
  Instance.Description and for Instance: copying a message from its own address leaves
  the store as it is; copying from another address is \<^verbatim>\<open>Clear\<close> followed by
  \<^verbatim>\<open>MergeFrom\<close>, it does not fail, it changes no other message, and it leaves the
  destination field-for-field equal to the source (for a Description, equal). The
  messages are in the state the generated methods keep, and the methods of Function
  that are not among the sources are any that satisfy \<open>Function_methods_lawful\<close>.
\<close>

theorem CopyFrom_self_and_overwrite:
  assumes "Function_methods_lawful fm"
    and "Instance_consistent (h this)" and "Instance_consistent (h from)"
    and "Instance_Description_consistent (k this)"
    and "Instance_Description_consistent (k from)"
    and "from \<noteq> this"
  shows "Instance_Description_CopyFrom this this k = Inr k \<and>
         Instance_CopyFrom fm this this h = Inr h \<and>
         Instance_Description_CopyFrom this from k
           = Instance_Description_MergeFrom_at this from
               (Instance_Description_Clear_at this k) \<and>
         Instance_Description_CopyFrom this from k = Inr (k(this := k from)) \<and>
         Instance_CopyFrom fm this from h
           = (case Instance_Clear_at fm this h of
                Inl e \<Rightarrow> Inl e
              | Inr h1 \<Rightarrow> Instance_MergeFrom_at fm this from h1) \<and>
         (\<exists>x. Instance_CopyFrom fm this from h = Inr (h(this := x)) \<and>
              Instance_fields_equal x (h from))"
proof -
  have "Instance_Description_CopyFrom this from k = Inr (k(this := k from))"
    using assms(6,4,5) by (rule Instance_Description_CopyFrom_other)
  moreover have "\<exists>x. Instance_CopyFrom fm this from h = Inr (h(this := x)) \<and>
      Instance_fields_equal x (h from)"
    using assms(1,6,2,3) by (rule Instance_CopyFrom_other)
  ultimately show ?thesis
    using assms(6)
    by (simp add: Instance_Description_CopyFrom_def Instance_CopyFrom_def)
qed

theorem CopyFrom_self_and_overwrite_witness:
  "Function_methods_lawful Function_methods_oneof \<and>
   Instance_consistent example_Instance_a \<and> Instance_consistent example_Instance_b \<and>
   Instance_Description_consistent example_Description_a \<and>
   Instance_Description_consistent example_Description_b \<and>
   Instance_Description_CopyFrom 0 1 (\<lambda>a. if a = 0 then example_Description_b else example_Description_a)
     = Inr (\<lambda>a. example_Description_a) \<and>
   Instance_CopyFrom Function_methods_oneof 0 0
       (\<lambda>a. if a = 0 then example_Instance_b else example_Instance_a)
     = Inr (\<lambda>a. if a = 0 then example_Instance_b else example_Instance_a) \<and>
   (\<exists>x. Instance_CopyFrom Function_methods_oneof 0 1
           (\<lambda>a. if a = 0 then example_Instance_b else example_Instance_a)
         = Inr (\<lambda>a. if a = 0 then x else example_Instance_a) \<and>
        Instance_fields_equal x example_Instance_a)"
proof -
  let ?h = "\<lambda>a::nat. if a = 0 then example_Instance_b else example_Instance_a"
  let ?k = "\<lambda>a::nat. if a = 0 then example_Description_b else example_Description_a"
  have ne: "(1::nat) \<noteq> 0" by simp
  have fa: "\<And>x. ?h(0 := x) = (\<lambda>a. if a = 0 then x else example_Instance_a)"
    by (simp add: fun_eq_iff)
  have fb: "?k(0 := ?k 1) = (\<lambda>a. example_Description_a)"
    by (simp add: fun_eq_iff)
  have "Instance_consistent (?h 0)" "Instance_consistent (?h 1)"
    "Instance_Description_consistent (?k 0)" "Instance_Description_consistent (?k 1)"
    by (simp_all add: example_Instance_consistent example_Description_consistent)
  note w = CopyFrom_self_and_overwrite [OF Function_methods_oneof_lawful this ne]
  have c2: "Instance_CopyFrom Function_methods_oneof 0 0 ?h = Inr ?h"
    using w by blast
  have c4: "Instance_Description_CopyFrom 0 1 ?k = Inr (?k(0 := ?k 1))"
    using w by blast
  have c6: "\<exists>x. Instance_CopyFrom Function_methods_oneof 0 1 ?h = Inr (?h(0 := x)) \<and>
      Instance_fields_equal x (?h 1)"
    using w by blast
  show ?thesis
    using c2 c4 c6 Function_methods_oneof_lawful example_Instance_consistent
      example_Description_consistent
    unfolding fa fb by simp
qed


text \<open>
  C10. \<^verbatim>\<open>Instance::MergeImpl\<close>, for a source whose submessages with a has-bit are held,
  does not fail and: appends the decision variables and the constraints of the source
  after those of the destination; merges \<^verbatim>\<open>description\<close> and \<^verbatim>\<open>objective\<close> recursively
  when the source has them and the destination holds one (for the Description: authors
  appended, each optional string taken from the source when set there, has-bits ored),
  copies them when the destination holds none, and leaves them alone when the source
  has none; overwrites \<^verbatim>\<open>sense\<close> only when the sense of the source is not zero, so a
  source with sense 0 leaves the sense of the destination unchanged; ors the has-bits
  and appends the unknown fields.
\<close>

theorem Instance_MergeImpl_semantics:
  assumes "Instance_has_description from \<longrightarrow> Instance_impl_description from \<noteq> None"
    and "Instance_has_objective from \<longrightarrow> Instance_impl_objective from \<noteq> None"
  shows "\<exists>r. Instance_MergeImpl fm this from = Inr r \<and>
     Instance_impl_decision_variables r =
       Instance_impl_decision_variables this @ Instance_impl_decision_variables from \<and>
     Instance_impl_constraints r =
       Instance_impl_constraints this @ Instance_impl_constraints from \<and>
     (\<forall>d e. Instance_has_description from \<and> Instance_impl_description this = Some d \<and>
            Instance_impl_description from = Some e \<longrightarrow>
        Instance_impl_description r = Some (Instance_Description_MergeImpl d e) \<and>
        Description_impl_authors (Instance_Description_MergeImpl d e) =
          Description_impl_authors d @ Description_impl_authors e \<and>
        Description_impl_has_bits (Instance_Description_MergeImpl d e) =
          Description_impl_has_bits d OR Description_impl_has_bits e \<and>
        Description_impl_name (Instance_Description_MergeImpl d e) =
          (if Instance_Description_has_name e then Description_impl_name e
           else Description_impl_name d) \<and>
        Description_impl_description (Instance_Description_MergeImpl d e) =
          (if Instance_Description_has_description e then Description_impl_description e
           else Description_impl_description d) \<and>
        Description_impl_created_by (Instance_Description_MergeImpl d e) =
          (if Instance_Description_has_created_by e then Description_impl_created_by e
           else Description_impl_created_by d)) \<and>
     (\<forall>e. Instance_has_description from \<and> Instance_impl_description this = None \<and>
          Instance_impl_description from = Some e \<longrightarrow>
        Instance_impl_description r = Some e) \<and>
     (\<not> Instance_has_description from \<longrightarrow>
        Instance_impl_description r = Instance_impl_description this) \<and>
     (\<forall>f g. Instance_has_objective from \<and> Instance_impl_objective this = Some f \<and>
            Instance_impl_objective from = Some g \<longrightarrow>
        Instance_impl_objective r = Some (Function_MergeFrom fm f g)) \<and>
     (\<forall>g. Instance_has_objective from \<and> Instance_impl_objective this = None \<and>
          Instance_impl_objective from = Some g \<longrightarrow>
        Instance_impl_objective r = Some (Function_CopyConstruct fm g)) \<and>
     (\<not> Instance_has_objective from \<longrightarrow>
        Instance_impl_objective r = Instance_impl_objective this) \<and>
     Instance_internal_sense r =
       (if Instance_internal_sense from \<noteq> 0 then Instance_internal_sense from
        else Instance_internal_sense this) \<and>
     (Instance_internal_sense from = 0 \<longrightarrow>
        Instance_internal_sense r = Instance_internal_sense this) \<and>
     Instance_impl_has_bits r = Instance_impl_has_bits this OR Instance_impl_has_bits from \<and>
     Instance_internal_metadata r =
       Instance_internal_metadata this @ Instance_internal_metadata from"
proof -
  note eq = Instance_MergeImpl_eq [OF assms, of fm this]
  show ?thesis
    unfolding eq
    by (simp add: Instance_internal_sense_def Instance_Description_MergeImpl_sel
        Instance_Description_CopyConstruct_eq)
qed

theorem Instance_MergeImpl_semantics_witness:
  "\<exists>r. Instance_MergeImpl Function_methods_oneof example_Instance_b example_Instance_a = Inr r \<and>
     Instance_impl_decision_variables r = [3, 1] \<and>
     Instance_impl_constraints r = [2] \<and>
     Instance_impl_description r =
       Some (Instance_Description_MergeImpl example_Description_b example_Description_a) \<and>
     Description_impl_authors
       (Instance_Description_MergeImpl example_Description_b example_Description_a)
       = [[67], [65]] \<and>
     Instance_impl_objective r =
       Some (Function_set_constant Function_clear_function 7 Function_default_instance) \<and>
     Instance_internal_sense example_Instance_a = 0 \<and>
     Instance_internal_sense example_Instance_b = 2 \<and>
     Instance_internal_sense r = 2 \<and>
     Instance_impl_has_bits r = 3"
proof -
  have d: "Instance_has_description example_Instance_a \<longrightarrow>
      Instance_impl_description example_Instance_a \<noteq> None"
    by (simp add: example_Instance_a_def)
  have o: "Instance_has_objective example_Instance_a \<longrightarrow>
      Instance_impl_objective example_Instance_a \<noteq> None"
    by (simp add: example_Instance_a_def)
  have hd: "Instance_has_description example_Instance_a"
    by (simp add: example_Instance_a_def Instance_has_description_def)
  have ho: "Instance_has_objective example_Instance_a"
    by (simp add: example_Instance_a_def Instance_has_objective_def)
  from Instance_MergeImpl_semantics [OF d o, of Function_methods_oneof example_Instance_b]
  obtain r where r: "Instance_MergeImpl Function_methods_oneof example_Instance_b
        example_Instance_a = Inr r"
    and dv: "Instance_impl_decision_variables r =
       Instance_impl_decision_variables example_Instance_b @
       Instance_impl_decision_variables example_Instance_a"
    and cs: "Instance_impl_constraints r =
       Instance_impl_constraints example_Instance_b @
       Instance_impl_constraints example_Instance_a"
    and de0: "\<forall>d e. Instance_has_description example_Instance_a \<and>
         Instance_impl_description example_Instance_b = Some d \<and>
         Instance_impl_description example_Instance_a = Some e \<longrightarrow>
        Instance_impl_description r = Some (Instance_Description_MergeImpl d e) \<and>
        Description_impl_authors (Instance_Description_MergeImpl d e) =
          Description_impl_authors d @ Description_impl_authors e \<and>
        Description_impl_has_bits (Instance_Description_MergeImpl d e) =
          Description_impl_has_bits d OR Description_impl_has_bits e \<and>
        Description_impl_name (Instance_Description_MergeImpl d e) =
          (if Instance_Description_has_name e then Description_impl_name e
           else Description_impl_name d) \<and>
        Description_impl_description (Instance_Description_MergeImpl d e) =
          (if Instance_Description_has_description e then Description_impl_description e
           else Description_impl_description d) \<and>
        Description_impl_created_by (Instance_Description_MergeImpl d e) =
          (if Instance_Description_has_created_by e then Description_impl_created_by e
           else Description_impl_created_by d)"
    and ob: "\<forall>g. Instance_has_objective example_Instance_a \<and>
          Instance_impl_objective example_Instance_b = None \<and>
          Instance_impl_objective example_Instance_a = Some g \<longrightarrow>
        Instance_impl_objective r = Some (Function_CopyConstruct Function_methods_oneof g)"
    and se: "Instance_internal_sense example_Instance_a = 0 \<longrightarrow>
        Instance_internal_sense r = Instance_internal_sense example_Instance_b"
    and hb: "Instance_impl_has_bits r =
        Instance_impl_has_bits example_Instance_b OR Instance_impl_has_bits example_Instance_a"
    by (elim exE conjE)
  have de: "Instance_impl_description r =
       Some (Instance_Description_MergeImpl example_Description_b example_Description_a) \<and>
     Description_impl_authors
       (Instance_Description_MergeImpl example_Description_b example_Description_a)
       = Description_impl_authors example_Description_b @
         Description_impl_authors example_Description_a"
    using de0 [rule_format, of example_Description_b example_Description_a] hd
    by (simp add: example_Instance_a_def example_Instance_b_def)
  have "Instance_impl_description r =
       Some (Instance_Description_MergeImpl example_Description_b example_Description_a) \<and>
     Description_impl_authors
       (Instance_Description_MergeImpl example_Description_b example_Description_a)
       = [[67], [65]]"
    using de by (simp add: example_Description_a_def example_Description_b_def)
  moreover have "Instance_impl_objective r =
       Some (Function_set_constant Function_clear_function 7 Function_default_instance)"
    using ob [rule_format, of "Function_set_constant Function_clear_function 7
        Function_default_instance"] ho
    by (simp add: example_Instance_a_def example_Instance_b_def Function_methods_oneof_def)
  moreover have "Instance_internal_sense example_Instance_a = 0"
    "Instance_internal_sense example_Instance_b = 2"
    by (simp_all add: example_Instance_a_def example_Instance_b_def Instance_internal_sense_def)
  moreover have "Instance_impl_has_bits r = 3"
    using hb by (simp add: example_Instance_a_def example_Instance_b_def)
  ultimately show ?thesis
    using r dv cs se
    by (simp add: example_Instance_a_def example_Instance_b_def)
qed

section \<open>Properties of the wire format\<close>

lemma ParseLoop_Nil: "ParseLoop table msg [] = Inr msg"
  by (simp add: ParseLoop.simps)

lemma read_field_Nil: "read_field [] = Inl DecodeError"
  by (simp add: read_field_def read_varint_def eval_nat_numeral)

lemma ParseLoop_field:
  assumes "read_field (c @ rest) = Inr (f, rest)"
  shows "ParseLoop table msg (c @ rest) =
     (case table msg f of Inl e \<Rightarrow> Inl e | Inr msg' \<Rightarrow> ParseLoop table msg' rest)"
proof -
  have "c @ rest \<noteq> []" using assms read_field_Nil by force
  then show ?thesis using assms by (auto simp add: ParseLoop.simps [of table msg "c @ rest"])
qed

lemma ParseLoop_append:
  "ParseLoop table msg a = Inr msg1 \<Longrightarrow> ParseLoop table msg (a @ b) = ParseLoop table msg1 b"
proof (induction table msg a rule: ParseLoop.induct)
  case (1 table msg ptr)
  show ?case
  proof (cases "ptr = []")
    case True
    then show ?thesis using "1.prems" by (simp add: ParseLoop_Nil)
  next
    case False
    then obtain f rest msg' where rf: "read_field ptr = Inr (f, rest)"
      and st: "table msg f = Inr msg'"
      and lp: "ParseLoop table msg' rest = Inr msg1"
      using "1.prems"
      by (auto simp add: ParseLoop.simps [of table msg ptr] split: sum.splits)
    have "ParseLoop table msg' (rest @ b) = ParseLoop table msg1 b"
      using "1.IH" [OF False rf refl st lp] .
    moreover have "read_field (ptr @ b) = Inr (f, rest @ b)"
      using rf by (rule read_field_append)
    ultimately show ?thesis
      using False st by (simp add: ParseLoop.simps [of table msg "ptr @ b"])
  qed
qed

lemma MakeTag_div_mod: "wt < 8 \<Longrightarrow> MakeTag n wt div 8 = n \<and> MakeTag n wt mod 8 = wt"
  by (simp add: MakeTag_def)

lemma read_field_WriteString:
  assumes "0 < n" and "n < 2 ^ 29" and "length s < 2 ^ 31"
  shows "read_field (WriteString n s @ rest)
         = Inr (Wire_field n (LengthDelimited s) (WriteString n s), rest)"
proof -
  let ?tag = "MakeTag n 2"
  have tag: "?tag < 2 ^ 32" "?tag div 8 = n" "?tag mod 8 = 2"
    using assms(2) MakeTag_div_mod [of 2 n] by (simp_all add: MakeTag_def)
  have t64: "?tag < 2 ^ 64" using tag(1) by simp
  have l64: "length s < 2 ^ 64" using assms(3) by simp
  have rt: "read_varint (WriteString n s @ rest) = Some (?tag, varint (length s) @ s @ rest)"
    using read_varint_varint [OF t64, of "varint (length s) @ s @ rest"]
    by (simp add: WriteString_def)
  have rp: "read_payload 2 (varint (length s) @ s @ rest) = Some (LengthDelimited s, rest)"
    using read_varint_varint [OF l64, of "s @ rest"] assms(3)
    by (simp add: read_payload_def)
  have raw: "take (length (WriteString n s @ rest) - length rest) (WriteString n s @ rest)
      = WriteString n s"
    by simp
  show ?thesis
    unfolding read_field_def rt
    using tag assms(1) rp raw by simp
qed

lemma Instance_Description_table_unrecognised:
  "\<not> Instance_Description_recognised f \<Longrightarrow>
   Instance_Description_table d f =
     Inr (d\<lparr>Description_internal_metadata := Description_internal_metadata d @ [wf_raw f]\<rparr>)"
  by (auto simp add: Instance_Description_recognised_def Instance_Description_table_def
      unknown_field_def split: wire_payload.splits)

lemma unknown_chunk_read:
  assumes "unknown_chunk recognised c"
  shows "\<exists>f. read_field (c @ rest) = Inr (f, rest) \<and> wf_raw f = c \<and> \<not> recognised f"
proof -
  from assms obtain f where f: "read_field c = Inr (f, [])" and u: "\<not> recognised f"
    by (auto simp add: unknown_chunk_def split: sum.splits)
  have "wf_raw f = c" using read_field_suffix [OF f] by simp
  moreover have "read_field (c @ rest) = Inr (f, rest)"
    using read_field_append [OF f, of rest] by simp
  ultimately show ?thesis using u by blast
qed

lemma ParseLoop_Description_unknown:
  assumes "\<forall>c \<in> set us. unknown_chunk Instance_Description_recognised c"
  shows "ParseLoop Instance_Description_table d (concat us @ rest)
         = ParseLoop Instance_Description_table
             (d\<lparr>Description_internal_metadata := Description_internal_metadata d @ us\<rparr>) rest"
  using assms
proof (induction us arbitrary: d)
  case Nil
  then show ?case by simp
next
  case (Cons c us)
  then obtain f where rf: "read_field (c @ (concat us @ rest)) = Inr (f, concat us @ rest)"
    and raw: "wf_raw f = c" and un: "\<not> Instance_Description_recognised f"
    using unknown_chunk_read [of Instance_Description_recognised c "concat us @ rest"] by auto
  let ?d = "d\<lparr>Description_internal_metadata := Description_internal_metadata d @ [c]\<rparr>"
  have "ParseLoop Instance_Description_table d (c @ (concat us @ rest))
      = ParseLoop Instance_Description_table ?d (concat us @ rest)"
    using ParseLoop_field [OF rf, of Instance_Description_table d]
      Instance_Description_table_unrecognised [OF un, of d] raw
    by simp
  also have "\<dots> = ParseLoop Instance_Description_table
      (?d\<lparr>Description_internal_metadata := Description_internal_metadata ?d @ us\<rparr>) rest"
    using Cons.prems by (intro Cons.IH) simp
  finally show ?case by simp
qed

lemma ParseLoop_Description_authors:
  assumes "\<forall>s \<in> set as. IsStructurallyValid s \<and> length s < 2 ^ 31"
  shows "ParseLoop Instance_Description_table d (concat (map (WriteString 3) as) @ rest)
         = ParseLoop Instance_Description_table
             (d\<lparr>Description_impl_authors := Description_impl_authors d @ as\<rparr>) rest"
  using assms
proof (induction as arbitrary: d)
  case Nil
  then show ?case by simp
next
  case (Cons s as)
  have rf: "read_field (WriteString 3 s @ (concat (map (WriteString 3) as) @ rest))
      = Inr (Wire_field 3 (LengthDelimited s) (WriteString 3 s),
             concat (map (WriteString 3) as) @ rest)"
    using Cons.prems by (intro read_field_WriteString) simp_all
  let ?d = "Instance_Description_add_authors s d"
  have "ParseLoop Instance_Description_table d
        (WriteString 3 s @ (concat (map (WriteString 3) as) @ rest))
      = ParseLoop Instance_Description_table ?d (concat (map (WriteString 3) as) @ rest)"
    using ParseLoop_field [OF rf, of Instance_Description_table d] Cons.prems
    by (simp add: Instance_Description_table_def)
  also have "\<dots> = ParseLoop Instance_Description_table
      (?d\<lparr>Description_impl_authors := Description_impl_authors ?d @ as\<rparr>) rest"
    using Cons.prems by (intro Cons.IH) simp
  finally show ?case by (simp add: Instance_Description_add_authors_def)
qed

lemma ParseLoop_Description_string:
  assumes "IsStructurallyValid s" and "length s < 2 ^ 31"
  shows "ParseLoop Instance_Description_table d (WriteString 1 s @ rest)
         = ParseLoop Instance_Description_table (Instance_Description_internal_set_name s d) rest"
    and "ParseLoop Instance_Description_table d (WriteString 2 s @ rest)
         = ParseLoop Instance_Description_table
             (Instance_Description_internal_set_description s d) rest"
    and "ParseLoop Instance_Description_table d (WriteString 4 s @ rest)
         = ParseLoop Instance_Description_table
             (Instance_Description_internal_set_created_by s d) rest"
proof -
  have rf: "read_field (WriteString n s @ rest)
      = Inr (Wire_field n (LengthDelimited s) (WriteString n s), rest)"
    if "0 < n" and "n < 2 ^ 29" for n
    using that assms(2) by (rule read_field_WriteString)
  show "ParseLoop Instance_Description_table d (WriteString 1 s @ rest)
         = ParseLoop Instance_Description_table (Instance_Description_internal_set_name s d) rest"
    using ParseLoop_field [OF rf [of 1], of Instance_Description_table d, simplified] assms(1)
    by (simp add: Instance_Description_table_def)
  show "ParseLoop Instance_Description_table d (WriteString 2 s @ rest)
         = ParseLoop Instance_Description_table
             (Instance_Description_internal_set_description s d) rest"
    using ParseLoop_field [OF rf [of 2], of Instance_Description_table d, simplified] assms(1)
    by (simp add: Instance_Description_table_def)
  show "ParseLoop Instance_Description_table d (WriteString 4 s @ rest)
         = ParseLoop Instance_Description_table
             (Instance_Description_internal_set_created_by s d) rest"
    using ParseLoop_field [OF rf [of 4], of Instance_Description_table d, simplified] assms(1)
    by (simp add: Instance_Description_table_def)
qed


lemma Instance_Description_setters_has:
  "Instance_Description_has_name (Instance_Description_internal_set_name v d)"
  "Instance_Description_has_name (Instance_Description_internal_set_description v d)
     = Instance_Description_has_name d"
  "Instance_Description_has_name (Instance_Description_internal_set_created_by v d)
     = Instance_Description_has_name d"
  "Instance_Description_has_description (Instance_Description_internal_set_name v d)
     = Instance_Description_has_description d"
  "Instance_Description_has_description (Instance_Description_internal_set_description v d)"
  "Instance_Description_has_description (Instance_Description_internal_set_created_by v d)
     = Instance_Description_has_description d"
  "Instance_Description_has_created_by (Instance_Description_internal_set_name v d)
     = Instance_Description_has_created_by d"
  "Instance_Description_has_created_by (Instance_Description_internal_set_description v d)
     = Instance_Description_has_created_by d"
  "Instance_Description_has_created_by (Instance_Description_internal_set_created_by v d)"
  by (simp_all add: Instance_Description_has_name_def Instance_Description_has_description_def
      Instance_Description_has_created_by_def Instance_Description_internal_set_name_def
      Instance_Description_internal_set_description_def
      Instance_Description_internal_set_created_by_def
      has_bit_0 has_bit_1 has_bit_2 bit_simps)

lemma Instance_Description_update_has:
  "Instance_Description_has_name (d\<lparr>Description_impl_authors := a\<rparr>)
     = Instance_Description_has_name d"
  "Instance_Description_has_description (d\<lparr>Description_impl_authors := a\<rparr>)
     = Instance_Description_has_description d"
  "Instance_Description_has_created_by (d\<lparr>Description_impl_authors := a\<rparr>)
     = Instance_Description_has_created_by d"
  "Instance_Description_has_name (d\<lparr>Description_internal_metadata := u\<rparr>)
     = Instance_Description_has_name d"
  "Instance_Description_has_description (d\<lparr>Description_internal_metadata := u\<rparr>)
     = Instance_Description_has_description d"
  "Instance_Description_has_created_by (d\<lparr>Description_internal_metadata := u\<rparr>)
     = Instance_Description_has_created_by d"
  by (simp_all add: Instance_Description_has_name_def Instance_Description_has_description_def
      Instance_Description_has_created_by_def)

lemma Instance_Description_default_has:
  "\<not> Instance_Description_has_name Instance_Description_default_instance"
  "\<not> Instance_Description_has_description Instance_Description_default_instance"
  "\<not> Instance_Description_has_created_by Instance_Description_default_instance"
  by (simp_all add: Instance_Description_has_name_def Instance_Description_has_description_def
      Instance_Description_has_created_by_def Instance_Description_default_instance_def)

lemma Instance_Description_default_sel:
  "Description_impl_authors Instance_Description_default_instance = []"
  "Description_impl_name Instance_Description_default_instance = []"
  "Description_impl_description Instance_Description_default_instance = []"
  "Description_impl_created_by Instance_Description_default_instance = []"
  "Description_internal_metadata Instance_Description_default_instance = []"
  by (simp_all add: Instance_Description_default_instance_def)

text \<open>The serializer, as the concatenation of its five parts.\<close>

lemma Instance_Description_InternalSerialize_eq:
  "Instance_Description_InternalSerialize d =
     (if Instance_Description_has_name d then WriteString 1 (Description_impl_name d) else []) @
     (if Instance_Description_has_description d
      then WriteString 2 (Description_impl_description d) else []) @
     concat (map (WriteString 3) (Description_impl_authors d)) @
     (if Instance_Description_has_created_by d
      then WriteString 4 (Description_impl_created_by d) else []) @
     concat (Description_internal_metadata d)"
  by (simp add: Instance_Description_InternalSerialize_def Let_def
      WriteStringMaybeAliased_def Instance_Description_has_name_def
      Instance_Description_has_description_def Instance_Description_has_created_by_def
      Instance_Description_internal_name_def Instance_Description_internal_description_def
      Instance_Description_internal_created_by_def Instance_Description_internal_authors_def
      have_unknown_fields_def InternalSerializeUnknownFieldsToArray_def)

lemma Instance_Description_parse_serialized:
  assumes ok: "Instance_Description_wire_ok d"
  shows "ParseLoop Instance_Description_table m (Instance_Description_InternalSerialize d @ rest)
     = ParseLoop Instance_Description_table
         (let m1 = (if Instance_Description_has_name d
                    then Instance_Description_internal_set_name (Description_impl_name d) m
                    else m);
              m2 = (if Instance_Description_has_description d
                    then Instance_Description_internal_set_description
                           (Description_impl_description d) m1
                    else m1);
              m3 = m2\<lparr>Description_impl_authors :=
                        Description_impl_authors m2 @ Description_impl_authors d\<rparr>;
              m4 = (if Instance_Description_has_created_by d
                    then Instance_Description_internal_set_created_by
                           (Description_impl_created_by d) m3
                    else m3)
          in m4\<lparr>Description_internal_metadata :=
                  Description_internal_metadata m4 @ Description_internal_metadata d\<rparr>) rest"
proof -
  have v: "IsStructurallyValid (Description_impl_name d)" "length (Description_impl_name d) < 2 ^ 31"
    "IsStructurallyValid (Description_impl_description d)"
    "length (Description_impl_description d) < 2 ^ 31"
    "IsStructurallyValid (Description_impl_created_by d)"
    "length (Description_impl_created_by d) < 2 ^ 31"
    using ok by (simp_all add: Instance_Description_wire_ok_def)
  have a: "\<forall>s \<in> set (Description_impl_authors d). IsStructurallyValid s \<and> length s < 2 ^ 31"
    using ok by (simp add: Instance_Description_wire_ok_def list_all_iff)
  have u: "\<forall>c \<in> set (Description_internal_metadata d).
      unknown_chunk Instance_Description_recognised c"
    using ok by (simp add: Instance_Description_wire_ok_def list_all_iff)
  show ?thesis
    unfolding Instance_Description_InternalSerialize_eq Let_def
    by (simp del: One_nat_def
        add: ParseLoop_Description_string [OF v(1,2)] ParseLoop_Description_string [OF v(3,4)]
        ParseLoop_Description_string [OF v(5,6)] ParseLoop_Description_authors [OF a]
        ParseLoop_Description_unknown [OF u])
qed

lemma Instance_Description_round_trip:
  assumes ok: "Instance_Description_wire_ok d"
  shows "\<exists>r. Instance_Description_ParseFromString (Instance_Description_InternalSerialize d) = Inr r \<and>
             Instance_Description_fields_equal r d"
proof -
  have c: "Instance_Description_consistent d"
    using ok by (simp add: Instance_Description_wire_ok_def)
  from Instance_Description_parse_serialized [OF ok, of Instance_Description_default_instance "[]"]
  show ?thesis
    using c
    by (auto simp add: Instance_Description_ParseFromString_def
        Instance_Description_InternalParse_def ParseLoop_Nil Let_def
        Instance_Description_fields_equal_def Instance_Description_setters_has
        Instance_Description_update_has Instance_Description_default_has
        Instance_Description_setters_sel Instance_Description_consistent_def
        Instance_Description_internal_name_def Instance_Description_internal_description_def
        Instance_Description_internal_created_by_def Instance_Description_internal_authors_def
        Instance_Description_default_sel)
qed




lemma read_varint_within_prefix:
  "read_varint_within k bs = Some (v, r) \<Longrightarrow>
   \<exists>c. bs = c @ r \<and> c \<noteq> [] \<and> (\<forall>y. read_varint_within k (c @ y) = Some (v, y))"
proof (induction k bs arbitrary: v r rule: read_varint_within.induct)
  case (3 k b bs)
  show ?case
  proof (cases "b < 128")
    case True
    then have "r = bs" "v = unat b" using "3.prems" by simp_all
    then have "b # bs = [b] @ r \<and> [b] \<noteq> [] \<and>
        (\<forall>y. read_varint_within (Suc k) ([b] @ y) = Some (v, y))"
      using True by simp
    then show ?thesis by blast
  next
    case False
    then obtain v' where v': "read_varint_within k bs = Some (v', r)"
      and v: "v = unat b - 128 + 128 * v'"
      using "3.prems" by (auto split: option.splits)
    from "3.IH" [OF False v'] obtain c where c: "bs = c @ r"
      "\<forall>y. read_varint_within k (c @ y) = Some (v', y)" by blast
    have "b # bs = (b # c) @ r \<and> b # c \<noteq> [] \<and>
        (\<forall>y. read_varint_within (Suc k) ((b # c) @ y) = Some (v, y))"
      using c False v by simp
    then show ?thesis by blast
  qed
qed simp_all

lemma read_varint_prefix:
  "read_varint bs = Some (v, r) \<Longrightarrow>
   \<exists>c. bs = c @ r \<and> c \<noteq> [] \<and> (\<forall>y. read_varint (c @ y) = Some (v, y))"
  unfolding read_varint_def by (rule read_varint_within_prefix)

lemma read_payload_prefix:
  assumes a: "read_payload wt bs = Some (p, rest)"
  shows "\<exists>c. bs = c @ rest \<and> (\<forall>y. read_payload wt (c @ y) = Some (p, y))"
proof -
  consider "wt = 0" | "wt = 1" | "wt = 2" | "wt = 5" | "wt \<notin> {0, 1, 2, 5}" by auto
  then show ?thesis
  proof cases
    case 1
    then obtain v where v: "read_varint bs = Some (v, rest)" and p: "p = Varint v"
      using a by (auto simp add: read_payload_def split: option.splits)
    from read_varint_prefix [OF v] obtain c where "bs = c @ rest"
      "\<forall>y. read_varint (c @ y) = Some (v, y)" by blast
    then have "bs = c @ rest \<and> (\<forall>y. read_payload wt (c @ y) = Some (p, y))"
      using 1 p by (simp add: read_payload_def)
    then show ?thesis by blast
  next
    case 2
    then have l: "8 \<le> length bs" and e: "p = Fixed64 (take 8 bs)" "rest = drop 8 bs"
      using a by (auto simp add: read_payload_def split: if_splits)
    have "bs = take 8 bs @ rest \<and> (\<forall>y. read_payload wt (take 8 bs @ y) = Some (p, y))"
      using 2 l e by (simp add: read_payload_def)
    then show ?thesis by blast
  next
    case 3
    then obtain n r where r: "read_varint bs = Some (n, r)"
      and n: "n < 2 ^ 31" "n \<le> length r"
      and e: "p = LengthDelimited (take n r)" "rest = drop n r"
      using a by (auto simp add: read_payload_def split: option.splits if_splits)
    from read_varint_prefix [OF r] obtain c where c: "bs = c @ r"
      "\<forall>y. read_varint (c @ y) = Some (n, y)" by blast
    have "\<forall>y. read_varint ((c @ take n r) @ y) = Some (n, take n r @ y)"
      using c(2) by simp
    then have "bs = (c @ take n r) @ rest \<and>
        (\<forall>y. read_payload wt ((c @ take n r) @ y) = Some (p, y))"
      using 3 c(1) n e by (simp add: read_payload_def)
    then show ?thesis by blast
  next
    case 4
    then have l: "4 \<le> length bs" and e: "p = Fixed32 (take 4 bs)" "rest = drop 4 bs"
      using a by (auto simp add: read_payload_def split: if_splits)
    have "bs = take 4 bs @ rest \<and> (\<forall>y. read_payload wt (take 4 bs @ y) = Some (p, y))"
      using 4 l e by (simp add: read_payload_def)
    then show ?thesis by blast
  next
    case 5
    then show ?thesis using a by (simp add: read_payload_def)
  qed
qed

lemma read_field_prefix:
  assumes "read_field bs = Inr (f, rest)"
  shows "bs = wf_raw f @ rest \<and> wf_raw f \<noteq> [] \<and>
         (\<forall>y. read_field (wf_raw f @ y) = Inr (f, y))"
proof -
  from assms obtain tag r p where t: "read_varint bs = Some (tag, r)"
    and ok: "\<not> (2 ^ 32 \<le> tag \<or> tag div 8 = 0)"
    and p: "read_payload (tag mod 8) r = Some (p, rest)"
    and f: "f = Wire_field (tag div 8) p (take (length bs - length rest) bs)"
    by (auto simp add: read_field_def split: option.splits if_splits)
  from read_varint_prefix [OF t] obtain c where c: "bs = c @ r" "c \<noteq> []"
    "\<forall>y. read_varint (c @ y) = Some (tag, y)" by blast
  from read_payload_prefix [OF p] obtain c' where c': "r = c' @ rest"
    "\<forall>y. read_payload (tag mod 8) (c' @ y) = Some (p, y)" by blast
  have bs: "bs = (c @ c') @ rest" using c(1) c'(1) by simp
  then have raw: "wf_raw f = c @ c'" using f by simp
  have "read_field ((c @ c') @ y) = Inr (f, y)" for y
  proof -
    have "read_varint ((c @ c') @ y) = Some (tag, c' @ y)" using c(3) by simp
    moreover have "take (length ((c @ c') @ y) - length y) ((c @ c') @ y) = c @ c'" by simp
    ultimately show ?thesis
      using ok c'(2) f raw by (simp add: read_field_def del: append_assoc)
  qed
  then show ?thesis using bs raw c(2) by simp
qed

lemma read_field_LengthDelimited:
  assumes "read_field bs = Inr (f, rest)" and "wf_payload f = LengthDelimited s"
  shows "length s < 2 ^ 31"
  using assms
  by (auto simp add: read_field_def read_payload_def split: option.splits if_splits)

lemma read_field_unknown_chunk:
  assumes "read_field bs = Inr (f, rest)" and "\<not> recognised f"
  shows "unknown_chunk recognised (wf_raw f)"
proof -
  have "read_field (wf_raw f @ []) = Inr (f, [])"
    using read_field_prefix [OF assms(1)] by blast
  then show ?thesis using assms(2) by (simp add: unknown_chunk_def)
qed

lemma Instance_Description_table_metadata:
  assumes "Instance_Description_table m f = Inr m'"
  shows "Description_internal_metadata m' =
     Description_internal_metadata m @
       (if Instance_Description_recognised f then [] else [wf_raw f])"
proof (cases "Instance_Description_recognised f")
  case True
  then show ?thesis
    using assms
    by (auto simp add: Instance_Description_recognised_def Instance_Description_table_def
        Instance_Description_setters_sel Instance_Description_add_authors_def
        split: wire_payload.splits if_splits)
next
  case False
  then show ?thesis
    using assms Instance_Description_table_unrecognised [OF False, of m] by auto
qed

lemma ParseLoop_Description_metadata:
  "ParseLoop Instance_Description_table m bs = Inr d \<Longrightarrow>
   \<exists>fs. ParseLoop (\<lambda>acc f. Inr (acc @ [f])) acc bs = Inr (acc @ fs) \<and>
        concat (map wf_raw fs) = bs \<and>
        Description_internal_metadata d =
          Description_internal_metadata m @
            map wf_raw (filter (\<lambda>f. \<not> Instance_Description_recognised f) fs)"
proof (induction Instance_Description_table m bs arbitrary: acc rule: ParseLoop.induct)
  case (1 m ptr)
  show ?case
  proof (cases "ptr = []")
    case True
    then have "d = m" using "1.prems" by (simp add: ParseLoop_Nil)
    then show ?thesis using True by (simp add: ParseLoop_Nil)
  next
    case False
    then obtain f rest m' where rf: "read_field ptr = Inr (f, rest)"
      and st: "Instance_Description_table m f = Inr m'"
      and lp: "ParseLoop Instance_Description_table m' rest = Inr d"
      using "1.prems"
      by (auto simp add: ParseLoop.simps [of Instance_Description_table m ptr] split: sum.splits)
    from "1.hyps" [OF False rf refl st lp, of "acc @ [f]"]
    obtain fs where fs: "ParseLoop (\<lambda>acc f. Inr (acc @ [f])) (acc @ [f]) rest
          = Inr ((acc @ [f]) @ fs)"
      "concat (map wf_raw fs) = rest"
      "Description_internal_metadata d =
          Description_internal_metadata m' @
            map wf_raw (filter (\<lambda>f. \<not> Instance_Description_recognised f) fs)"
      by blast
    have ptr: "ptr = wf_raw f @ rest" using read_field_prefix [OF rf] by simp
    have "ParseLoop (\<lambda>acc f. Inr (acc @ [f])) acc ptr = Inr (acc @ (f # fs))"
      using False rf fs(1)
      by (simp add: ParseLoop.simps [of "\<lambda>acc f. Inr (acc @ [f])" acc ptr])
    moreover have "concat (map wf_raw (f # fs)) = ptr" using ptr fs(2) by simp
    moreover have "Description_internal_metadata d =
          Description_internal_metadata m @
            map wf_raw (filter (\<lambda>f. \<not> Instance_Description_recognised f) (f # fs))"
      using fs(3) Instance_Description_table_metadata [OF st] by simp
    ultimately show ?thesis by blast
  qed
qed

lemma Instance_Description_consistent_setters:
  assumes "Instance_Description_consistent d"
  shows "Instance_Description_consistent (Instance_Description_internal_set_name s d)"
    and "Instance_Description_consistent (Instance_Description_internal_set_description s d)"
    and "Instance_Description_consistent (Instance_Description_internal_set_created_by s d)"
    and "Instance_Description_consistent (d\<lparr>Description_impl_authors := a\<rparr>)"
    and "Instance_Description_consistent (d\<lparr>Description_internal_metadata := u\<rparr>)"
  using assms
  by (auto simp add: Instance_Description_consistent_def Instance_Description_setters_has
      Instance_Description_setters_sel Instance_Description_update_has)

lemma Instance_Description_table_wire_ok:
  assumes ok: "Instance_Description_wire_ok m"
    and rf: "read_field bs = Inr (f, rest)"
    and st: "Instance_Description_table m f = Inr m'"
  shows "Instance_Description_wire_ok m'"
proof (cases "Instance_Description_recognised f")
  case True
  then obtain s where s: "wf_payload f = LengthDelimited s"
    by (auto simp add: Instance_Description_recognised_def split: wire_payload.splits)
  have l: "length s < 2 ^ 31" using rf s by (rule read_field_LengthDelimited)
  have c: "Instance_Description_consistent m"
    using ok by (simp add: Instance_Description_wire_ok_def)
  from True s consider "wf_number f = 1" | "wf_number f = 2" | "wf_number f = 3" | "wf_number f = 4"
    by (auto simp add: Instance_Description_recognised_def)
  then show ?thesis
  proof cases
    case 1
    then have "IsStructurallyValid s" "m' = Instance_Description_internal_set_name s m"
      using st s by (auto simp add: Instance_Description_table_def split: if_splits)
    then show ?thesis
      using ok l Instance_Description_consistent_setters(1) [OF c, of s]
      by (simp add: Instance_Description_wire_ok_def Instance_Description_setters_sel)
  next
    case 2
    then have "IsStructurallyValid s" "m' = Instance_Description_internal_set_description s m"
      using st s by (auto simp add: Instance_Description_table_def split: if_splits)
    then show ?thesis
      using ok l Instance_Description_consistent_setters(2) [OF c, of s]
      by (simp add: Instance_Description_wire_ok_def Instance_Description_setters_sel)
  next
    case 3
    then have "IsStructurallyValid s" "m' = Instance_Description_add_authors s m"
      using st s by (auto simp add: Instance_Description_table_def split: if_splits)
    then show ?thesis
      using ok l Instance_Description_consistent_setters(4) [OF c]
      by (simp add: Instance_Description_wire_ok_def Instance_Description_add_authors_def)
  next
    case 4
    then have "IsStructurallyValid s" "m' = Instance_Description_internal_set_created_by s m"
      using st s by (auto simp add: Instance_Description_table_def split: if_splits)
    then show ?thesis
      using ok l Instance_Description_consistent_setters(3) [OF c, of s]
      by (simp add: Instance_Description_wire_ok_def Instance_Description_setters_sel)
  qed
next
  case False
  have u: "unknown_chunk Instance_Description_recognised (wf_raw f)"
    using rf False by (rule read_field_unknown_chunk)
  have "m' = m\<lparr>Description_internal_metadata := Description_internal_metadata m @ [wf_raw f]\<rparr>"
    using st Instance_Description_table_unrecognised [OF False, of m] by simp
  then show ?thesis
    using ok u Instance_Description_consistent_setters(5)
    by (simp add: Instance_Description_wire_ok_def)
qed

lemma ParseLoop_Description_wire_ok:
  "Instance_Description_wire_ok m \<Longrightarrow> ParseLoop Instance_Description_table m bs = Inr d \<Longrightarrow>
   Instance_Description_wire_ok d"
proof (induction Instance_Description_table m bs rule: ParseLoop.induct)
  case (1 m ptr)
  show ?case
  proof (cases "ptr = []")
    case True
    then show ?thesis using "1.prems" by (simp add: ParseLoop_Nil)
  next
    case False
    then obtain f rest m' where rf: "read_field ptr = Inr (f, rest)"
      and st: "Instance_Description_table m f = Inr m'"
      and lp: "ParseLoop Instance_Description_table m' rest = Inr d"
      using "1.prems"
      by (auto simp add: ParseLoop.simps [of Instance_Description_table m ptr] split: sum.splits)
    have "Instance_Description_wire_ok m'"
      using "1.prems"(1) rf st by (rule Instance_Description_table_wire_ok)
    then show ?thesis using "1.hyps" [OF False rf refl st] lp by simp
  qed
qed

lemma Instance_Description_default_wire_ok:
  "Instance_Description_wire_ok Instance_Description_default_instance"
  by (simp add: Instance_Description_wire_ok_def Instance_Description_consistent_def
      Instance_Description_default_sel)

lemma ucast_scast_id: "(ucast (scast (v :: 32 word) :: 64 word) :: 32 word) = v"
  by (rule bit_word_eqI) (simp add: bit_simps)

lemma scast_round_trip: "(of_nat (unat (scast (v :: 32 word) :: 64 word)) :: 32 word) = v"
  by (simp add: ucast_scast_id)

lemma read_field_WriteEnumToArray:
  assumes "0 < n" and "n < 2 ^ 29"
  shows "read_field (WriteEnumToArray n v @ rest)
         = Inr (Wire_field n (Varint (unat (scast v :: 64 word))) (WriteEnumToArray n v), rest)"
proof -
  let ?tag = "MakeTag n 0"
  let ?w = "unat (scast v :: 64 word)"
  have tag: "?tag < 2 ^ 32" "?tag div 8 = n" "?tag mod 8 = 0"
    using assms(2) by (simp_all add: MakeTag_def)
  have t64: "?tag < 2 ^ 64" using tag(1) by simp
  have w64: "?w < 2 ^ 64" using unsigned_less [of "scast v :: 64 word"] by simp
  have rt: "read_varint (WriteEnumToArray n v @ rest) = Some (?tag, varint ?w @ rest)"
    using read_varint_varint [OF t64, of "varint ?w @ rest"]
    by (simp add: WriteEnumToArray_def)
  have rp: "read_payload 0 (varint ?w @ rest) = Some (Varint ?w, rest)"
    using read_varint_varint [OF w64, of rest] by (simp add: read_payload_def)
  have raw: "take (length (WriteEnumToArray n v @ rest) - length rest) (WriteEnumToArray n v @ rest)
      = WriteEnumToArray n v"
    by simp
  show ?thesis
    unfolding read_field_def rt
    using tag assms(1) rp raw by simp
qed

lemma Instance_parse_sense:
  "Instance_InternalParse sm x (WriteEnumToArray 5 v @ rest)
   = Instance_InternalParse sm (x\<lparr>Instance_impl_sense := v\<rparr>) rest"
proof -
  have "read_field (WriteEnumToArray 5 v @ rest)
      = Inr (Wire_field 5 (Varint (unat (scast v :: 64 word))) (WriteEnumToArray 5 v), rest)"
    by (rule read_field_WriteEnumToArray) simp_all
  from ParseLoop_field [OF this, of "Instance_table sm" x]
  show ?thesis
    by (simp add: Instance_InternalParse_def Instance_table_def ucast_scast_id)
qed

lemma Instance_Sense_IsValid_iff: "Instance_Sense_IsValid v = (v = 0 \<or> v = 1 \<or> v = 2)"
proof
  assume "Instance_Sense_IsValid v"
  then have "sint v = 0 \<or> sint v = 1 \<or> sint v = 2"
    by (auto simp add: Instance_Sense_IsValid_def)
  then have "word_of_int (sint v) = (0 :: 32 word) \<or> word_of_int (sint v) = (1 :: 32 word) \<or>
      word_of_int (sint v) = (2 :: 32 word)"
    by (elim disjE) (simp_all only: word_of_int_0 word_of_int_1 word_of_int_numeral, simp_all)
  then show "v = 0 \<or> v = 1 \<or> v = 2" by simp
next
  assume "v = 0 \<or> v = 1 \<or> v = 2"
  then show "Instance_Sense_IsValid v" by (auto simp add: Instance_Sense_IsValid_def)
qed

lemma WriteEnumToArray_5_3: "WriteEnumToArray 5 3 = [40, 3]"
  by (simp add: WriteEnumToArray_def MakeTag_def varint.simps byte_of_nat_def)

lemma InternalWriteMessage_WriteString:
  "InternalWriteMessage n (length p) p = WriteString n p"
  by (simp add: InternalWriteMessage_def WriteString_def)

lemma Instance_table_unrecognised:
  "\<not> Instance_recognised f \<Longrightarrow>
   Instance_table sm x f =
     Inr (x\<lparr>Instance_internal_metadata := Instance_internal_metadata x @ [wf_raw f]\<rparr>)"
  by (auto simp add: Instance_recognised_def Instance_table_def unknown_field_def
      split: wire_payload.splits)






lemma Instance_InternalSerialize_eq:
  assumes "Instance_has_description x \<longrightarrow> Instance_impl_description x \<noteq> None"
    and "Instance_has_objective x \<longrightarrow> Instance_impl_objective x \<noteq> None"
  shows "Instance_InternalSerialize sm x =
     Inr ((if Instance_has_description x
           then InternalWriteMessage 1 (Instance_Description_ByteSizeLong (Instance_description x))
                  (Instance_Description_InternalSerialize (Instance_description x))
           else []) @
          concat (map (\<lambda>v. InternalWriteMessage 2
                               (mm_ByteSizeLong (sub_DecisionVariable sm) v)
                               (mm_InternalSerialize (sub_DecisionVariable sm) v))
                    (Instance_impl_decision_variables x)) @
          (if Instance_has_objective x
           then InternalWriteMessage 3 (mm_ByteSizeLong (sub_Function sm) (Instance_objective x))
                  (mm_InternalSerialize (sub_Function sm) (Instance_objective x))
           else []) @
          concat (map (\<lambda>v. InternalWriteMessage 4
                               (mm_ByteSizeLong (sub_Constraint sm) v)
                               (mm_InternalSerialize (sub_Constraint sm) v))
                    (Instance_impl_constraints x)) @
          (if Instance_impl_sense x \<noteq> 0 then WriteEnumToArray 5 (Instance_impl_sense x) else []) @
          concat (Instance_internal_metadata x))"
  using assms
  by (auto simp add: Instance_InternalSerialize_def Let_def Instance_has_description_def
      Instance_has_objective_def Instance_description_def Instance_objective_def
      Instance_internal_sense_def have_unknown_fields_def
      InternalSerializeUnknownFieldsToArray_def)



lemma Instance_table_metadata:
  assumes "Instance_table sm x f = Inr x'"
  shows "Instance_internal_metadata x' =
     Instance_internal_metadata x @ (if Instance_recognised f then [] else [wf_raw f])"
proof (cases "Instance_recognised f")
  case True
  then show ?thesis
    using assms
    by (auto simp add: Instance_recognised_def Instance_table_def
        split: wire_payload.splits if_splits sum.splits)
next
  case False
  then show ?thesis
    using assms Instance_table_unrecognised [OF False, of sm x] by auto
qed

lemma Instance_table_held:
  assumes "Instance_held x" and "Instance_table sm x f = Inr x'"
  shows "Instance_held x'"
proof (cases "Instance_recognised f")
  case True
  then show ?thesis
    using assms
    by (auto simp add: Instance_recognised_def Instance_table_def Instance_held_def
        Instance_has_description_def Instance_has_objective_def has_bit_0 has_bit_1 bit_simps
        split: wire_payload.splits if_splits sum.splits)
next
  case False
  then show ?thesis
    using assms Instance_table_unrecognised [OF False, of sm x]
    by (auto simp add: Instance_held_def Instance_has_description_def
        Instance_has_objective_def)
qed

lemma ParseLoop_Instance_metadata:
  "ParseLoop (Instance_table sm) m bs = Inr x \<Longrightarrow> Instance_held m \<Longrightarrow>
   Instance_held x \<and>
   (\<exists>fs. ParseLoop (\<lambda>acc f. Inr (acc @ [f])) acc bs = Inr (acc @ fs) \<and>
        concat (map wf_raw fs) = bs \<and>
        Instance_internal_metadata x =
          Instance_internal_metadata m @
            map wf_raw (filter (\<lambda>f. \<not> Instance_recognised f) fs))"
proof (induction "Instance_table sm" m bs arbitrary: acc rule: ParseLoop.induct)
  case (1 m ptr)
  show ?case
  proof (cases "ptr = []")
    case True
    then have "x = m" using "1.prems" by (simp add: ParseLoop_Nil)
    then show ?thesis using True "1.prems"(2) by (simp add: ParseLoop_Nil)
  next
    case False
    then obtain f rest m' where rf: "read_field ptr = Inr (f, rest)"
      and st: "Instance_table sm m f = Inr m'"
      and lp: "ParseLoop (Instance_table sm) m' rest = Inr x"
      using "1.prems"(1)
      by (auto simp add: ParseLoop.simps [of "Instance_table sm" m ptr] split: sum.splits)
    have h': "Instance_held m'" using "1.prems"(2) st by (rule Instance_table_held)
    from "1.hyps" [OF False rf refl st lp h', of "acc @ [f]"]
    obtain fs where hx: "Instance_held x"
      and fs: "ParseLoop (\<lambda>acc f. Inr (acc @ [f])) (acc @ [f]) rest = Inr ((acc @ [f]) @ fs)"
      "concat (map wf_raw fs) = rest"
      "Instance_internal_metadata x =
          Instance_internal_metadata m' @
            map wf_raw (filter (\<lambda>f. \<not> Instance_recognised f) fs)"
      by blast
    have ptr: "ptr = wf_raw f @ rest" using read_field_prefix [OF rf] by simp
    have "ParseLoop (\<lambda>acc f. Inr (acc @ [f])) acc ptr = Inr (acc @ (f # fs))"
      using False rf fs(1)
      by (simp add: ParseLoop.simps [of "\<lambda>acc f. Inr (acc @ [f])" acc ptr])
    moreover have "concat (map wf_raw (f # fs)) = ptr" using ptr fs(2) by simp
    moreover have "Instance_internal_metadata x =
          Instance_internal_metadata m @
            map wf_raw (filter (\<lambda>f. \<not> Instance_recognised f) (f # fs))"
      using fs(3) Instance_table_metadata [OF st] by simp
    ultimately show ?thesis using hx by blast
  qed
qed

lemma Instance_InternalSerialize_unknown_last:
  assumes "Instance_held x"
  shows "\<exists>known. Instance_InternalSerialize sm (x\<lparr>Instance_internal_metadata := []\<rparr>) = Inr known \<and>
           Instance_InternalSerialize sm x = Inr (known @ concat (Instance_internal_metadata x))"
proof -
  have h: "Instance_has_description x \<longrightarrow> Instance_impl_description x \<noteq> None"
    "Instance_has_objective x \<longrightarrow> Instance_impl_objective x \<noteq> None"
    using assms by (auto simp add: Instance_held_def split: if_splits)
  let ?y = "x\<lparr>Instance_internal_metadata := []\<rparr>"
  have h': "Instance_has_description ?y \<longrightarrow> Instance_impl_description ?y \<noteq> None"
    "Instance_has_objective ?y \<longrightarrow> Instance_impl_objective ?y \<noteq> None"
    using h by (simp_all add: Instance_has_description_def Instance_has_objective_def)
  show ?thesis
    unfolding Instance_InternalSerialize_eq [OF h] Instance_InternalSerialize_eq [OF h']
    by (simp add: Instance_has_description_def Instance_has_objective_def
        Instance_description_def Instance_objective_def)
qed

lemma Instance_Description_InternalSerialize_unknown_last:
  "Instance_Description_InternalSerialize d =
     Instance_Description_InternalSerialize (d\<lparr>Description_internal_metadata := []\<rparr>) @
     concat (Description_internal_metadata d)"
  by (simp add: Instance_Description_InternalSerialize_eq Instance_Description_update_has)

lemma Instance_default_held: "Instance_held Instance_default_instance"
  by (simp add: Instance_held_def Instance_has_description_def Instance_has_objective_def
      Instance_default_instance_def)

lemma read_varint_10:
  "read_varint (b # bs) =
     (if b < 128 then Some (unat b, bs)
      else (case read_varint_within 9 bs of
              None \<Rightarrow> None
            | Some (v, r) \<Rightarrow> Some (unat b - 128 + 128 * v, r)))"
  by (simp add: read_varint_def eval_nat_numeral)





lemma byte_of_nat_mod_256: "unat (byte_of_nat (n mod 256)) = n mod 256"
  by (rule unat_byte_of_nat) simp

lemma fixed_value_fixed_bytes: "n < 256 ^ k \<Longrightarrow> fixed_value (fixed_bytes k n) = n"
proof (induction k arbitrary: n)
  case 0
  then show ?case by simp
next
  case (Suc k)
  have "n div 256 < 256 ^ k"
    using Suc.prems by (simp add: less_mult_imp_div_less mult.commute)
  then have "fixed_value (fixed_bytes k (n div 256)) = n div 256" by (rule Suc.IH)
  then show ?case by (simp add: byte_of_nat_mod_256)
qed

lemma length_fixed_bytes: "length (fixed_bytes k n) = k"
  by (induction k arbitrary: n) simp_all

lemma length_WriteFixed64: "length (WriteFixed64 v) = 8"
  by (simp add: WriteFixed64_def length_fixed_bytes)

lemma ReadFixed64_WriteFixed64: "ReadFixed64 (WriteFixed64 v) = v"
proof -
  have "unat v < 2 ^ 64" using unsigned_less [of v] by simp
  then have "unat v < 256 ^ 8" by simp
  then have "fixed_value (fixed_bytes 8 (unat v)) = unat v" by (rule fixed_value_fixed_bytes)
  then show ?thesis by (simp add: ReadFixed64_def WriteFixed64_def)
qed

lemma ReadPackedVarint_packed: "ReadPackedVarint (packed_uint64 xs) = Some xs"
proof (induction xs)
  case Nil
  then show ?case by (simp add: packed_uint64_def ReadPackedVarint.simps)
next
  case (Cons x xs)
  have p: "packed_uint64 (x # xs) = varint (unat x) @ packed_uint64 xs"
    by (simp add: packed_uint64_def)
  have ne: "packed_uint64 (x # xs) \<noteq> []" using varint_not_Nil [of "unat x"] by (simp add: p)
  have "unat x < 2 ^ 64" using unsigned_less [of x] by simp
  then have r: "read_varint (packed_uint64 (x # xs)) = Some (unat x, packed_uint64 xs)"
    unfolding p by (rule read_varint_varint)
  show ?case
    using ne r Cons.IH by (simp add: ReadPackedVarint.simps [of "packed_uint64 (x # xs)"])
qed

lemma ReadPackedFixed64_packed: "ReadPackedFixed64 (packed_double vs) = Some vs"
proof (induction vs)
  case Nil
  then show ?case by (simp add: packed_double_def ReadPackedFixed64.simps)
next
  case (Cons v vs)
  have p: "packed_double (v # vs) = WriteFixed64 v @ packed_double vs"
    by (simp add: packed_double_def)
  have l: "length (packed_double (v # vs)) = 8 + length (packed_double vs)"
    by (simp add: p length_WriteFixed64)
  have ne: "packed_double (v # vs) \<noteq> []" using l by auto
  have t: "take 8 (packed_double (v # vs)) = WriteFixed64 v"
    "drop 8 (packed_double (v # vs)) = packed_double vs"
    by (simp_all add: p length_WriteFixed64)
  show ?case
    using ne l t Cons.IH
    by (simp add: ReadPackedFixed64.simps [of "packed_double (v # vs)"] ReadFixed64_WriteFixed64)
qed

subsection \<open>Round trip of Quadratic and Function\<close>

lemma WriteUInt64Packed_WriteString:
  "WriteUInt64Packed n xs = WriteString n (packed_uint64 xs)"
  by (simp add: WriteUInt64Packed_def WriteString_def)

lemma WriteFixedPacked_WriteString:
  "WriteFixedPacked n vs = WriteString n (packed_double vs)"
  by (simp add: WriteFixedPacked_def WriteString_def)

lemma packed_uint64_Nil_iff: "(packed_uint64 xs = []) = (xs = [])"
  by (cases xs) (simp_all add: packed_uint64_def varint_not_Nil)

lemma Quadratic_table_unrecognised:
  "\<not> Quadratic_recognised f \<Longrightarrow>
   Quadratic_table lm q f =
     Inr (q\<lparr>Quadratic_internal_metadata := Quadratic_internal_metadata q @ [wf_raw f]\<rparr>)"
  by (auto simp add: Quadratic_recognised_def Quadratic_table_def unknown_field_def
      split: wire_payload.splits)

lemma ParseLoop_Quadratic_unknown:
  assumes "\<forall>c \<in> set us. unknown_chunk Quadratic_recognised c"
  shows "ParseLoop (Quadratic_table lm) q (concat us @ rest)
         = ParseLoop (Quadratic_table lm)
             (q\<lparr>Quadratic_internal_metadata := Quadratic_internal_metadata q @ us\<rparr>) rest"
  using assms
proof (induction us arbitrary: q)
  case Nil
  then show ?case by simp
next
  case (Cons c us)
  then obtain f where rf: "read_field (c @ (concat us @ rest)) = Inr (f, concat us @ rest)"
    and raw: "wf_raw f = c" and un: "\<not> Quadratic_recognised f"
    using unknown_chunk_read [of Quadratic_recognised c "concat us @ rest"] by auto
  let ?q = "q\<lparr>Quadratic_internal_metadata := Quadratic_internal_metadata q @ [c]\<rparr>"
  have "ParseLoop (Quadratic_table lm) q (c @ (concat us @ rest))
      = ParseLoop (Quadratic_table lm) ?q (concat us @ rest)"
    using ParseLoop_field [OF rf, of "Quadratic_table lm" q]
      Quadratic_table_unrecognised [OF un, of lm q] raw
    by simp
  also have "\<dots> = ParseLoop (Quadratic_table lm)
      (?q\<lparr>Quadratic_internal_metadata := Quadratic_internal_metadata ?q @ us\<rparr>) rest"
    using Cons.prems by (intro Cons.IH) simp
  finally show ?case by simp
qed

lemma ParseLoop_Quadratic_rows:
  assumes "length (packed_uint64 xs) < 2 ^ 31"
  shows "ParseLoop (Quadratic_table lm) q (WriteUInt64Packed 1 xs @ rest)
         = ParseLoop (Quadratic_table lm)
             (q\<lparr>Quadratic_impl_rows := Quadratic_impl_rows q @ xs\<rparr>) rest"
proof -
  let ?p = "packed_uint64 xs"
  have rf: "read_field (WriteString 1 ?p @ rest)
      = Inr (Wire_field 1 (LengthDelimited ?p) (WriteString 1 ?p), rest)"
    using assms by (intro read_field_WriteString) simp_all
  show ?thesis
    using ParseLoop_field [OF rf, of "Quadratic_table lm" q]
    by (simp add: Quadratic_table_def WriteUInt64Packed_WriteString ReadPackedVarint_packed)
qed

lemma ParseLoop_Quadratic_columns:
  assumes "length (packed_uint64 xs) < 2 ^ 31"
  shows "ParseLoop (Quadratic_table lm) q (WriteUInt64Packed 2 xs @ rest)
         = ParseLoop (Quadratic_table lm)
             (q\<lparr>Quadratic_impl_columns := Quadratic_impl_columns q @ xs\<rparr>) rest"
proof -
  let ?p = "packed_uint64 xs"
  have rf: "read_field (WriteString 2 ?p @ rest)
      = Inr (Wire_field 2 (LengthDelimited ?p) (WriteString 2 ?p), rest)"
    using assms by (intro read_field_WriteString) simp_all
  show ?thesis
    using ParseLoop_field [OF rf, of "Quadratic_table lm" q]
    by (simp add: Quadratic_table_def WriteUInt64Packed_WriteString ReadPackedVarint_packed)
qed

lemma ParseLoop_Quadratic_values:
  assumes "length (packed_double vs) < 2 ^ 31"
  shows "ParseLoop (Quadratic_table lm) q (WriteFixedPacked 3 vs @ rest)
         = ParseLoop (Quadratic_table lm)
             (q\<lparr>Quadratic_impl_values := Quadratic_impl_values q @ vs\<rparr>) rest"
proof -
  let ?p = "packed_double vs"
  have rf: "read_field (WriteString 3 ?p @ rest)
      = Inr (Wire_field 3 (LengthDelimited ?p) (WriteString 3 ?p), rest)"
    using assms by (intro read_field_WriteString) simp_all
  show ?thesis
    using ParseLoop_field [OF rf, of "Quadratic_table lm" q]
    by (simp add: Quadratic_table_def WriteFixedPacked_WriteString ReadPackedFixed64_packed)
qed

lemma ParseLoop_Quadratic_linear:
  assumes "mm_InternalParse lm (Quadratic_linear q) (mm_InternalSerialize lm l) = Inr r"
    and "mm_ByteSizeLong lm l = length (mm_InternalSerialize lm l)"
    and "length (mm_InternalSerialize lm l) < 2 ^ 31"
  shows "ParseLoop (Quadratic_table lm) q
           (InternalWriteMessage 4 (mm_ByteSizeLong lm l) (mm_InternalSerialize lm l) @ rest)
         = ParseLoop (Quadratic_table lm)
             (q\<lparr>Quadratic_impl_has_bits := Quadratic_impl_has_bits q OR 0x00000001,
                Quadratic_impl_linear := Some r\<rparr>) rest"
proof -
  let ?p = "mm_InternalSerialize lm l"
  have rf: "read_field (WriteString 4 ?p @ rest)
      = Inr (Wire_field 4 (LengthDelimited ?p) (WriteString 4 ?p), rest)"
    using assms(3) by (intro read_field_WriteString) simp_all
  show ?thesis
    using ParseLoop_field [OF rf, of "Quadratic_table lm" q] assms(1)
    by (simp add: Quadratic_table_def assms(2) InternalWriteMessage_WriteString)
qed

lemma ParseLoop_invariant:
  assumes step: "\<And>m f m'. P m \<Longrightarrow> table m f = Inr m' \<Longrightarrow> P m'"
  shows "P msg \<Longrightarrow> ParseLoop table msg ptr = Inr r \<Longrightarrow> P r"
proof (induction ptr arbitrary: msg rule: length_induct)
  case (1 ptr)
  show ?case
  proof (cases "ptr = []")
    case True
    then show ?thesis using "1.prems" by (simp add: ParseLoop_Nil)
  next
    case False
    then obtain f rest msg' where rf: "read_field ptr = Inr (f, rest)"
      and st: "table msg f = Inr msg'"
      and lp: "ParseLoop table msg' rest = Inr r"
      using "1.prems"(2)
      by (auto simp add: ParseLoop.simps [of table msg ptr] split: sum.splits)
    have p: "P msg'" using "1.prems"(1) st by (rule step)
    have "length rest < length ptr" using rf by (rule read_field_shorter)
    then show ?thesis using "1.IH" p lp by blast
  qed
qed

text \<open>
  Parsing keeps the two conditions on the Linear of a Quadratic: a field 4 sets the
  has-bit and leaves a Linear held, and no other field touches either.
\<close>

lemma Quadratic_table_linear:
  assumes "Quadratic_linear_consistent q \<and> Quadratic_linear_cleared q"
    and "Quadratic_table lm q f = Inr q'"
  shows "Quadratic_linear_consistent q' \<and> Quadratic_linear_cleared q'"
proof -
  have b: "bit (Quadratic_impl_has_bits q OR 1) 0" by (simp add: bit_simps)
  show ?thesis
    using assms b
    by (auto simp add: Quadratic_table_def Quadratic_linear_consistent_def
        Quadratic_linear_cleared_def Quadratic_has_linear_bit unknown_field_def
        Quadratic_add_rows_def Quadratic_add_columns_def Quadratic_add_values_def
        split: wire_payload.splits if_splits option.splits sum.splits)
qed

lemma Quadratic_InternalParse_linear:
  assumes "Quadratic_linear_consistent q" and "Quadratic_linear_cleared q"
    and "Quadratic_InternalParse lm q bs = Inr q'"
  shows "Quadratic_linear_consistent q' \<and> Quadratic_linear_cleared q'"
proof (rule ParseLoop_invariant [where P = "\<lambda>m. Quadratic_linear_consistent m \<and>
    Quadratic_linear_cleared m" and table = "Quadratic_table lm" and msg = q and ptr = bs])
  fix m f m'
  assume "Quadratic_linear_consistent m \<and> Quadratic_linear_cleared m"
    and "Quadratic_table lm m f = Inr m'"
  then show "Quadratic_linear_consistent m' \<and> Quadratic_linear_cleared m'"
    by (rule Quadratic_table_linear)
next
  show "Quadratic_linear_consistent q \<and> Quadratic_linear_cleared q"
    using assms(1,2) by simp
next
  show "ParseLoop (Quadratic_table lm) q bs = Inr q'"
    using assms(3) by (simp add: Quadratic_InternalParse_def)
qed

lemma Quadratic_InternalSerialize_eq:
  assumes "Quadratic_has_linear q \<longrightarrow> Quadratic_impl_linear q \<noteq> None"
  shows "Quadratic_InternalSerialize lm q =
     Inr ((if Quadratic_impl_rows q \<noteq> [] then WriteUInt64Packed 1 (Quadratic_impl_rows q) else []) @
          (if Quadratic_impl_columns q \<noteq> []
           then WriteUInt64Packed 2 (Quadratic_impl_columns q) else []) @
          (if Quadratic_impl_values q \<noteq> [] then WriteFixedPacked 3 (Quadratic_impl_values q) else []) @
          (if Quadratic_has_linear q
           then InternalWriteMessage 4 (mm_ByteSizeLong lm (Quadratic_linear q))
                  (mm_InternalSerialize lm (Quadratic_linear q))
           else []) @
          concat (Quadratic_internal_metadata q))"
  using assms
  by (auto simp add: Quadratic_InternalSerialize_def Let_def Quadratic_has_linear_def
      Quadratic_linear_def Quadratic_internal_linear_def Quadratic_values_size_def
      packed_uint64_Nil_iff have_unknown_fields_def InternalSerializeUnknownFieldsToArray_def)

lemma Quadratic_round_trip:
  assumes ok: "Quadratic_wire_ok lm q"
  shows "\<exists>out. Quadratic_InternalSerialize lm q = Inr out \<and>
               Quadratic_ParseFromString lm out = Inr q"
proof -
  let ?T = "Quadratic_table lm"
  let ?d = "Quadratic_default_instance"
  let ?t5 = "concat (Quadratic_internal_metadata q)"
  let ?t4 = "if Quadratic_has_linear q
           then InternalWriteMessage 4 (mm_ByteSizeLong lm (Quadratic_linear q))
                  (mm_InternalSerialize lm (Quadratic_linear q))
           else []"
  let ?t3 = "if Quadratic_impl_values q \<noteq> []
           then WriteFixedPacked 3 (Quadratic_impl_values q) else []"
  let ?t2 = "if Quadratic_impl_columns q \<noteq> []
           then WriteUInt64Packed 2 (Quadratic_impl_columns q) else []"
  let ?t1 = "if Quadratic_impl_rows q \<noteq> [] then WriteUInt64Packed 1 (Quadratic_impl_rows q) else []"
  have hb: "Quadratic_impl_has_bits q = (if Quadratic_impl_linear q = None then 0 else 1)"
    and lr: "length (packed_uint64 (Quadratic_impl_rows q)) < 2 ^ 31"
    and lc: "length (packed_uint64 (Quadratic_impl_columns q)) < 2 ^ 31"
    and lv: "length (packed_double (Quadratic_impl_values q)) < 2 ^ 31"
    and li: "case Quadratic_impl_linear q of None \<Rightarrow> True | Some l \<Rightarrow> Linear_round_trips lm l"
    and un: "\<forall>c \<in> set (Quadratic_internal_metadata q). unknown_chunk Quadratic_recognised c"
    using ok by (simp_all add: Quadratic_wire_ok_def list_all_iff)
  have has: "Quadratic_has_linear q = (Quadratic_impl_linear q \<noteq> None)"
    using hb by (simp add: Quadratic_has_linear_def)
  have ser: "Quadratic_InternalSerialize lm q = Inr (?t1 @ ?t2 @ ?t3 @ ?t4 @ ?t5)"
    using has by (intro Quadratic_InternalSerialize_eq) simp
  let ?q1 = "?d\<lparr>Quadratic_impl_rows := Quadratic_impl_rows q\<rparr>"
  let ?q2 = "?q1\<lparr>Quadratic_impl_columns := Quadratic_impl_columns q\<rparr>"
  let ?q3 = "?q2\<lparr>Quadratic_impl_values := Quadratic_impl_values q\<rparr>"
  let ?q4 = "?q3\<lparr>Quadratic_impl_has_bits := Quadratic_impl_has_bits q,
                 Quadratic_impl_linear := Quadratic_impl_linear q\<rparr>"
  have s1: "ParseLoop ?T ?d (?t1 @ rest) = ParseLoop ?T ?q1 rest" for rest
  proof (cases "Quadratic_impl_rows q = []")
    case True
    then show ?thesis by (simp add: Quadratic_default_instance_def)
  next
    case False
    then show ?thesis
      using ParseLoop_Quadratic_rows [OF lr, of lm ?d rest]
      by (simp add: Quadratic_default_instance_def)
  qed
  have s2: "ParseLoop ?T ?q1 (?t2 @ rest) = ParseLoop ?T ?q2 rest" for rest
  proof (cases "Quadratic_impl_columns q = []")
    case True
    then show ?thesis by (simp add: Quadratic_default_instance_def)
  next
    case False
    then show ?thesis
      using ParseLoop_Quadratic_columns [OF lc, of lm ?q1 rest]
      by (simp add: Quadratic_default_instance_def)
  qed
  have s3: "ParseLoop ?T ?q2 (?t3 @ rest) = ParseLoop ?T ?q3 rest" for rest
  proof (cases "Quadratic_impl_values q = []")
    case True
    then show ?thesis by (simp add: Quadratic_default_instance_def)
  next
    case False
    then show ?thesis
      using ParseLoop_Quadratic_values [OF lv, of lm ?q2 rest]
      by (simp add: Quadratic_default_instance_def)
  qed
  have s4: "ParseLoop ?T ?q3 (?t4 @ rest) = ParseLoop ?T ?q4 rest" for rest
  proof (cases "Quadratic_impl_linear q")
    case None
    then show ?thesis using hb has by (simp add: Quadratic_default_instance_def)
  next
    case (Some l)
    then have rt: "Linear_round_trips lm l" using li by simp
    have ql: "Quadratic_linear q = l"
      using Some by (simp add: Quadratic_linear_def Quadratic_internal_linear_def)
    have q3: "Quadratic_linear ?q3 = Linear_default_instance"
      by (simp add: Quadratic_linear_def Quadratic_internal_linear_def
          Quadratic_default_instance_def)
    have "ParseLoop ?T ?q3
           (InternalWriteMessage 4 (mm_ByteSizeLong lm l) (mm_InternalSerialize lm l) @ rest)
        = ParseLoop ?T
             (?q3\<lparr>Quadratic_impl_has_bits := Quadratic_impl_has_bits ?q3 OR 0x00000001,
                Quadratic_impl_linear := Some l\<rparr>) rest"
      using rt unfolding Linear_round_trips_def
      by (intro ParseLoop_Quadratic_linear) (simp_all add: q3)
    then show ?thesis
      using Some hb has ql by (simp add: Quadratic_default_instance_def)
  qed
  have s5: "ParseLoop ?T ?q4 ?t5 = Inr q"
  proof -
    have "ParseLoop ?T ?q4 (?t5 @ [])
        = ParseLoop ?T
            (?q4\<lparr>Quadratic_internal_metadata :=
                    Quadratic_internal_metadata ?q4 @ Quadratic_internal_metadata q\<rparr>) []"
      using un by (rule ParseLoop_Quadratic_unknown)
    then show ?thesis by (simp add: ParseLoop_Nil Quadratic_default_instance_def)
  qed
  have "ParseLoop ?T ?d (?t1 @ ?t2 @ ?t3 @ ?t4 @ ?t5) = Inr q"
    using s1 [of "?t2 @ ?t3 @ ?t4 @ ?t5"] s2 [of "?t3 @ ?t4 @ ?t5"] s3 [of "?t4 @ ?t5"]
      s4 [of ?t5] s5
    by (simp only:)
  then show ?thesis
    using ser by (simp add: Quadratic_ParseFromString_def Quadratic_InternalParse_def)
qed









lemma varint_small: "n < 128 \<Longrightarrow> varint n = [byte_of_nat n]"
  by (simp add: varint.simps)









text \<open>
  C4. A decoded message holds the bytes of every field its parse table does not
  recognise, in arrival order, and re-serializing it emits exactly those bytes after
  the known fields. For a Description and for an Instance decoded from any input: the
  input splits into fields, the unknown-field set is the bytes of the unrecognised ones,
  and the serialization is the serialization of the known fields followed by these
  bytes; a Description decoded from its re-encoding has the same fields, unknown ones
  included.
\<close>

theorem unknown_fields_reemitted:
  assumes "Instance_Description_ParseFromString bs = Inr d"
    and "Instance_ParseFromString sm bs' = Inr x"
  shows "(\<exists>fs. wire_fields bs = Inr fs \<and> concat (map wf_raw fs) = bs \<and>
              Description_internal_metadata d =
                map wf_raw (filter (\<lambda>f. \<not> Instance_Description_recognised f) fs) \<and>
              Instance_Description_InternalSerialize d =
                Instance_Description_InternalSerialize (d\<lparr>Description_internal_metadata := []\<rparr>) @
                concat (map wf_raw (filter (\<lambda>f. \<not> Instance_Description_recognised f) fs))) \<and>
         (\<exists>r. Instance_Description_ParseFromString (Instance_Description_InternalSerialize d)
                = Inr r \<and>
              Instance_Description_fields_equal r d) \<and>
         (\<exists>fs known. wire_fields bs' = Inr fs \<and> concat (map wf_raw fs) = bs' \<and>
              Instance_internal_metadata x =
                map wf_raw (filter (\<lambda>f. \<not> Instance_recognised f) fs) \<and>
              Instance_InternalSerialize sm (x\<lparr>Instance_internal_metadata := []\<rparr>) = Inr known \<and>
              Instance_InternalSerialize sm x =
                Inr (known @ concat (map wf_raw (filter (\<lambda>f. \<not> Instance_recognised f) fs))))"
proof (intro conjI)
  have p: "ParseLoop Instance_Description_table Instance_Description_default_instance bs = Inr d"
    using assms(1)
    by (simp add: Instance_Description_ParseFromString_def Instance_Description_InternalParse_def)
  from ParseLoop_Description_metadata [OF p, of "[]"] obtain fs where
    fs: "wire_fields bs = Inr fs" "concat (map wf_raw fs) = bs"
      "Description_internal_metadata d =
         map wf_raw (filter (\<lambda>f. \<not> Instance_Description_recognised f) fs)"
    by (auto simp add: wire_fields_def Instance_Description_default_sel)
  show "\<exists>fs. wire_fields bs = Inr fs \<and> concat (map wf_raw fs) = bs \<and>
      Description_internal_metadata d =
        map wf_raw (filter (\<lambda>f. \<not> Instance_Description_recognised f) fs) \<and>
      Instance_Description_InternalSerialize d =
        Instance_Description_InternalSerialize (d\<lparr>Description_internal_metadata := []\<rparr>) @
        concat (map wf_raw (filter (\<lambda>f. \<not> Instance_Description_recognised f) fs))"
    using fs Instance_Description_InternalSerialize_unknown_last [of d] by auto
  have "Instance_Description_wire_ok d"
    using Instance_Description_default_wire_ok p by (rule ParseLoop_Description_wire_ok)
  then show "\<exists>r. Instance_Description_ParseFromString (Instance_Description_InternalSerialize d)
      = Inr r \<and> Instance_Description_fields_equal r d"
    by (rule Instance_Description_round_trip)
  have q: "ParseLoop (Instance_table sm) Instance_default_instance bs' = Inr x"
    using assms(2) by (simp add: Instance_ParseFromString_def Instance_InternalParse_def)
  from ParseLoop_Instance_metadata [OF q Instance_default_held, of "[]"] obtain gs where
    h: "Instance_held x"
    and gs: "wire_fields bs' = Inr gs" "concat (map wf_raw gs) = bs'"
      "Instance_internal_metadata x = map wf_raw (filter (\<lambda>f. \<not> Instance_recognised f) gs)"
    by (auto simp add: wire_fields_def Instance_default_instance_def)
  from Instance_InternalSerialize_unknown_last [OF h, of sm] obtain known where
    "Instance_InternalSerialize sm (x\<lparr>Instance_internal_metadata := []\<rparr>) = Inr known"
    "Instance_InternalSerialize sm x = Inr (known @ concat (Instance_internal_metadata x))"
    by blast
  then show "\<exists>fs known. wire_fields bs' = Inr fs \<and> concat (map wf_raw fs) = bs' \<and>
      Instance_internal_metadata x = map wf_raw (filter (\<lambda>f. \<not> Instance_recognised f) fs) \<and>
      Instance_InternalSerialize sm (x\<lparr>Instance_internal_metadata := []\<rparr>) = Inr known \<and>
      Instance_InternalSerialize sm x =
        Inr (known @ concat (map wf_raw (filter (\<lambda>f. \<not> Instance_recognised f) fs)))"
    using gs by auto
qed

lemma example_Description_parse:
  "Instance_Description_ParseFromString [40, 3, 10, 1, 65]
   = Inr \<lparr>Description_impl_has_bits = 1, Description_impl_authors = [],
          Description_impl_name = [65], Description_impl_description = [],
          Description_impl_created_by = [], Description_internal_metadata = [[40, 3]]\<rparr>"
  by (simp add: Instance_Description_ParseFromString_def Instance_Description_InternalParse_def
      ParseLoop.simps read_field_def read_varint_10 read_payload_def
      Instance_Description_table_def Instance_Description_default_instance_def
      Instance_Description_internal_set_name_def unknown_field_def)

lemma example_Instance_parse:
  "Instance_ParseFromString example_submessages [48, 1, 40, 3]
   = Inr \<lparr>Instance_impl_has_bits = 0, Instance_impl_decision_variables = [],
          Instance_impl_constraints = [], Instance_impl_description = None,
          Instance_impl_objective = None, Instance_impl_sense = 3,
          Instance_internal_metadata = [[48, 1]]\<rparr>"
  by (simp add: Instance_ParseFromString_def Instance_InternalParse_def
      ParseLoop.simps read_field_def read_varint_10 read_payload_def
      Instance_table_def Instance_default_instance_def unknown_field_def)

theorem unknown_fields_reemitted_witness:
  "Instance_Description_ParseFromString [40, 3, 10, 1, 65]
   = Inr \<lparr>Description_impl_has_bits = 1, Description_impl_authors = [],
          Description_impl_name = [65], Description_impl_description = [],
          Description_impl_created_by = [], Description_internal_metadata = [[40, 3]]\<rparr> \<and>
   Instance_Description_InternalSerialize
       \<lparr>Description_impl_has_bits = 1, Description_impl_authors = [],
        Description_impl_name = [65], Description_impl_description = [],
        Description_impl_created_by = [], Description_internal_metadata = [[40, 3]]\<rparr>
     = [10, 1, 65] @ [40, 3] \<and>
   Instance_ParseFromString example_submessages [48, 1, 40, 3]
   = Inr \<lparr>Instance_impl_has_bits = 0, Instance_impl_decision_variables = [],
          Instance_impl_constraints = [], Instance_impl_description = None,
          Instance_impl_objective = None, Instance_impl_sense = 3,
          Instance_internal_metadata = [[48, 1]]\<rparr> \<and>
   Instance_InternalSerialize example_submessages
       \<lparr>Instance_impl_has_bits = 0, Instance_impl_decision_variables = [],
        Instance_impl_constraints = [], Instance_impl_description = None,
        Instance_impl_objective = None, Instance_impl_sense = 3,
        Instance_internal_metadata = [[48, 1]]\<rparr>
     = Inr ([40, 3] @ [48, 1])"
proof -
  let ?d = "\<lparr>Description_impl_has_bits = 1, Description_impl_authors = [],
      Description_impl_name = [65], Description_impl_description = [],
      Description_impl_created_by = [], Description_internal_metadata = [[40, 3]]\<rparr>"
  let ?x = "\<lparr>Instance_impl_has_bits = 0, Instance_impl_decision_variables = [],
      Instance_impl_constraints = [], Instance_impl_description = None,
      Instance_impl_objective = None, Instance_impl_sense = 3,
      Instance_internal_metadata = [[48, 1]]\<rparr> :: (byte list, byte list) Instance"
  from unknown_fields_reemitted [OF example_Description_parse example_Instance_parse]
  obtain fs gs known where
    d: "Description_internal_metadata ?d =
          map wf_raw (filter (\<lambda>f. \<not> Instance_Description_recognised f) fs)"
       "Instance_Description_InternalSerialize ?d =
          Instance_Description_InternalSerialize (?d\<lparr>Description_internal_metadata := []\<rparr>) @
          concat (map wf_raw (filter (\<lambda>f. \<not> Instance_Description_recognised f) fs))"
    and x: "Instance_internal_metadata ?x = map wf_raw (filter (\<lambda>f. \<not> Instance_recognised f) gs)"
       "Instance_InternalSerialize example_submessages (?x\<lparr>Instance_internal_metadata := []\<rparr>)
          = Inr known"
       "Instance_InternalSerialize example_submessages ?x =
          Inr (known @ concat (map wf_raw (filter (\<lambda>f. \<not> Instance_recognised f) gs)))"
    by (elim conjE exE)
  have "Instance_Description_InternalSerialize (?d\<lparr>Description_internal_metadata := []\<rparr>)
      = [10, 1, 65]"
    by (simp add: Instance_Description_InternalSerialize_eq Instance_Description_has_name_def
        Instance_Description_has_description_def Instance_Description_has_created_by_def
        WriteString_def MakeTag_def varint.simps byte_of_nat_def)
  then have a: "Instance_Description_InternalSerialize ?d = [10, 1, 65] @ [40, 3]"
    using d by (simp only: concat.simps append_Nil2 Instance_Description.simps)
      (simp add: d(1) [symmetric])
  have "Instance_InternalSerialize example_submessages (?x\<lparr>Instance_internal_metadata := []\<rparr>)
      = Inr [40, 3]"
    using WriteEnumToArray_5_3
    by (simp add: Instance_InternalSerialize_def Let_def Instance_internal_sense_def
        have_unknown_fields_def)
  then have "known = [40, 3]" using x(2) by simp
  then have b: "Instance_InternalSerialize example_submessages ?x = Inr ([40, 3] @ [48, 1])"
    using x(3) by (simp add: x(1) [symmetric])
  show ?thesis
    using a b example_Description_parse example_Instance_parse by simp
qed

text \<open>
  C5. The sense enum is open. \<^verbatim>\<open>Instance_Sense_IsValid\<close> holds exactly for 0, 1 and 2, but
  decoding does not apply it: a sense field carrying any 32-bit value \<open>v\<close> is accepted
  and \<open>v\<close> is stored as it is, and re-encoding emits the same value for field 5. For
  the value 3: it is not valid, the bytes \<open>[40, 3]\<close> decode to an Instance with sense 3,
  and that Instance encodes to \<open>[40, 3]\<close> again.
\<close>

theorem sense_open_enum:
  "Instance_InternalParse sm x (WriteEnumToArray 5 v @ rest)
     = Instance_InternalParse sm (x\<lparr>Instance_impl_sense := v\<rparr>) rest \<and>
   Instance_ParseFromString sm (WriteEnumToArray 5 v)
     = Inr (Instance_default_instance\<lparr>Instance_impl_sense := v\<rparr>) \<and>
   Instance_InternalSerialize sm (Instance_default_instance\<lparr>Instance_impl_sense := v\<rparr>)
     = Inr (if v = 0 then [] else WriteEnumToArray 5 v) \<and>
   Instance_Sense_IsValid v = (v = 0 \<or> v = 1 \<or> v = 2) \<and>
   Instance_Sense_IsValid 3 = False \<and>
   WriteEnumToArray 5 3 = [40, 3] \<and>
   Instance_ParseFromString sm [40, 3]
     = Inr (Instance_default_instance\<lparr>Instance_impl_sense := 3\<rparr>) \<and>
   Instance_InternalSerialize sm (Instance_default_instance\<lparr>Instance_impl_sense := 3\<rparr>)
     = Inr [40, 3]"
proof -
  have a: "Instance_InternalParse sm x (WriteEnumToArray 5 v @ rest)
      = Instance_InternalParse sm (x\<lparr>Instance_impl_sense := v\<rparr>) rest" for x v rest
    by (rule Instance_parse_sense)
  have b: "Instance_ParseFromString sm (WriteEnumToArray 5 v)
      = Inr (Instance_default_instance\<lparr>Instance_impl_sense := v\<rparr>)" for v
    using a [of Instance_default_instance v "[]"]
    by (simp add: Instance_ParseFromString_def Instance_InternalParse_def ParseLoop_Nil)
  have c: "Instance_InternalSerialize sm (Instance_default_instance\<lparr>Instance_impl_sense := v\<rparr>)
      = Inr (if v = 0 then [] else WriteEnumToArray 5 v)" for v
    by (simp add: Instance_InternalSerialize_def Let_def Instance_default_instance_def
        Instance_internal_sense_def have_unknown_fields_def)
  have d: "Instance_Sense_IsValid 3 = False"
    by (simp add: Instance_Sense_IsValid_iff)
  show ?thesis
    using a [of x v rest] b [of v] c [of v] b [of 3] c [of 3] d
    by (simp add: Instance_Sense_IsValid_iff WriteEnumToArray_5_3)
qed

section \<open>Absence of structural validation\<close>

lemma Quadratic_add_sizes:
  "Quadratic_rows_size (Quadratic_add_rows v q) = Quadratic_rows_size q + 1"
  "Quadratic_columns_size (Quadratic_add_rows v q) = Quadratic_columns_size q"
  "Quadratic_values_size (Quadratic_add_rows v q) = Quadratic_values_size q"
  "Quadratic_rows_size (Quadratic_add_columns v q) = Quadratic_rows_size q"
  "Quadratic_columns_size (Quadratic_add_columns v q) = Quadratic_columns_size q + 1"
  "Quadratic_values_size (Quadratic_add_columns v q) = Quadratic_values_size q"
  "Quadratic_rows_size (Quadratic_add_values w q) = Quadratic_rows_size q"
  "Quadratic_columns_size (Quadratic_add_values w q) = Quadratic_columns_size q"
  "Quadratic_values_size (Quadratic_add_values w q) = Quadratic_values_size q + 1"
  by (simp_all add: Quadratic_rows_size_def Quadratic_columns_size_def Quadratic_values_size_def
      Quadratic_add_rows_def Quadratic_add_columns_def Quadratic_add_values_def)

lemma Quadratic_do_calls_append:
  "Quadratic_do_calls q cs = Inr q1 \<Longrightarrow>
   Quadratic_do_calls q (cs @ ds) = Quadratic_do_calls q1 ds"
  by (induction cs arbitrary: q) (auto split: sum.splits)

lemma Quadratic_do_calls_add_rows:
  "Quadratic_do_calls q (map Add_rows rs)
   = Inr (q\<lparr>Quadratic_impl_rows := Quadratic_impl_rows q @ rs\<rparr>)"
  by (induction rs arbitrary: q) (simp_all add: Quadratic_add_rows_def)

lemma Quadratic_do_calls_add_columns:
  "Quadratic_do_calls q (map Add_columns cs)
   = Inr (q\<lparr>Quadratic_impl_columns := Quadratic_impl_columns q @ cs\<rparr>)"
  by (induction cs arbitrary: q) (simp_all add: Quadratic_add_columns_def)

lemma Quadratic_do_calls_add_values:
  "Quadratic_do_calls q (map Add_values vs)
   = Inr (q\<lparr>Quadratic_impl_values := Quadratic_impl_values q @ vs\<rparr>)"
  by (induction vs arbitrary: q) (simp_all add: Quadratic_add_values_def)

lemma Quadratic_any_shape_constructible:
  "Quadratic_do_calls Quadratic_default_instance
     (map Add_rows rs @ map Add_columns cs @ map Add_values vs)
   = Inr (Quadratic_default_instance
            \<lparr>Quadratic_impl_rows := rs, Quadratic_impl_columns := cs,
             Quadratic_impl_values := vs\<rparr>)"
proof -
  let ?q1 = "Quadratic_default_instance\<lparr>Quadratic_impl_rows := rs\<rparr>"
  let ?q2 = "?q1\<lparr>Quadratic_impl_columns := cs\<rparr>"
  have a: "Quadratic_do_calls Quadratic_default_instance (map Add_rows rs) = Inr ?q1"
    using Quadratic_do_calls_add_rows [of Quadratic_default_instance rs]
    by (simp add: Quadratic_default_instance_def)
  have b: "Quadratic_do_calls ?q1 (map Add_columns cs) = Inr ?q2"
    using Quadratic_do_calls_add_columns [of ?q1 cs]
    by (simp add: Quadratic_default_instance_def)
  have c: "Quadratic_do_calls ?q2 (map Add_values vs)
      = Inr (?q2\<lparr>Quadratic_impl_values := vs\<rparr>)"
    using Quadratic_do_calls_add_values [of ?q2 vs]
    by (simp add: Quadratic_default_instance_def)
  show ?thesis
    using Quadratic_do_calls_append [OF a, of "map Add_columns cs @ map Add_values vs"]
      Quadratic_do_calls_append [OF b, of "map Add_values vs"] c
    by simp
qed

lemma Quadratic_InternalSerialize_rejects:
  "(Quadratic_InternalSerialize lm q = Inl e) =
     (e = NullDereference \<and> Quadratic_has_linear q \<and> Quadratic_impl_linear q = None)"
  by (auto simp add: Quadratic_InternalSerialize_def Quadratic_has_linear_def Let_def)

lemma Function_InternalSerialize_quadratic:
  assumes "Quadratic_InternalSerialize (fsub_Linear fs) q = Inr out"
  shows "Function_InternalSerialize fs
           (Function_unsafe_arena_set_allocated_quadratic cf (Some q) f)
         = Inr (InternalWriteMessage 3 (length out) out @
                concat (Function_internal_metadata (cf f)))"
  using assms
  by (simp add: Function_InternalSerialize_def Function_unsafe_arena_set_allocated_quadratic_def
      Function_set_has_quadratic_def Function_function_case_def
      Function_internal_quadratic_def kCase_numerals Let_def have_unknown_fields_def
      InternalSerializeUnknownFieldsToArray_def)

lemma example_Quadratic_mismatched_eq:
  "example_Quadratic_mismatched =
     \<lparr>Quadratic_impl_has_bits = 0, Quadratic_impl_rows = [1, 2], Quadratic_impl_columns = [3],
      Quadratic_impl_values = [], Quadratic_impl_linear = None,
      Quadratic_internal_metadata = []\<rparr>"
  by (simp add: example_Quadratic_mismatched_def Quadratic_add_rows_def
      Quadratic_add_columns_def Quadratic_default_instance_def)

lemma example_Quadratic_mismatched_wire_ok:
  "Quadratic_wire_ok example_Linear_methods example_Quadratic_mismatched"
  by (simp add: Quadratic_wire_ok_def example_Quadratic_mismatched_eq packed_uint64_def
      packed_double_def varint_small)

lemma example_Quadratic_mismatched_serialized:
  "Quadratic_InternalSerialize example_Linear_methods example_Quadratic_mismatched
     = Inr [10, 2, 1, 2, 18, 1, 3]"
  by (simp add: Quadratic_InternalSerialize_eq Quadratic_has_linear_def
      example_Quadratic_mismatched_eq WriteUInt64Packed_def packed_uint64_def
      MakeTag_def varint_small byte_of_nat_def)

text \<open>
  C6. No operation checks the shape of a Quadratic. \<^verbatim>\<open>add_rows\<close>, \<^verbatim>\<open>add_columns\<close> and
  \<^verbatim>\<open>add_values\<close> each append to their own sequence and leave the other two alone, so a
  Quadratic with any three sequences, whatever their lengths, is reached from a
  default-constructed one. The serializer of Quadratic fails on no Quadratic but one
  whose has-bit is set over a null pointer, so whether it fails does not depend on the
  three sequences. Take a Quadratic \<open>q\<close> that meets \<open>Quadratic_wire_ok\<close> (the has-bits
  word is 1 when a Linear is held and 0 when none is, the packed payloads are shorter
  than \<open>2^31\<close> bytes, the Linear held round-trips, every unknown field is well formed
  and not recognised by the table), which asks nothing of the lengths of the three
  sequences: the serializer writes each sequence as a field of its own, the decoder
  accepts these bytes and gives \<open>q\<close> back, and a Function that holds \<open>q\<close> is encoded with
  the bytes of \<open>q\<close> as field 3. \<^verbatim>\<open>IsInitialized()\<close> is true of every Instance,
  Instance.Description, Function and Quadratic, decoded ones included.
\<close>

theorem no_structural_validation:
  shows "Quadratic_rows_size (Quadratic_add_rows v q1) = Quadratic_rows_size q1 + 1 \<and>
         Quadratic_columns_size (Quadratic_add_rows v q1) = Quadratic_columns_size q1 \<and>
         Quadratic_values_size (Quadratic_add_rows v q1) = Quadratic_values_size q1 \<and>
         Quadratic_rows_size (Quadratic_add_columns v q1) = Quadratic_rows_size q1 \<and>
         Quadratic_columns_size (Quadratic_add_columns v q1) = Quadratic_columns_size q1 + 1 \<and>
         Quadratic_values_size (Quadratic_add_columns v q1) = Quadratic_values_size q1 \<and>
         Quadratic_rows_size (Quadratic_add_values w q1) = Quadratic_rows_size q1 \<and>
         Quadratic_columns_size (Quadratic_add_values w q1) = Quadratic_columns_size q1 \<and>
         Quadratic_values_size (Quadratic_add_values w q1) = Quadratic_values_size q1 + 1 \<and>
         Quadratic_do_calls Quadratic_default_instance
             (map Add_rows rs @ map Add_columns cs @ map Add_values vs)
           = Inr (Quadratic_default_instance
                    \<lparr>Quadratic_impl_rows := rs, Quadratic_impl_columns := cs,
                     Quadratic_impl_values := vs\<rparr>) \<and>
         (Quadratic_InternalSerialize lm q2 = Inl e) =
           (e = NullDereference \<and> Quadratic_has_linear q2 \<and> Quadratic_impl_linear q2 = None) \<and>
         (\<exists>e. Quadratic_InternalSerialize lm
                 (q2\<lparr>Quadratic_impl_rows := rs, Quadratic_impl_columns := cs,
                     Quadratic_impl_values := vs\<rparr>) = Inl e) =
           (\<exists>e. Quadratic_InternalSerialize lm q2 = Inl e) \<and>
         (Quadratic_wire_ok (fsub_Linear fs) q \<longrightarrow>
         Quadratic_InternalSerialize (fsub_Linear fs) q =
           Inr ((if Quadratic_impl_rows q \<noteq> []
                 then WriteUInt64Packed 1 (Quadratic_impl_rows q) else []) @
                (if Quadratic_impl_columns q \<noteq> []
                 then WriteUInt64Packed 2 (Quadratic_impl_columns q) else []) @
                (if Quadratic_impl_values q \<noteq> []
                 then WriteFixedPacked 3 (Quadratic_impl_values q) else []) @
                (if Quadratic_has_linear q
                 then InternalWriteMessage 4
                        (mm_ByteSizeLong (fsub_Linear fs) (Quadratic_linear q))
                        (mm_InternalSerialize (fsub_Linear fs) (Quadratic_linear q))
                 else []) @
                concat (Quadratic_internal_metadata q)) \<and>
         (\<exists>out. Quadratic_InternalSerialize (fsub_Linear fs) q = Inr out \<and>
                Quadratic_ParseFromString (fsub_Linear fs) out = Inr q \<and>
                Function_InternalSerialize fs
                    (Function_unsafe_arena_set_allocated_quadratic cf (Some q) f)
                  = Inr (InternalWriteMessage 3 (length out) out @
                         concat (Function_internal_metadata (cf f))))) \<and>
         Function_has_quadratic
           (Function_unsafe_arena_set_allocated_quadratic cf (Some q) f) \<and>
         Function_quadratic
           (Function_unsafe_arena_set_allocated_quadratic cf (Some q) f) = Inr q \<and>
         Instance_IsInitialized x \<and> Instance_Description_IsInitialized d \<and>
         Function_IsInitialized g \<and> Quadratic_IsInitialized q2 \<and>
         (case Instance_ParseFromString sm bs of
            Inl e \<Rightarrow> True | Inr z \<Rightarrow> Instance_IsInitialized z) \<and>
         (case Instance_Description_ParseFromString bs of
            Inl e \<Rightarrow> True | Inr z \<Rightarrow> Instance_Description_IsInitialized z) \<and>
         (case Function_ParseFromString fs bs of
            Inl e \<Rightarrow> True | Inr z \<Rightarrow> Function_IsInitialized z) \<and>
         (case Quadratic_ParseFromString lm bs of
            Inl e \<Rightarrow> True | Inr z \<Rightarrow> Quadratic_IsInitialized z)"
proof -
  let ?lm = "fsub_Linear fs"
  have sz: "Quadratic_rows_size (Quadratic_add_rows v q1) = Quadratic_rows_size q1 + 1"
    "Quadratic_columns_size (Quadratic_add_rows v q1) = Quadratic_columns_size q1"
    "Quadratic_values_size (Quadratic_add_rows v q1) = Quadratic_values_size q1"
    "Quadratic_rows_size (Quadratic_add_columns v q1) = Quadratic_rows_size q1"
    "Quadratic_columns_size (Quadratic_add_columns v q1) = Quadratic_columns_size q1 + 1"
    "Quadratic_values_size (Quadratic_add_columns v q1) = Quadratic_values_size q1"
    "Quadratic_rows_size (Quadratic_add_values w q1) = Quadratic_rows_size q1"
    "Quadratic_columns_size (Quadratic_add_values w q1) = Quadratic_columns_size q1"
    "Quadratic_values_size (Quadratic_add_values w q1) = Quadratic_values_size q1 + 1"
    by (rule Quadratic_add_sizes)+
  have reach: "Quadratic_do_calls Quadratic_default_instance
             (map Add_rows rs @ map Add_columns cs @ map Add_values vs)
           = Inr (Quadratic_default_instance
                    \<lparr>Quadratic_impl_rows := rs, Quadratic_impl_columns := cs,
                     Quadratic_impl_values := vs\<rparr>)"
    by (rule Quadratic_any_shape_constructible)
  have rej: "(Quadratic_InternalSerialize lm q2 = Inl e) =
           (e = NullDereference \<and> Quadratic_has_linear q2 \<and> Quadratic_impl_linear q2 = None)"
    by (rule Quadratic_InternalSerialize_rejects)
  have ind: "(\<exists>e. Quadratic_InternalSerialize lm
                 (q2\<lparr>Quadratic_impl_rows := rs, Quadratic_impl_columns := cs,
                     Quadratic_impl_values := vs\<rparr>) = Inl e) =
           (\<exists>e. Quadratic_InternalSerialize lm q2 = Inl e)"
    by (simp add: Quadratic_InternalSerialize_rejects Quadratic_has_linear_def)
  have rt: "Quadratic_wire_ok ?lm q \<longrightarrow>
         Quadratic_InternalSerialize ?lm q =
           Inr ((if Quadratic_impl_rows q \<noteq> []
                 then WriteUInt64Packed 1 (Quadratic_impl_rows q) else []) @
                (if Quadratic_impl_columns q \<noteq> []
                 then WriteUInt64Packed 2 (Quadratic_impl_columns q) else []) @
                (if Quadratic_impl_values q \<noteq> []
                 then WriteFixedPacked 3 (Quadratic_impl_values q) else []) @
                (if Quadratic_has_linear q
                 then InternalWriteMessage 4
                        (mm_ByteSizeLong ?lm (Quadratic_linear q))
                        (mm_InternalSerialize ?lm (Quadratic_linear q))
                 else []) @
                concat (Quadratic_internal_metadata q)) \<and>
         (\<exists>out. Quadratic_InternalSerialize ?lm q = Inr out \<and>
                Quadratic_ParseFromString ?lm out = Inr q \<and>
                Function_InternalSerialize fs
                    (Function_unsafe_arena_set_allocated_quadratic cf (Some q) f)
                  = Inr (InternalWriteMessage 3 (length out) out @
                         concat (Function_internal_metadata (cf f))))"
  proof
    assume ok: "Quadratic_wire_ok ?lm q"
    have has: "Quadratic_has_linear q \<longrightarrow> Quadratic_impl_linear q \<noteq> None"
      using ok by (simp add: Quadratic_wire_ok_def Quadratic_has_linear_def split: if_splits)
    have expl: "Quadratic_InternalSerialize ?lm q =
           Inr ((if Quadratic_impl_rows q \<noteq> []
                 then WriteUInt64Packed 1 (Quadratic_impl_rows q) else []) @
                (if Quadratic_impl_columns q \<noteq> []
                 then WriteUInt64Packed 2 (Quadratic_impl_columns q) else []) @
                (if Quadratic_impl_values q \<noteq> []
                 then WriteFixedPacked 3 (Quadratic_impl_values q) else []) @
                (if Quadratic_has_linear q
                 then InternalWriteMessage 4
                        (mm_ByteSizeLong ?lm (Quadratic_linear q))
                        (mm_InternalSerialize ?lm (Quadratic_linear q))
                 else []) @
                concat (Quadratic_internal_metadata q))"
      using has by (rule Quadratic_InternalSerialize_eq)
    obtain out where out: "Quadratic_InternalSerialize ?lm q = Inr out"
      "Quadratic_ParseFromString ?lm out = Inr q"
      using Quadratic_round_trip [OF ok] by blast
    have fo: "Function_InternalSerialize fs
                    (Function_unsafe_arena_set_allocated_quadratic cf (Some q) f)
                  = Inr (InternalWriteMessage 3 (length out) out @
                         concat (Function_internal_metadata (cf f)))"
      using out(1) by (rule Function_InternalSerialize_quadratic)
    have ex: "\<exists>out. Quadratic_InternalSerialize ?lm q = Inr out \<and>
                Quadratic_ParseFromString ?lm out = Inr q \<and>
                Function_InternalSerialize fs
                    (Function_unsafe_arena_set_allocated_quadratic cf (Some q) f)
                  = Inr (InternalWriteMessage 3 (length out) out @
                         concat (Function_internal_metadata (cf f)))"
      using out fo by (intro exI [of _ out] conjI)
    show "Quadratic_InternalSerialize ?lm q =
           Inr ((if Quadratic_impl_rows q \<noteq> []
                 then WriteUInt64Packed 1 (Quadratic_impl_rows q) else []) @
                (if Quadratic_impl_columns q \<noteq> []
                 then WriteUInt64Packed 2 (Quadratic_impl_columns q) else []) @
                (if Quadratic_impl_values q \<noteq> []
                 then WriteFixedPacked 3 (Quadratic_impl_values q) else []) @
                (if Quadratic_has_linear q
                 then InternalWriteMessage 4
                        (mm_ByteSizeLong ?lm (Quadratic_linear q))
                        (mm_InternalSerialize ?lm (Quadratic_linear q))
                 else []) @
                concat (Quadratic_internal_metadata q)) \<and>
         (\<exists>out. Quadratic_InternalSerialize ?lm q = Inr out \<and>
                Quadratic_ParseFromString ?lm out = Inr q \<and>
                Function_InternalSerialize fs
                    (Function_unsafe_arena_set_allocated_quadratic cf (Some q) f)
                  = Inr (InternalWriteMessage 3 (length out) out @
                         concat (Function_internal_metadata (cf f))))"
      using expl ex by (intro conjI)
  qed
  have fq: "Function_has_quadratic
        (Function_unsafe_arena_set_allocated_quadratic cf (Some q) f)"
    "Function_quadratic
        (Function_unsafe_arena_set_allocated_quadratic cf (Some q) f) = Inr q"
    by (simp_all add: Function_unsafe_arena_set_allocated_quadratic_def Let_def
        Function_set_has_quadratic_def Function_has_quadratic_def Function_function_case_def
        Function_quadratic_def Function_internal_quadratic_def)
  have ini: "Instance_IsInitialized x" "Instance_Description_IsInitialized d"
    "Function_IsInitialized g" "Quadratic_IsInitialized q2"
    by (simp_all add: Instance_IsInitialized_def Instance_Description_IsInitialized_def
        Function_IsInitialized_def Quadratic_IsInitialized_def)
  have dec: "(case Instance_ParseFromString sm bs of
            Inl e \<Rightarrow> True | Inr z \<Rightarrow> Instance_IsInitialized z)"
    "(case Instance_Description_ParseFromString bs of
            Inl e \<Rightarrow> True | Inr z \<Rightarrow> Instance_Description_IsInitialized z)"
    "(case Function_ParseFromString fs bs of
            Inl e \<Rightarrow> True | Inr z \<Rightarrow> Function_IsInitialized z)"
    "(case Quadratic_ParseFromString lm bs of
            Inl e \<Rightarrow> True | Inr z \<Rightarrow> Quadratic_IsInitialized z)"
    by (simp_all add: Instance_IsInitialized_def Instance_Description_IsInitialized_def
        Function_IsInitialized_def Quadratic_IsInitialized_def split: sum.splits)
  show ?thesis
    using sz reach rej ind rt fq ini dec by (intro conjI)
qed

theorem no_structural_validation_witness:
  "Quadratic_wire_ok (fsub_Linear example_Function_submessages) example_Quadratic_mismatched \<and>
   Quadratic_do_calls Quadratic_default_instance [Add_rows 1, Add_rows 2, Add_columns 3]
     = Inr example_Quadratic_mismatched \<and>
   Quadratic_rows_size example_Quadratic_mismatched = 2 \<and>
   Quadratic_columns_size example_Quadratic_mismatched = 1 \<and>
   Quadratic_values_size example_Quadratic_mismatched = 0 \<and>
   \<not> Quadratic_shape_valid example_Quadratic_mismatched \<and>
   Quadratic_InternalSerialize example_Linear_methods example_Quadratic_mismatched
     = Inr [10, 2, 1, 2, 18, 1, 3] \<and>
   Quadratic_ParseFromString example_Linear_methods [10, 2, 1, 2, 18, 1, 3]
     = Inr example_Quadratic_mismatched \<and>
   Function_InternalSerialize example_Function_submessages
       (Function_unsafe_arena_set_allocated_quadratic Function_clear_function
          (Some example_Quadratic_mismatched) Function_default_instance)
     = Inr [26, 7, 10, 2, 1, 2, 18, 1, 3] \<and>
   Quadratic_IsInitialized example_Quadratic_mismatched"
proof -
  have l: "fsub_Linear example_Function_submessages = example_Linear_methods"
    by (simp add: example_Function_submessages_def)
  have ok: "Quadratic_wire_ok (fsub_Linear example_Function_submessages)
      example_Quadratic_mismatched"
    unfolding l by (rule example_Quadratic_mismatched_wire_ok)
  note w = no_structural_validation [where fs = example_Function_submessages
        and q = example_Quadratic_mismatched and v = 1 and w = 0 and ?q1.0 = Quadratic_default_instance and rs = "[1, 2]"
        and cs = "[3]" and vs = "[]" and lm = example_Linear_methods
        and ?q2.0 = example_Quadratic_mismatched and e = NullDereference
        and cf = Function_clear_function and f = Function_default_instance
        and x = "Instance_default_instance :: (byte list, byte list) Instance"
        and d = Instance_Description_default_instance and g = Function_default_instance
        and sm = example_submessages and bs = "[]"]
  have c: "Quadratic_do_calls Quadratic_default_instance [Add_rows 1, Add_rows 2, Add_columns 3]
      = Inr example_Quadratic_mismatched"
    using w [THEN conjunct2, THEN conjunct2, THEN conjunct2, THEN conjunct2, THEN conjunct2, THEN conjunct2, THEN conjunct2, THEN conjunct2, THEN conjunct2, THEN conjunct1]
    unfolding example_Quadratic_mismatched_eq
    by (simp add: Quadratic_default_instance_def)
  have s: "Quadratic_rows_size example_Quadratic_mismatched = 2"
    "Quadratic_columns_size example_Quadratic_mismatched = 1"
    "Quadratic_values_size example_Quadratic_mismatched = 0"
    by (simp_all add: example_Quadratic_mismatched_eq Quadratic_rows_size_def
        Quadratic_columns_size_def Quadratic_values_size_def)
  have ns: "\<not> Quadratic_shape_valid example_Quadratic_mismatched"
    using s by (simp add: Quadratic_shape_valid_def)
  note wi = w [THEN conjunct2, THEN conjunct2, THEN conjunct2, THEN conjunct2, THEN conjunct2, THEN conjunct2, THEN conjunct2, THEN conjunct2, THEN conjunct2, THEN conjunct2, THEN conjunct2, THEN conjunct2, THEN conjunct1, rule_format, OF ok, THEN conjunct2]
  from wi obtain out where out:
    "Quadratic_InternalSerialize example_Linear_methods example_Quadratic_mismatched = Inr out"
    "Quadratic_ParseFromString example_Linear_methods out = Inr example_Quadratic_mismatched"
    "Function_InternalSerialize example_Function_submessages
        (Function_unsafe_arena_set_allocated_quadratic Function_clear_function
           (Some example_Quadratic_mismatched) Function_default_instance)
      = Inr (InternalWriteMessage 3 (length out) out @
             concat (Function_internal_metadata
                       (Function_clear_function Function_default_instance)))"
    unfolding l by (elim exE conjE)
  have o: "out = [10, 2, 1, 2, 18, 1, 3]"
    using out(1) by (simp add: example_Quadratic_mismatched_serialized)
  have p: "Quadratic_ParseFromString example_Linear_methods [10, 2, 1, 2, 18, 1, 3]
      = Inr example_Quadratic_mismatched"
    using out(2) unfolding o .
  have fser: "Function_InternalSerialize example_Function_submessages
       (Function_unsafe_arena_set_allocated_quadratic Function_clear_function
          (Some example_Quadratic_mismatched) Function_default_instance)
     = Inr [26, 7, 10, 2, 1, 2, 18, 1, 3]"
    using out(3) unfolding o
    by (simp add: InternalWriteMessage_def MakeTag_def varint_small byte_of_nat_def
        Function_clear_function_def Function_clear_has_function_def
        Function_default_instance_def)
  have i: "Quadratic_IsInitialized example_Quadratic_mismatched"
    by (simp add: Quadratic_IsInitialized_def)
  show ?thesis
    using ok c s ns example_Quadratic_mismatched_serialized p fser i by (intro conjI)
qed

end
